(* ===== verification/Prelude.thy ===== *)
theory Prelude
  imports Main "HOL-Library.Word" "HOL-Library.Monad_Syntax"
begin

text \<open>
  Shared vocabulary of the development: the C integer types at their widths, NTSTATUS values and
  the test NT\_SUCCESS, the value that stands for an access outside a buffer, the common interface
  of the enumerations, block comparison and writes into memory, sequencing of steps that may fault,
  and list lemmas; and the named collections that the component proofs draw from.
\<close>

unbundle bit_operations_syntax

named_theorems status_simps \<open>facts about NTSTATUS constants\<close>
named_theorems reader_iff \<open>when a reader returns a value\<close>
named_theorems reader_none \<open>when a reader runs off the end of its buffer\<close>
named_theorems layout_len \<open>lengths of encoded fields and structures\<close>

section \<open>C integer types\<close>

type_synonym byte = "8 word"
type_synonym u16 = "16 word"
type_synonym u32 = "32 word"
type_synonym u64 = "64 word"
type_synonym bytes = "byte list"

lemma word_le_3: "(x :: u32) \<le> 3 \<Longrightarrow> x \<in> {0, 1, 2, 3}"
  by (simp add: word_le_nat_alt word_unat_eq_iff) arith

section \<open>NTSTATUS\<close>

text \<open>
  An NTSTATUS is a signed 32-bit value; the macro NT_SUCCESS tests that it is not negative. The
  constants are the ones of ntstatus.h that the driver returns.
\<close>

type_synonym ntstatus = "32 word"

definition NT_SUCCESS :: "ntstatus \<Rightarrow> bool" where
  "NT_SUCCESS s \<longleftrightarrow> 0 \<le> sint s"

definition STATUS_SUCCESS :: ntstatus where "STATUS_SUCCESS = 0"
definition STATUS_INVALID_PARAMETER :: ntstatus where "STATUS_INVALID_PARAMETER = 0xC000000D"
definition STATUS_INVALID_DEVICE_REQUEST :: ntstatus where
  "STATUS_INVALID_DEVICE_REQUEST = 0xC0000010"
definition STATUS_ACCESS_DENIED :: ntstatus where "STATUS_ACCESS_DENIED = 0xC0000022"
definition STATUS_BUFFER_TOO_SMALL :: ntstatus where "STATUS_BUFFER_TOO_SMALL = 0xC0000023"
definition STATUS_INSUFFICIENT_RESOURCES :: ntstatus where
  "STATUS_INSUFFICIENT_RESOURCES = 0xC000009A"
definition STATUS_DEVICE_NOT_READY :: ntstatus where "STATUS_DEVICE_NOT_READY = 0xC00000A3"
definition STATUS_INVALID_BUFFER_SIZE :: ntstatus where "STATUS_INVALID_BUFFER_SIZE = 0xC0000206"
definition STATUS_NOT_FOUND :: ntstatus where "STATUS_NOT_FOUND = 0xC0000225"

lemmas status_defs =
  STATUS_SUCCESS_def STATUS_INVALID_PARAMETER_def STATUS_INVALID_DEVICE_REQUEST_def
  STATUS_ACCESS_DENIED_def STATUS_BUFFER_TOO_SMALL_def STATUS_INSUFFICIENT_RESOURCES_def
  STATUS_DEVICE_NOT_READY_def STATUS_INVALID_BUFFER_SIZE_def STATUS_NOT_FOUND_def

lemma NT_SUCCESS_constants [simp, status_simps]:
  "NT_SUCCESS STATUS_SUCCESS"
  "\<not> NT_SUCCESS STATUS_INVALID_PARAMETER"
  "\<not> NT_SUCCESS STATUS_INVALID_DEVICE_REQUEST"
  "\<not> NT_SUCCESS STATUS_ACCESS_DENIED"
  "\<not> NT_SUCCESS STATUS_BUFFER_TOO_SMALL"
  "\<not> NT_SUCCESS STATUS_INSUFFICIENT_RESOURCES"
  "\<not> NT_SUCCESS STATUS_DEVICE_NOT_READY"
  "\<not> NT_SUCCESS STATUS_INVALID_BUFFER_SIZE"
  "\<not> NT_SUCCESS STATUS_NOT_FOUND"
  by (simp_all add: NT_SUCCESS_def status_defs)

lemma status_not_success [simp, status_simps]:
  "STATUS_INVALID_PARAMETER \<noteq> STATUS_SUCCESS"
  "STATUS_INVALID_DEVICE_REQUEST \<noteq> STATUS_SUCCESS"
  "STATUS_ACCESS_DENIED \<noteq> STATUS_SUCCESS"
  "STATUS_BUFFER_TOO_SMALL \<noteq> STATUS_SUCCESS"
  "STATUS_INSUFFICIENT_RESOURCES \<noteq> STATUS_SUCCESS"
  "STATUS_DEVICE_NOT_READY \<noteq> STATUS_SUCCESS"
  "STATUS_INVALID_BUFFER_SIZE \<noteq> STATUS_SUCCESS"
  "STATUS_NOT_FOUND \<noteq> STATUS_SUCCESS"
  by (simp_all add: status_defs)

text \<open>
  What a C access outside its buffer yields in the model: not a value but this error. The program
  has no such outcome of its own, so a definition that can return it is reading or writing memory
  that the caller did not supply.
\<close>

datatype fault = OutOfBounds

section \<open>Enumerations\<close>

text \<open>
  A C enumeration is a datatype with the numbers of its constants. Fields and variables that hold
  such a number stay words; a switch over one is a case over \<open>enum_of\<close>, whose None is the
  default branch.
\<close>

definition enum_of :: "'a list \<Rightarrow> ('a \<Rightarrow> u32) \<Rightarrow> u32 \<Rightarrow> 'a option" where
  "enum_of vs code w = List.find (\<lambda>x. code x = w) vs"

locale c_enum =
  fixes vs :: "'a list" and code :: "'a \<Rightarrow> u32"
  assumes all_listed: "x \<in> set vs"
    and code_inj: "code x = code y \<Longrightarrow> x = y"
begin

lemma enum_of_iff: "enum_of vs code w = Some x \<longleftrightarrow> w = code x"
proof
  assume "enum_of vs code w = Some x"
  then show "w = code x"
    by (auto simp: enum_of_def find_Some_iff)
next
  assume w: "w = code x"
  have "enum_of vs code w \<noteq> None"
    using all_listed w by (auto simp: enum_of_def find_None_iff)
  then obtain y where y: "enum_of vs code w = Some y" by blast
  then have "code y = w" by (auto simp: enum_of_def find_Some_iff)
  with w have "y = x" by (auto intro: code_inj)
  with y show "enum_of vs code w = Some x" by simp
qed

lemma enum_of_code: "enum_of vs code (code x) = Some x"
  by (simp add: enum_of_iff)

lemma enum_of_None: "enum_of vs code w = None \<longleftrightarrow> (\<forall>x. w \<noteq> code x)"
  using enum_of_iff by (metis not_None_eq option.distinct(1))

end

section \<open>Memory primitives\<close>

text \<open>
  RtlCompareMemory returns the number of leading bytes, at most n, on which two blocks agree.
\<close>

definition RtlCompareMemory :: "bytes \<Rightarrow> bytes \<Rightarrow> nat \<Rightarrow> nat" where
  "RtlCompareMemory a b n = length (takeWhile (\<lambda>(x, y). x = y) (zip (take n a) (take n b)))"

lemma takeWhile_zip_length:
  assumes "length a = length b"
  shows "length (takeWhile (\<lambda>(x, y). x = y) (zip a b)) = length a \<longleftrightarrow> a = b"
  using assms by (induction a b rule: list_induct2) auto

lemma RtlCompareMemory_eq [simp]:
  assumes "length a = n" and "length b = n"
  shows "RtlCompareMemory a b n = n \<longleftrightarrow> a = b"
  using assms takeWhile_zip_length [of a b] by (simp add: RtlCompareMemory_def)

text \<open>
  Memory that a call writes from its start: the bytes the call wrote over the ones that were there,
  cut off at the end of the buffer.
\<close>

definition overlay :: "bytes \<Rightarrow> bytes \<Rightarrow> bytes" where
  "overlay new old = take (length old) (new @ drop (length new) old)"

lemma length_overlay [simp]: "length (overlay new old) = length old"
  by (simp add: overlay_def)

lemma overlay_Nil [simp]: "overlay [] old = old"
  by (simp add: overlay_def)
text \<open>A program store of given bytes at the start of a block: outside the block it is a fault.\<close>

definition write_mem :: "bytes \<Rightarrow> bytes \<Rightarrow> fault + bytes" where
  "write_mem new old =
     (if length new \<le> length old then Inr (new @ drop (length new) old) else Inl OutOfBounds)"

lemma write_mem_fits: "length new \<le> length old \<Longrightarrow> write_mem new old = Inr (new @ drop (length new) old)"
  by (simp add: write_mem_def)

text \<open>Sequencing of steps that may fault, and a read that may.\<close>

definition bind_fault :: "fault + 'a \<Rightarrow> ('a \<Rightarrow> fault + 'b) \<Rightarrow> fault + 'b" where
  "bind_fault m f = (case m of Inl e \<Rightarrow> Inl e | Inr x \<Rightarrow> f x)"

lemma bind_fault_simps [simp]:
  "bind_fault (Inl e) f = Inl e"
  "bind_fault (Inr x) f = f x"
  by (simp_all add: bind_fault_def)

lemma bind_fault_Inr:
  "bind_fault m f = Inr y \<longleftrightarrow> (\<exists>x. m = Inr x \<and> f x = Inr y)"
  by (cases m) simp_all

definition read_mem :: "('a \<times> bytes) option \<Rightarrow> fault + 'a" where
  "read_mem r = (case r of None \<Rightarrow> Inl OutOfBounds | Some (x, _) \<Rightarrow> Inr x)"

lemma read_mem_simps [simp]:
  "read_mem None = Inl OutOfBounds"
  "read_mem (Some (x, r)) = Inr x"
  by (simp_all add: read_mem_def)

lemma read_mem_Inr: "read_mem m = Inr x \<longleftrightarrow> (\<exists>r. m = Some (x, r))"
  by (auto simp: read_mem_def split: option.splits)

section \<open>Lists\<close>

lemma upt_2 [simp]: "[0 ..< 2] = [0, Suc 0]"
  by (simp add: numeral_2_eq_2)

lemma find_append_match: "filter P es = [] \<Longrightarrow> P x \<Longrightarrow> List.find P (es @ x # xs) = Some x"
  by (induction es) (auto split: if_splits)

lemma find_Some_splits:
  "List.find P xs = Some x \<Longrightarrow>
     \<exists>earlier later. xs = earlier @ x # later \<and> P x \<and> filter P earlier = []"
proof (induction xs)
  case (Cons y ys)
  show ?case
  proof (cases "P y")
    case True
    with Cons.prems show ?thesis by (intro exI [of _ "[]"] exI [of _ ys]) simp
  next
    case False
    with Cons obtain earlier later
      where "ys = earlier @ x # later" "P x" "filter P earlier = []" by auto
    with False show ?thesis by (intro exI [of _ "y # earlier"] exI [of _ later]) simp
  qed
qed simp

lemma find_Some_split:
  "List.find P xs = Some x \<longleftrightarrow>
     (\<exists>earlier later. xs = earlier @ x # later \<and> P x \<and> filter P earlier = [])"
  using find_Some_splits find_append_match by metis

end
