(* ===== verification/App_Table.thy ===== *)
theory App_Table
  imports Prelude
begin

text \<open>
  What the policy table and the route table share: entries keyed by a 16-byte application id, kept
  in insertion order in a linked list with a counter beside it. First the list operations behind
  the tables (the traversal that finds an id, the overwrite in place, the unlinking), then the
  contract of one table and of the loop that refills it from an array, with what follows from the
  contract alone.
\<close>

section \<open>List operations\<close>

definition same_app_id :: "bytes \<Rightarrow> bytes \<Rightarrow> bool" where
  "same_app_id a b \<longleftrightarrow> RtlCompareMemory a b 16 = 16"

lemma same_app_id_iff [simp]:
  "length a = 16 \<Longrightarrow> length b = 16 \<Longrightarrow> same_app_id a b \<longleftrightarrow> a = b"
  by (simp add: same_app_id_def)

fun replace_first :: "('a \<Rightarrow> bool) \<Rightarrow> 'a \<Rightarrow> 'a list \<Rightarrow> 'a list" where
  "replace_first p y [] = []"
| "replace_first p y (x # xs) = (if p x then y # xs else x # replace_first p y xs)"

fun remove_first :: "('a \<Rightarrow> bool) \<Rightarrow> 'a list \<Rightarrow> 'a list" where
  "remove_first p [] = []"
| "remove_first p (x # xs) = (if p x then xs else x # remove_first p xs)"

text \<open>The loop that unlinks the head of a list until the list is empty.\<close>

fun drain_list :: "'a list \<Rightarrow> 'a list" where
  "drain_list [] = []"
| "drain_list (x # xs) = drain_list xs"

lemma drain_list_empties [simp]: "drain_list xs = []"
  by (induction xs) simp_all

lemma length_replace_first [simp]: "length (replace_first p y xs) = length xs"
  by (induction xs) simp_all

lemma set_replace_first: "set (replace_first p y xs) \<subseteq> insert y (set xs)"
  by (induction xs) auto

lemma set_remove_first: "set (remove_first p xs) \<subseteq> set xs"
  by (induction xs) auto

lemma replace_first_subset: "set xs \<subseteq> A \<Longrightarrow> y \<in> A \<Longrightarrow> set (replace_first p y xs) \<subseteq> A"
  using set_replace_first by fastforce

lemma length_remove_first:
  "List.find p xs \<noteq> None \<Longrightarrow> Suc (length (remove_first p xs)) = length xs"
  by (induction xs) auto

lemma replace_first_absent: "List.find p xs = None \<Longrightarrow> replace_first p y xs = xs"
  by (induction xs) (auto split: if_splits)

text \<open>The list as a map from keys: the first entry with the key.\<close>

definition key_find :: "('e \<Rightarrow> bytes) \<Rightarrow> 'e list \<Rightarrow> bytes \<Rightarrow> 'e option" where
  "key_find key es k = List.find (\<lambda>e. same_app_id (key e) k) es"

definition ids_ok :: "('e \<Rightarrow> bytes) \<Rightarrow> 'e list \<Rightarrow> bool" where
  "ids_ok key es \<longleftrightarrow> (\<forall>e \<in> set es. length (key e) = 16) \<and> distinct (map key es)"

lemma ids_ok_Nil [simp]: "ids_ok key []"
  by (simp add: ids_ok_def)

lemma ids_ok_Cons:
  "ids_ok key (e # es) \<longleftrightarrow> length (key e) = 16 \<and> key e \<notin> key ` set es \<and> ids_ok key es"
  by (auto simp: ids_ok_def)

lemma key_find_Nil [simp]: "key_find key [] k = None"
  by (simp add: key_find_def)

lemma key_find_Cons:
  "key_find key (e # es) k = (if same_app_id (key e) k then Some e else key_find key es k)"
  by (simp add: key_find_def)

lemma key_find_None:
  assumes "ids_ok key es" and "length k = 16"
  shows "key_find key es k = None \<longleftrightarrow> k \<notin> key ` set es"
  using assms by (auto simp: key_find_def find_None_iff ids_ok_def)

lemma key_find_Some:
  assumes "ids_ok key es" and "length k = 16"
  shows "key_find key es k = Some e \<longleftrightarrow> e \<in> set es \<and> key e = k"
  using assms by (induction es) (auto simp: key_find_Cons ids_ok_Cons)

lemma key_find_replace:
  assumes "ids_ok key es" and "length (key e) = 16" and "length k = 16"
    and "key_find key es (key e) \<noteq> None"
  shows "key_find key (replace_first (\<lambda>x. same_app_id (key x) (key e)) e es) k =
    (if k = key e then Some e else key_find key es k)"
  using assms by (induction es) (auto simp: key_find_Cons ids_ok_Cons)

lemma key_find_append:
  assumes "ids_ok key es" and "length (key e) = 16" and "length k = 16"
    and "key_find key es (key e) = None"
  shows "key_find key (es @ [e]) k = (if k = key e then Some e else key_find key es k)"
  using assms by (induction es) (auto simp: key_find_Cons ids_ok_Cons split: if_splits)

lemma key_find_remove:
  assumes "ids_ok key es" and "length k = 16" and "length k' = 16"
  shows "key_find key (remove_first (\<lambda>x. same_app_id (key x) k') es) k =
    (if k = k' then None else key_find key es k)"
  using assms by (induction es) (auto simp: key_find_Cons ids_ok_Cons key_find_None)

lemma map_key_replace:
  assumes "ids_ok key es" and "length (key e) = 16"
  shows "map key (replace_first (\<lambda>x. same_app_id (key x) (key e)) e es) = map key es"
  using assms by (induction es) (auto simp: ids_ok_Cons)

lemma ids_ok_replace:
  assumes "ids_ok key es" and "length (key e) = 16"
  shows "ids_ok key (replace_first (\<lambda>x. same_app_id (key x) (key e)) e es)"
  using assms map_key_replace [OF assms]
    set_replace_first [of "\<lambda>x. same_app_id (key x) (key e)" e es]
  by (auto simp: ids_ok_def)

lemma ids_ok_append:
  assumes "ids_ok key es" and "length (key e) = 16" and "key_find key es (key e) = None"
  shows "ids_ok key (es @ [e])"
  using assms by (auto simp: ids_ok_def key_find_None)

lemma ids_ok_remove: "ids_ok key es \<Longrightarrow> ids_ok key (remove_first p es)"
  by (induction es) (use set_remove_first in \<open>fastforce simp: ids_ok_Cons\<close>)+

text \<open>The table invariant: distinct 16-byte ids, and a counter that counts the entries.\<close>

definition table_inv :: "('e \<Rightarrow> bytes) \<Rightarrow> nat \<Rightarrow> 'e list \<Rightarrow> u32 \<Rightarrow> bool" where
  "table_inv key cap es c \<longleftrightarrow> ids_ok key es \<and> unat c = length es \<and> length es \<le> cap"

lemma table_inv_empty [simp]: "table_inv key cap [] 0"
  by (simp add: table_inv_def)

lemma table_inv_replace:
  assumes "table_inv key cap es c" and "length (key e) = 16"
  shows "table_inv key cap (replace_first (\<lambda>x. same_app_id (key x) (key e)) e es) c"
  using assms by (simp add: table_inv_def ids_ok_replace)

lemma unat_Suc_small: "unat (c :: u32) < 4096 \<Longrightarrow> unat (c + 1) = Suc (unat c)"
  by (simp add: unat_word_ariths)

lemma table_inv_append:
  assumes "table_inv key 4096 es c" and "length (key e) = 16"
    and "key_find key es (key e) = None" and "c < 4096"
  shows "table_inv key 4096 (es @ [e]) (c + 1)"
  using assms unat_Suc_small [of c]
  by (simp add: table_inv_def ids_ok_append word_less_nat_alt)

lemma table_inv_remove:
  assumes "table_inv key cap es c" and "key_find key es k \<noteq> None"
  shows "table_inv key cap (remove_first (\<lambda>x. same_app_id (key x) k) es) (c - 1)"
proof -
  have len: "Suc (length (remove_first (\<lambda>x. same_app_id (key x) k) es)) = length es"
    using assms(2) by (simp add: length_remove_first key_find_def)
  then have "unat c \<noteq> 0" using assms(1) by (auto simp: table_inv_def)
  then have "unat (c - 1) = unat c - 1"
    by (simp add: unat_minus_one unat_eq_0)
  with assms(1) len show ?thesis
    by (auto simp: table_inv_def ids_ok_remove)
qed

lemma table_inv_card:
  "table_inv key cap es c \<Longrightarrow> unat c = card (key ` set es)"
  using distinct_card [of "map key es"] by (simp add: table_inv_def ids_ok_def)

section \<open>The contract of a table\<close>

locale app_table =
  fixes key :: "'e \<Rightarrow> bytes" and wf :: "'e \<Rightarrow> bool" and inv :: "'t \<Rightarrow> bool"
    and lookup :: "bytes \<Rightarrow> 't \<Rightarrow> 'e option" and empty :: 't
    and set_entry :: "bool \<Rightarrow> 'e option \<Rightarrow> 't \<Rightarrow> ntstatus \<times> 't"
    and remove :: "bytes \<Rightarrow> 't \<Rightarrow> ntstatus \<times> 't"
  assumes key_length: "wf e \<Longrightarrow> length (key e) = 16"
    and inv_empty: "inv empty"
    and lookup_empty: "lookup k empty = None"
    and set_inv: "inv t \<Longrightarrow> wf e \<Longrightarrow> inv (snd (set_entry a (Some e) t))"
    and set_success: "inv t \<Longrightarrow> wf e \<Longrightarrow> length k = 16 \<Longrightarrow> set_entry a (Some e) t = (s, t') \<Longrightarrow>
      NT_SUCCESS s \<Longrightarrow> lookup k t' = (if k = key e then Some e else lookup k t)"
    and set_failure: "set_entry a x t = (s, t') \<Longrightarrow> \<not> NT_SUCCESS s \<Longrightarrow> t' = t"
    and remove_inv: "inv t \<Longrightarrow> length k = 16 \<Longrightarrow> inv (snd (remove k t))"
    and remove_success: "inv t \<Longrightarrow> length k = 16 \<Longrightarrow> length k' = 16 \<Longrightarrow> remove k t = (s, t') \<Longrightarrow>
      NT_SUCCESS s \<Longrightarrow> lookup k' t' = (if k' = k then None else lookup k' t)"
    and remove_failure: "remove k t = (s, t') \<Longrightarrow> \<not> NT_SUCCESS s \<Longrightarrow> t' = t \<and> lookup k t = None"
begin

lemma lookup_after_set:
  "inv t \<Longrightarrow> wf e \<Longrightarrow> set_entry a (Some e) t = (s, t') \<Longrightarrow> NT_SUCCESS s \<Longrightarrow> lookup (key e) t' = Some e"
  using set_success [of t e "key e"] key_length by simp

lemma lookup_after_remove:
  assumes "inv t" and "length k = 16"
  shows "lookup k (snd (remove k t)) = None"
proof (cases "remove k t")
  case (Pair s t')
  then show ?thesis
    using remove_success [OF assms assms(2) Pair] remove_failure [OF Pair]
    by (cases "NT_SUCCESS s") auto
qed

end

section \<open>The contract of refilling a table\<close>

text \<open>
  An element of an array in memory: it lies in the memory the array may be read from, or that
  memory ends inside or before it. Then what counts is whether its first field, a 32-bit version,
  still lies inside, because the code looks at the version first.
\<close>

datatype 'e cell = Readable (the_cell: 'e) | Truncated "u32 option"

text \<open>
  \<open>loop alloc rd i n t\<close> sets n entries in order, the elements i, i + 1, ... of an array \<open>rd\<close>;
  \<open>alloc i\<close> says whether the pool allocation for element i succeeds.
\<close>

locale app_table_sync = app_table key wf inv lookup empty set_entry remove
  for key :: "'e \<Rightarrow> bytes" and wf and inv :: "'t \<Rightarrow> bool" and lookup and empty
    and set_entry and remove +
  fixes loop :: "(nat \<Rightarrow> bool) \<Rightarrow> (nat \<Rightarrow> 'e cell) \<Rightarrow> nat \<Rightarrow> nat \<Rightarrow> 't \<Rightarrow> fault + (ntstatus \<times> 't)"
  assumes loop_done: "loop alloc rd i 0 t = Inr (STATUS_SUCCESS, t)"
    and loop_truncated: "rd i = Truncated v \<Longrightarrow> loop alloc rd i (Suc n) t = Inr (s, t') \<Longrightarrow>
      t' = t \<and> \<not> NT_SUCCESS s"
    and loop_step: "rd i = Readable e \<Longrightarrow> set_entry (alloc i) (Some e) t = (s, t') \<Longrightarrow>
      loop alloc rd i (Suc n) t =
        (if NT_SUCCESS s then loop alloc rd (Suc i) n t' else Inr (s, t'))"
begin

definition elements_wf :: "(nat \<Rightarrow> 'e cell) \<Rightarrow> bool" where
  "elements_wf rd \<longleftrightarrow> (\<forall>i e. rd i = Readable e \<longrightarrow> wf e)"

lemma loop_cases:
  assumes "loop alloc rd i (Suc n) t = Inr (s, t')"
  obtains (truncated) v where "rd i = Truncated v" and "t' = t" and "\<not> NT_SUCCESS s"
  | (stop) e where "rd i = Readable e" and "set_entry (alloc i) (Some e) t = (s, t')"
      and "\<not> NT_SUCCESS s"
  | (go) e s1 t1 where "rd i = Readable e" and "set_entry (alloc i) (Some e) t = (s1, t1)"
      and "NT_SUCCESS s1" and "loop alloc rd (Suc i) n t1 = Inr (s, t')"
proof (cases "rd i")
  case (Truncated v)
  then show thesis using loop_truncated [OF Truncated assms] that(1) by blast
next
  case (Readable e)
  obtain s1 t1 where st: "set_entry (alloc i) (Some e) t = (s1, t1)" by fastforce
  show thesis
    using assms loop_step [of rd i e alloc, OF Readable st] Readable st that(2,3)
    by (cases "NT_SUCCESS s1") auto
qed

text \<open>What every set keeps, the loop keeps.\<close>

lemma loop_preserves:
  assumes "\<And>a e t. P t \<Longrightarrow> Q e \<Longrightarrow> P (snd (set_entry a (Some e) t))"
    and "\<And>i e. rd i = Readable e \<Longrightarrow> Q e"
  shows "P t \<Longrightarrow> loop alloc rd i n t = Inr (s, t') \<Longrightarrow> P t'"
proof (induction n arbitrary: i t)
  case 0
  then show ?case by (simp add: loop_done)
next
  case (Suc n)
  have keep: "P t1" if "rd i = Readable e" "set_entry (alloc i) (Some e) t = (s1, t1)" for e s1 t1
    using assms(1) [OF Suc.prems(1) assms(2) [OF that(1)], of "alloc i"] that(2) by simp
  from Suc.prems(2) show ?case
    by (cases rule: loop_cases) (use keep Suc in blast)+
qed

lemma loop_inv:
  "inv t \<Longrightarrow> elements_wf rd \<Longrightarrow> loop alloc rd i n t = Inr (s, t') \<Longrightarrow> inv t'"
  using loop_preserves [of inv wf rd t alloc i n s t'] set_inv by (auto simp: elements_wf_def)

lemma loop_success_status:
  "loop alloc rd i n t = Inr (s, t') \<Longrightarrow> NT_SUCCESS s \<Longrightarrow> s = STATUS_SUCCESS"
proof (induction n arbitrary: i t)
  case 0
  then show ?case by (simp add: loop_done)
next
  case (Suc n)
  from Suc.prems(1) show ?case
    by (cases rule: loop_cases) (use Suc in auto)
qed

text \<open>On success every element was set, so the last element with an id is what the id maps to.\<close>

lemma loop_lookup:
  assumes "inv t" and "elements_wf rd" and "loop alloc rd i n t = Inr (s, t')" and "NT_SUCCESS s"
    and "length k = 16"
  shows "lookup k t' =
    (case List.find (\<lambda>e. key e = k) (rev (map (the_cell \<circ> rd) [i ..< i + n])) of
       Some e \<Rightarrow> Some e | None \<Rightarrow> lookup k t)"
  using assms(1,3)
proof (induction n arbitrary: i t)
  case 0
  then show ?case by (simp add: loop_done)
next
  case (Suc n)
  have find_snoc: "List.find p (xs @ [x]) =
      (case List.find p xs of Some e \<Rightarrow> Some e | None \<Rightarrow> if p x then Some x else None)"
    for p x and xs :: "'e list" by (induction xs) auto
  from Suc.prems(2) show ?case
  proof (cases rule: loop_cases)
    case truncated
    with assms(4) show ?thesis by simp
  next
    case stop
    with assms(4) show ?thesis by simp
  next
    case (go e s1 t1)
    from go(1) assms(2) have wf: "wf e" by (simp add: elements_wf_def)
    have "inv t1" using set_inv [OF Suc.prems(1) wf, of "alloc i"] go(2) by simp
    note IH = Suc.IH [OF this go(4)]
    have "lookup k t1 = (if k = key e then Some e else lookup k t)"
      by (rule set_success [OF Suc.prems(1) wf assms(5) go(2,3)])
    moreover have "[i ..< i + Suc n] = i # [Suc i ..< Suc i + n]"
      by (simp add: upt_conv_Cons)
    ultimately show ?thesis using IH go(1)
      by (auto simp: find_snoc split: option.splits)
  qed
qed

text \<open>After the elements that were set, the loop goes on from the table they gave.\<close>

lemma loop_append:
  "loop alloc rd i m t = Inr (s, t1) \<Longrightarrow> NT_SUCCESS s \<Longrightarrow>
     loop alloc rd i (m + n) t = loop alloc rd (i + m) n t1"
proof (induction m arbitrary: i t)
  case 0
  then show ?case by (simp add: loop_done)
next
  case (Suc m)
  from Suc.prems(1) show ?case
  proof (cases rule: loop_cases)
    case (go e1 s1 t2)
    have "loop alloc rd (Suc i) (m + n) t2 = loop alloc rd (Suc i + m) n t1"
      by (rule Suc.IH [OF go(4) Suc.prems(2)])
    then show ?thesis using loop_step [of rd i e1 alloc t, OF go(1,2)] go(3) by simp
  qed (use Suc.prems(2) in simp_all)
qed

text \<open>A failure leaves the table as it was after the elements before the failing one.\<close>

lemma loop_failure:
  assumes "loop alloc rd i n t = Inr (s, t')" and "\<not> NT_SUCCESS s"
  shows "\<exists>m < n. loop alloc rd i m t = Inr (STATUS_SUCCESS, t') \<and>
    (case rd (i + m) of
       Readable e \<Rightarrow> set_entry (alloc (i + m)) (Some e) t' = (s, t') | Truncated v \<Rightarrow> True)"
  using assms(1)
proof (induction n arbitrary: i t)
  case 0
  with assms(2) show ?case by (auto simp: loop_done)
next
  case (Suc n)
  from Suc.prems show ?case
  proof (cases rule: loop_cases)
    case (truncated v)
    then show ?thesis by (intro exI [of _ 0]) (auto simp: loop_done)
  next
    case (stop e)
    then have "t' = t" using set_failure by blast
    with stop show ?thesis by (intro exI [of _ 0]) (auto simp: loop_done)
  next
    case (go e s1 t1)
    obtain m where "m < n" and "loop alloc rd (Suc i) m t1 = Inr (STATUS_SUCCESS, t')"
      and "case rd (Suc i + m) of
        Readable e \<Rightarrow> set_entry (alloc (Suc i + m)) (Some e) t' = (s, t') | Truncated v \<Rightarrow> True"
      using Suc.IH [OF go(4)] by blast
    with go show ?thesis
      by (intro exI [of _ "Suc m"]) (auto simp: loop_step split: cell.splits)
  qed
qed

lemma loop_fault: "loop alloc rd i n t = Inl f \<Longrightarrow> \<exists>m < n. \<exists>v. rd (i + m) = Truncated v"
proof (induction n arbitrary: i t)
  case 0
  then show ?case by (simp add: loop_done)
next
  case (Suc n)
  show ?case
  proof (cases "rd i")
    case (Truncated v)
    then show ?thesis by (intro exI [of _ 0]) simp
  next
    case (Readable e)
    obtain s1 t1 where st: "set_entry (alloc i) (Some e) t = (s1, t1)" by fastforce
    have "loop alloc rd (Suc i) n t1 = Inl f"
      using Suc.prems loop_step [of rd i e alloc, OF Readable st] by (auto split: if_splits)
    then obtain m where "m < n" and "\<exists>v. rd (Suc i + m) = Truncated v" using Suc.IH by blast
    then show ?thesis by (intro exI [of _ "Suc m"]) simp
  qed
qed

lemma loop_no_fault: "\<forall>m < n. \<exists>e. rd (i + m) = Readable e \<Longrightarrow> \<exists>r. loop alloc rd i n t = Inr r"
  using loop_fault [of alloc rd i n t] by (cases "loop alloc rd i n t") force+

end

end
