(* ===== verification/Byte_Codec.thy ===== *)
theory Byte_Codec
  imports Prelude
begin

text \<open>
  Byte-level layout. The shared structures are packed (pragma pack 1), so a structure in a buffer
  is the concatenation of its fields, each integer in little-endian order. A reader takes a byte
  string and returns a value with the rest of the string, or None when the string is too short.
  The locale codec states what an encoder and a reader of a fixed-size structure promise together;
  each structure of the shared headers is an interpretation of it.
\<close>

section \<open>Little-endian integers\<close>

fun le_bytes :: "nat \<Rightarrow> 'a::len word \<Rightarrow> bytes" where
  "le_bytes 0 w = []"
| "le_bytes (Suc n) w = ucast w # le_bytes n (drop_bit 8 w)"

fun le_word :: "bytes \<Rightarrow> 'a::len word" where
  "le_word [] = 0"
| "le_word (b # bs) = ucast b OR push_bit 8 (le_word bs)"

lemma length_le_bytes [simp, layout_len]: "length (le_bytes n w) = n"
  by (induction n arbitrary: w) simp_all

lemma le_word_bytes: "le_word (le_bytes n w) = take_bit (8 * n) w"
proof (induction n arbitrary: w)
  case 0
  show ?case by simp
next
  case (Suc n)
  show ?case
    by (rule bit_word_eqI)
      (auto simp: Suc bit_simps bit_ucast_iff not_le less_diff_conv2)
qed

lemma le_word_le_bytes [simp]:
  fixes w :: "'a::len word"
  assumes "LENGTH('a) \<le> 8 * n"
  shows "le_word (le_bytes n w) = w"
  using assms by (simp add: le_word_bytes take_bit_word_eq_self)

lemma le_bytes_le_word [simp]:
  assumes "8 * length bs \<le> LENGTH('a::len)"
  shows "le_bytes (length bs) (le_word bs :: 'a word) = bs"
  using assms
proof (induction bs)
  case Nil
  show ?case by simp
next
  case (Cons b bs)
  let ?w = "ucast b OR push_bit 8 (le_word bs) :: 'a word"
  have len: "8 + 8 * length bs \<le> LENGTH('a)" using Cons.prems by simp
  have low: "ucast ?w = b"
    by (rule bit_word_eqI) (use len in \<open>auto simp: bit_simps bit_ucast_iff\<close>)
  have bound: "bit (le_word bs :: 'a word) n \<Longrightarrow> n < 8 * length bs" for n
  proof -
    assume n: "bit (le_word bs :: 'a word) n"
    have "le_word bs = (le_word (le_bytes (length bs) (le_word bs :: 'a word)) :: 'a word)"
      using Cons.IH len by simp
    also have "\<dots> = take_bit (8 * length bs) (le_word bs)" by (rule le_word_bytes)
    finally show "n < 8 * length bs" using n by (metis bit_take_bit_iff)
  qed
  have high: "drop_bit 8 ?w = le_word bs"
  proof (rule bit_word_eqI)
    fix n
    have "bit (le_word bs :: 'a word) n \<Longrightarrow> 8 + n < LENGTH('a)"
      using bound [of n] len by simp
    moreover have "\<not> bit b (8 + n)" by (auto dest: bit_imp_le_length)
    ultimately show "bit (drop_bit 8 ?w) n = bit (le_word bs :: 'a word) n"
      by (auto simp: bit_simps bit_ucast_iff)
  qed
  show ?case using Cons low high by simp
qed

section \<open>Readers\<close>

definition rd_bytes :: "nat \<Rightarrow> bytes \<Rightarrow> (bytes \<times> bytes) option" where
  "rd_bytes n bs = (if length bs < n then None else Some (take n bs, drop n bs))"

definition rd_word :: "nat \<Rightarrow> bytes \<Rightarrow> ('a::len word \<times> bytes) option" where
  "rd_word n bs = (if length bs < n then None else Some (le_word (take n bs), drop n bs))"

fun rd_u8 :: "bytes \<Rightarrow> (byte \<times> bytes) option" where
  "rd_u8 [] = None"
| "rd_u8 (b # bs) = Some (b, bs)"

abbreviation rd_u16 :: "bytes \<Rightarrow> (u16 \<times> bytes) option" where "rd_u16 \<equiv> rd_word 2"
abbreviation rd_u32 :: "bytes \<Rightarrow> (u32 \<times> bytes) option" where "rd_u32 \<equiv> rd_word 4"
abbreviation rd_u64 :: "bytes \<Rightarrow> (u64 \<times> bytes) option" where "rd_u64 \<equiv> rd_word 8"

fun rd_list :: "(bytes \<Rightarrow> ('a \<times> bytes) option) \<Rightarrow> nat \<Rightarrow> bytes \<Rightarrow> ('a list \<times> bytes) option" where
  "rd_list rd 0 bs = Some ([], bs)"
| "rd_list rd (Suc n) bs =
     do { (x, r) \<leftarrow> rd bs; (xs, r') \<leftarrow> rd_list rd n r; Some (x # xs, r') }"

lemma rd_bytes_iff [reader_iff]: "rd_bytes n bs = Some (x, r) \<longleftrightarrow> length x = n \<and> bs = x @ r"
  by (auto simp: rd_bytes_def)

lemma rd_bytes_none [reader_none]: "rd_bytes n bs = None \<longleftrightarrow> length bs < n"
  by (simp add: rd_bytes_def)

lemma rd_word_iff:
  assumes "LENGTH('a::len) = 8 * n"
  shows "rd_word n bs = Some (w :: 'a word, r) \<longleftrightarrow> bs = le_bytes n w @ r"
proof
  assume "rd_word n bs = Some (w, r)"
  then have n: "n \<le> length bs" and w: "w = le_word (take n bs)" and r: "r = drop n bs"
    by (auto simp: rd_word_def split: if_splits)
  have "le_bytes (length (take n bs)) w = take n bs"
    unfolding w by (rule le_bytes_le_word) (use assms n in simp)
  with n r show "bs = le_bytes n w @ r" by simp
next
  assume "bs = le_bytes n w @ r"
  then show "rd_word n bs = Some (w, r)"
    using assms by (simp add: rd_word_def)
qed

lemma rd_word_none [reader_none]: "rd_word n bs = None \<longleftrightarrow> length bs < n"
  by (simp add: rd_word_def)

lemma rd_u_iff [reader_iff]:
  "rd_u8 bs = Some (a, r) \<longleftrightarrow> bs = a # r"
  "rd_u16 bs = Some (b, r) \<longleftrightarrow> bs = le_bytes 2 b @ r"
  "rd_u32 bs = Some (c, r) \<longleftrightarrow> bs = le_bytes 4 c @ r"
  "rd_u64 bs = Some (d, r) \<longleftrightarrow> bs = le_bytes 8 d @ r"
  by (cases bs; auto) (simp_all add: rd_word_iff)

lemma rd_u8_none [reader_none]: "rd_u8 bs = None \<longleftrightarrow> length bs < 1"
  by (cases bs) simp_all

section \<open>The contract of a fixed-size structure\<close>

locale codec =
  fixes enc :: "'a \<Rightarrow> bytes" and rd :: "bytes \<Rightarrow> ('a \<times> bytes) option"
    and wf :: "'a \<Rightarrow> bool" and sz :: nat
  assumes rd_iff: "rd bs = Some (x, r) \<longleftrightarrow> wf x \<and> bs = enc x @ r"
    and enc_length: "wf x \<Longrightarrow> length (enc x) = sz"
    and rd_none: "rd bs = None \<longleftrightarrow> length bs < sz"
begin

lemma rd_enc: "wf x \<Longrightarrow> rd (enc x @ r) = Some (x, r)"
  by (simp add: rd_iff)

lemma rd_enc_all: "wf x \<Longrightarrow> rd (enc x) = Some (x, [])"
  using rd_enc [of x "[]"] by simp

lemma rd_total:
  assumes "sz \<le> length bs"
  obtains x where "rd bs = Some (x, drop sz bs)" and "wf x" and "enc x = take sz bs"
proof -
  from assms have "rd bs \<noteq> None" using rd_none [of bs] by simp
  then obtain x r where xr: "rd bs = Some (x, r)" by auto
  then have "wf x" and bs: "bs = enc x @ r" by (simp_all add: rd_iff)
  then have "length (enc x) = sz" by (simp add: enc_length)
  with bs have "enc x = take sz bs" and "r = drop sz bs" by simp_all
  with that xr \<open>wf x\<close> show ?thesis by simp
qed

lemma rd_inj: "wf x \<Longrightarrow> wf y \<Longrightarrow> enc x = enc y \<Longrightarrow> x = y"
  by (metis rd_enc_all option.inject prod.inject)

lemma rd_list_iff:
  "rd_list rd n bs = Some (xs, r) \<longleftrightarrow>
     length xs = n \<and> list_all wf xs \<and> bs = concat (map enc xs) @ r"
proof (induction n arbitrary: bs xs)
  case 0
  then show ?case by auto
next
  case (Suc n)
  then show ?case
    by (cases xs) (auto simp: bind_eq_Some_conv rd_iff)
qed

lemma length_concat_enc: "list_all wf xs \<Longrightarrow> length (concat (map enc xs)) = sz * length xs"
  by (induction xs) (simp_all add: enc_length)

lemma rd_list_none: "rd_list rd n bs = None \<longleftrightarrow> length bs < sz * n"
proof (induction n arbitrary: bs)
  case 0
  show ?case by simp
next
  case (Suc n)
  show ?case
  proof (cases "length bs < sz")
    case True
    then show ?thesis using rd_none [of bs] by (simp add: trans_less_add1)
  next
    case False
    then obtain x where "rd bs = Some (x, drop sz bs)" using rd_total [of bs] by force
    with False show ?thesis using Suc [of "drop sz bs"]
      by (auto simp: bind_eq_None_conv split: option.splits)
  qed
qed

text \<open>The i-th element of an array that starts at the front of a byte string.\<close>

lemma rd_element:
  assumes "list_all wf xs" and "i < length xs"
  shows "rd (drop (sz * i) (concat (map enc xs) @ r)) =
    Some (xs ! i, concat (map enc (drop (Suc i) xs)) @ r)"
proof -
  have split: "xs = take i xs @ xs ! i # drop (Suc i) xs"
    using assms(2) by (simp add: id_take_nth_drop)
  have wfs: "list_all wf (take i xs)" "wf (xs ! i)"
    using assms by (auto simp: list_all_length)
  have "concat (map enc xs) =
      concat (map enc (take i xs)) @ enc (xs ! i) @ concat (map enc (drop (Suc i) xs))"
    by (subst (1) split) simp
  moreover have "length (concat (map enc (take i xs))) = sz * i"
    using length_concat_enc [OF wfs(1)] assms(2) by simp
  ultimately show ?thesis using wfs(2) by (simp add: rd_enc)
qed

end

interpretation u16_codec: codec "le_bytes 2 :: u16 \<Rightarrow> bytes" rd_u16 "\<lambda>_. True" 2
  by unfold_locales (auto simp: reader_iff reader_none)

interpretation u32_codec: codec "le_bytes 4 :: u32 \<Rightarrow> bytes" rd_u32 "\<lambda>_. True" 4
  by unfold_locales (auto simp: reader_iff reader_none)

lemma rd_u16s_iff [reader_iff]:
  "rd_list rd_u16 n bs = Some (xs, r) \<longleftrightarrow>
     length xs = n \<and> bs = concat (map (le_bytes 2) xs) @ r"
  by (simp add: u16_codec.rd_list_iff list_all_iff)

lemma rd_u32s_iff [reader_iff]:
  "rd_list rd_u32 n bs = Some (xs, r) \<longleftrightarrow>
     length xs = n \<and> bs = concat (map (le_bytes 4) xs) @ r"
  by (simp add: u32_codec.rd_list_iff list_all_iff)

lemma length_concat_le_bytes [simp, layout_len]:
  "length (concat (map (le_bytes k) xs)) = k * length xs"
  by (induction xs) simp_all

text \<open>
  A reader built from a sequence of field readers fails exactly when the string is shorter than
  the fields together. The rule peels one field off; \<open>w\<close> is the width of that field.
\<close>

lemma bind_reader_none:
  assumes "\<And>bs. rd bs = None \<longleftrightarrow> length bs < w"
    and "\<And>bs x r. rd bs = Some (x, r) \<Longrightarrow> length bs = w + length r"
    and "\<And>x r. k (x, r) = None \<longleftrightarrow> length r < n"
  shows "rd bs \<bind> k = None \<longleftrightarrow> length bs < w + n"
  using assms(1) [of bs] assms(2) [of bs] assms(3) by (cases "rd bs") auto

lemma reader_width:
  "rd_u8 bs = Some (a, r) \<Longrightarrow> length bs = 1 + length r"
  "rd_u16 bs = Some (b, r) \<Longrightarrow> length bs = 2 + length r"
  "rd_u32 bs = Some (c, r) \<Longrightarrow> length bs = 4 + length r"
  "rd_u64 bs = Some (d, r) \<Longrightarrow> length bs = 8 + length r"
  "rd_bytes n bs = Some (x, r) \<Longrightarrow> length bs = n + length r"
  "rd_list rd_u16 n bs = Some (xs, r) \<Longrightarrow> length bs = 2 * n + length r"
  "rd_list rd_u32 n bs = Some (ys, r) \<Longrightarrow> length bs = 4 * n + length r"
  by (auto simp: reader_iff)

lemma rd_list_words_none [reader_none]:
  "rd_list rd_u16 n bs = None \<longleftrightarrow> length bs < 2 * n"
  "rd_list rd_u32 n bs = None \<longleftrightarrow> length bs < 4 * n"
  by (rule u16_codec.rd_list_none, rule u32_codec.rd_list_none)

lemma last_field_none [reader_none]:
  "rd_u32 bs \<bind> (\<lambda>(x, r). Some (f x r)) = None \<longleftrightarrow> length bs < 4"
  "rd_u64 bs \<bind> (\<lambda>(y, r). Some (g y r)) = None \<longleftrightarrow> length bs < 8"
  "rd_bytes n bs \<bind> (\<lambda>(z, r). Some (h z r)) = None \<longleftrightarrow> length bs < n"
  "rd_list rd_u32 n bs \<bind> (\<lambda>(zs, r). Some (k zs r)) = None \<longleftrightarrow> length bs < 4 * n"
  by (auto simp: bind_eq_None_conv reader_none split: prod.splits)

lemmas field_none =
  bind_reader_none [OF rd_u8_none reader_width(1)]
  bind_reader_none [OF rd_word_none reader_width(2)]
  bind_reader_none [OF rd_word_none reader_width(3)]
  bind_reader_none [OF rd_word_none reader_width(4)]
  bind_reader_none [OF rd_bytes_none reader_width(5)]
  bind_reader_none [OF rd_list_words_none(1) reader_width(6)]
  bind_reader_none [OF rd_list_words_none(2) reader_width(7)]

lemmas struct_none = field_none [where k = "case_prod f" for f, simplified case_prod_conv]

end
