(* ===== verification/Structures.thy ===== *)
theory Structures
  imports Byte_Codec
begin

text \<open>
  The structures and enumerations of shared/structures and shared/protocol: each packed C struct is
  a record with the fields of the source in their order, an encoder to its bytes, a reader, the
  lengths its arrays have, and its sizeof; each is an interpretation of the contract codec. Each
  enumeration is a datatype with the numbers of its constants, an interpretation of c_enum.
\<close>

section \<open>Application policies (app\_policy.h)\<close>

definition GUARDIAN_APP_POLICY_VERSION :: u32 where "GUARDIAN_APP_POLICY_VERSION = 1"
definition GUARDIAN_MAX_EXE_PATH_CHARS :: nat where "GUARDIAN_MAX_EXE_PATH_CHARS = 520"
definition GUARDIAN_MAX_PACKAGE_FAMILY_CHARS :: nat where "GUARDIAN_MAX_PACKAGE_FAMILY_CHARS = 128"
definition GUARDIAN_SHA256_BYTES :: nat where "GUARDIAN_SHA256_BYTES = 32"
definition GUARDIAN_MAX_SID_BYTES :: nat where "GUARDIAN_MAX_SID_BYTES = 68"
definition GUARDIAN_MAX_SYNC_POLICIES :: u32 where "GUARDIAN_MAX_SYNC_POLICIES = 256"

datatype GUARDIAN_POLICY_ACTION =
  GuardianPolicyAllow | GuardianPolicyBlock | GuardianPolicyRoute | GuardianPolicyObserve

fun policy_action_code :: "GUARDIAN_POLICY_ACTION \<Rightarrow> u32" where
  "policy_action_code GuardianPolicyAllow = 0"
| "policy_action_code GuardianPolicyBlock = 1"
| "policy_action_code GuardianPolicyRoute = 2"
| "policy_action_code GuardianPolicyObserve = 3"

definition policy_actions :: "GUARDIAN_POLICY_ACTION list" where
  "policy_actions =
     [GuardianPolicyAllow, GuardianPolicyBlock, GuardianPolicyRoute, GuardianPolicyObserve]"

interpretation policy_action: c_enum policy_actions policy_action_code
proof
  show "x \<in> set policy_actions" for x by (cases x) (simp_all add: policy_actions_def)
  show "policy_action_code x = policy_action_code y \<Longrightarrow> x = y" for x y
    by (cases x; cases y) simp_all
qed

datatype GUARDIAN_POLICY_MATCH_KIND =
  GuardianMatchNone | GuardianMatchProcessPath | GuardianMatchExeHash | GuardianMatchSid
| GuardianMatchPackageFamily

fun match_kind_code :: "GUARDIAN_POLICY_MATCH_KIND \<Rightarrow> u32" where
  "match_kind_code GuardianMatchNone = 0"
| "match_kind_code GuardianMatchProcessPath = 1"
| "match_kind_code GuardianMatchExeHash = 2"
| "match_kind_code GuardianMatchSid = 3"
| "match_kind_code GuardianMatchPackageFamily = 4"

definition match_kinds :: "GUARDIAN_POLICY_MATCH_KIND list" where
  "match_kinds = [GuardianMatchNone, GuardianMatchProcessPath, GuardianMatchExeHash,
     GuardianMatchSid, GuardianMatchPackageFamily]"

interpretation match_kind: c_enum match_kinds match_kind_code
proof
  show "x \<in> set match_kinds" for x by (cases x) (simp_all add: match_kinds_def)
  show "match_kind_code x = match_kind_code y \<Longrightarrow> x = y" for x y
    by (cases x; cases y) simp_all
qed

record GUARDIAN_APP_POLICY_V1 =
  ap_Version :: u32
  ap_AppId :: bytes
  ap_Action :: u32
  ap_MatchKind :: u32
  ap_ExePathLengthChars :: u32
  ap_ExePath :: "u16 list"
  ap_ExeHashSha256 :: bytes
  ap_SidLengthBytes :: u32
  ap_SidBytes :: bytes
  ap_PackageFamilyName :: "u16 list"
  ap_ProfileId :: u64
  ap_InterfaceLuid :: u64

definition wf_app_policy :: "GUARDIAN_APP_POLICY_V1 \<Rightarrow> bool" where
  "wf_app_policy p \<longleftrightarrow>
     length (ap_AppId p) = 16 \<and>
     length (ap_ExePath p) = GUARDIAN_MAX_EXE_PATH_CHARS \<and>
     length (ap_ExeHashSha256 p) = GUARDIAN_SHA256_BYTES \<and>
     length (ap_SidBytes p) = GUARDIAN_MAX_SID_BYTES \<and>
     length (ap_PackageFamilyName p) = GUARDIAN_MAX_PACKAGE_FAMILY_CHARS"

definition enc_app_policy :: "GUARDIAN_APP_POLICY_V1 \<Rightarrow> bytes" where
  "enc_app_policy p =
     le_bytes 4 (ap_Version p) @ ap_AppId p @ le_bytes 4 (ap_Action p) @
     le_bytes 4 (ap_MatchKind p) @ le_bytes 4 (ap_ExePathLengthChars p) @
     concat (map (le_bytes 2) (ap_ExePath p)) @ ap_ExeHashSha256 p @
     le_bytes 4 (ap_SidLengthBytes p) @ ap_SidBytes p @
     concat (map (le_bytes 2) (ap_PackageFamilyName p)) @
     le_bytes 8 (ap_ProfileId p) @ le_bytes 8 (ap_InterfaceLuid p)"

definition rd_app_policy :: "bytes \<Rightarrow> (GUARDIAN_APP_POLICY_V1 \<times> bytes) option" where
  "rd_app_policy b = do {
     (version, b) \<leftarrow> rd_u32 b;
     (appId, b) \<leftarrow> rd_bytes 16 b;
     (action, b) \<leftarrow> rd_u32 b;
     (matchKind, b) \<leftarrow> rd_u32 b;
     (exePathLen, b) \<leftarrow> rd_u32 b;
     (exePath, b) \<leftarrow> rd_list rd_u16 GUARDIAN_MAX_EXE_PATH_CHARS b;
     (exeHash, b) \<leftarrow> rd_bytes GUARDIAN_SHA256_BYTES b;
     (sidLen, b) \<leftarrow> rd_u32 b;
     (sid, b) \<leftarrow> rd_bytes GUARDIAN_MAX_SID_BYTES b;
     (family, b) \<leftarrow> rd_list rd_u16 GUARDIAN_MAX_PACKAGE_FAMILY_CHARS b;
     (profile, b) \<leftarrow> rd_u64 b;
     (luid, b) \<leftarrow> rd_u64 b;
     Some (\<lparr>ap_Version = version, ap_AppId = appId, ap_Action = action, ap_MatchKind = matchKind,
            ap_ExePathLengthChars = exePathLen, ap_ExePath = exePath, ap_ExeHashSha256 = exeHash,
            ap_SidLengthBytes = sidLen, ap_SidBytes = sid, ap_PackageFamilyName = family,
            ap_ProfileId = profile, ap_InterfaceLuid = luid\<rparr>, b) }"

definition sizeof_GUARDIAN_APP_POLICY_V1 :: nat where
  "sizeof_GUARDIAN_APP_POLICY_V1 =
     4 + (16 + (4 + (4 + (4 + (2 * GUARDIAN_MAX_EXE_PATH_CHARS + (GUARDIAN_SHA256_BYTES +
     (4 + (GUARDIAN_MAX_SID_BYTES + (2 * GUARDIAN_MAX_PACKAGE_FAMILY_CHARS + (8 + 8))))))))))"

interpretation app_policy: codec enc_app_policy rd_app_policy wf_app_policy
  sizeof_GUARDIAN_APP_POLICY_V1
proof
  fix bs r and x :: GUARDIAN_APP_POLICY_V1
  show "rd_app_policy bs = Some (x, r) \<longleftrightarrow> wf_app_policy x \<and> bs = enc_app_policy x @ r"
    by (cases x) (auto simp: rd_app_policy_def wf_app_policy_def enc_app_policy_def
        bind_eq_Some_conv reader_iff)
  show "wf_app_policy x \<Longrightarrow> length (enc_app_policy x) = sizeof_GUARDIAN_APP_POLICY_V1"
    by (simp add: enc_app_policy_def wf_app_policy_def sizeof_GUARDIAN_APP_POLICY_V1_def)
  show "rd_app_policy bs = None \<longleftrightarrow> length bs < sizeof_GUARDIAN_APP_POLICY_V1"
    unfolding rd_app_policy_def sizeof_GUARDIAN_APP_POLICY_V1_def
    by (intro struct_none) (simp_all add: reader_none)
qed

section \<open>Route assignments (route\_assignment.h, route\_assignment\_v2.h)\<close>

definition GUARDIAN_ROUTE_ASSIGNMENT_VERSION :: u32 where "GUARDIAN_ROUTE_ASSIGNMENT_VERSION = 1"
definition GUARDIAN_ROUTE_ASSIGNMENT_V2_VERSION :: u32 where "GUARDIAN_ROUTE_ASSIGNMENT_V2_VERSION = 2"
definition GUARDIAN_MAX_SYNC_ROUTES :: u32 where "GUARDIAN_MAX_SYNC_ROUTES = 512"

datatype GUARDIAN_ROUTE_KIND =
  GuardianRouteDirect | GuardianRouteVpn | GuardianRouteTailnet | GuardianRouteTor |
  GuardianRouteAnonymous | GuardianRouteBlocked | GuardianRouteProxy | GuardianRouteChain

fun route_kind_code :: "GUARDIAN_ROUTE_KIND \<Rightarrow> u32" where
  "route_kind_code GuardianRouteDirect = 0"
| "route_kind_code GuardianRouteVpn = 1"
| "route_kind_code GuardianRouteTailnet = 2"
| "route_kind_code GuardianRouteTor = 3"
| "route_kind_code GuardianRouteAnonymous = 4"
| "route_kind_code GuardianRouteBlocked = 5"
| "route_kind_code GuardianRouteProxy = 6"
| "route_kind_code GuardianRouteChain = 7"

definition route_kinds :: "GUARDIAN_ROUTE_KIND list" where
  "route_kinds = [GuardianRouteDirect, GuardianRouteVpn, GuardianRouteTailnet,
     GuardianRouteTor, GuardianRouteAnonymous, GuardianRouteBlocked, GuardianRouteProxy,
     GuardianRouteChain]"

interpretation route_kind: c_enum route_kinds route_kind_code
proof
  show "x \<in> set route_kinds" for x by (cases x) (simp_all add: route_kinds_def)
  show "route_kind_code x = route_kind_code y \<Longrightarrow> x = y" for x y
    by (cases x; cases y) simp_all
qed

record GUARDIAN_ROUTE_ASSIGNMENT_V1 =
  ra_Version :: u32
  ra_AppId :: bytes
  ra_RouteKind :: u32
  ra_ProfileId :: u64
  ra_InterfaceLuid :: u64
  ra_SocksPort :: u16
  ra_Reserved :: bytes

definition wf_route :: "GUARDIAN_ROUTE_ASSIGNMENT_V1 \<Rightarrow> bool" where
  "wf_route x \<longleftrightarrow> length (ra_AppId x) = 16 \<and> length (ra_Reserved x) = 6"

definition enc_route :: "GUARDIAN_ROUTE_ASSIGNMENT_V1 \<Rightarrow> bytes" where
  "enc_route x =
     le_bytes 4 (ra_Version x) @ ra_AppId x @ le_bytes 4 (ra_RouteKind x) @
     le_bytes 8 (ra_ProfileId x) @ le_bytes 8 (ra_InterfaceLuid x) @
     le_bytes 2 (ra_SocksPort x) @ ra_Reserved x"

definition rd_route :: "bytes \<Rightarrow> (GUARDIAN_ROUTE_ASSIGNMENT_V1 \<times> bytes) option" where
  "rd_route b = do {
     (version, b) \<leftarrow> rd_u32 b;
     (appId, b) \<leftarrow> rd_bytes 16 b;
     (routeKind, b) \<leftarrow> rd_u32 b;
     (profileId, b) \<leftarrow> rd_u64 b;
     (interfaceLuid, b) \<leftarrow> rd_u64 b;
     (socksPort, b) \<leftarrow> rd_u16 b;
     (reserved, b) \<leftarrow> rd_bytes 6 b;
     Some (\<lparr>ra_Version = version, ra_AppId = appId, ra_RouteKind = routeKind,
            ra_ProfileId = profileId, ra_InterfaceLuid = interfaceLuid,
            ra_SocksPort = socksPort, ra_Reserved = reserved\<rparr>, b) }"

definition sizeof_GUARDIAN_ROUTE_ASSIGNMENT_V1 :: nat where
  "sizeof_GUARDIAN_ROUTE_ASSIGNMENT_V1 =
     4 + (16 + (4 + (8 + (8 + (2 + (6))))))"

interpretation route_layout: codec enc_route rd_route wf_route sizeof_GUARDIAN_ROUTE_ASSIGNMENT_V1
proof
  fix bs r and x :: GUARDIAN_ROUTE_ASSIGNMENT_V1
  show "rd_route bs = Some (x, r) \<longleftrightarrow> wf_route x \<and> bs = enc_route x @ r"
    by (cases x) (auto simp: rd_route_def wf_route_def enc_route_def bind_eq_Some_conv reader_iff)
  show "wf_route x \<Longrightarrow> length (enc_route x) = sizeof_GUARDIAN_ROUTE_ASSIGNMENT_V1"
    by (simp add: enc_route_def wf_route_def sizeof_GUARDIAN_ROUTE_ASSIGNMENT_V1_def)
  show "rd_route bs = None \<longleftrightarrow> length bs < sizeof_GUARDIAN_ROUTE_ASSIGNMENT_V1"
    unfolding rd_route_def sizeof_GUARDIAN_ROUTE_ASSIGNMENT_V1_def
    by (intro struct_none) (simp_all add: reader_none)
qed

record GUARDIAN_ROUTE_ASSIGNMENT_V2 =
  ra2_Version :: u32
  ra2_AppId :: bytes
  ra2_RouteKind :: u32
  ra2_ProfileId :: u64
  ra2_InterfaceLuid :: u64
  ra2_SocksPort :: u16
  ra2_Reserved :: bytes
  ra2_MixnetProfileId :: u64
  ra2_TransformProfile :: u32
  ra2_Reserved2 :: bytes

definition wf_route_v2 :: "GUARDIAN_ROUTE_ASSIGNMENT_V2 \<Rightarrow> bool" where
  "wf_route_v2 x \<longleftrightarrow> length (ra2_AppId x) = 16 \<and> length (ra2_Reserved x) = 6 \<and> length (ra2_Reserved2 x) = 4"

definition enc_route_v2 :: "GUARDIAN_ROUTE_ASSIGNMENT_V2 \<Rightarrow> bytes" where
  "enc_route_v2 x =
     le_bytes 4 (ra2_Version x) @ ra2_AppId x @ le_bytes 4 (ra2_RouteKind x) @
     le_bytes 8 (ra2_ProfileId x) @ le_bytes 8 (ra2_InterfaceLuid x) @
     le_bytes 2 (ra2_SocksPort x) @ ra2_Reserved x @ le_bytes 8 (ra2_MixnetProfileId x) @
     le_bytes 4 (ra2_TransformProfile x) @ ra2_Reserved2 x"

definition rd_route_v2 :: "bytes \<Rightarrow> (GUARDIAN_ROUTE_ASSIGNMENT_V2 \<times> bytes) option" where
  "rd_route_v2 b = do {
     (version, b) \<leftarrow> rd_u32 b;
     (appId, b) \<leftarrow> rd_bytes 16 b;
     (routeKind, b) \<leftarrow> rd_u32 b;
     (profileId, b) \<leftarrow> rd_u64 b;
     (interfaceLuid, b) \<leftarrow> rd_u64 b;
     (socksPort, b) \<leftarrow> rd_u16 b;
     (reserved, b) \<leftarrow> rd_bytes 6 b;
     (mixnetProfileId, b) \<leftarrow> rd_u64 b;
     (transformProfile, b) \<leftarrow> rd_u32 b;
     (reserved2, b) \<leftarrow> rd_bytes 4 b;
     Some (\<lparr>ra2_Version = version, ra2_AppId = appId, ra2_RouteKind = routeKind,
            ra2_ProfileId = profileId, ra2_InterfaceLuid = interfaceLuid,
            ra2_SocksPort = socksPort, ra2_Reserved = reserved,
            ra2_MixnetProfileId = mixnetProfileId, ra2_TransformProfile = transformProfile,
            ra2_Reserved2 = reserved2\<rparr>, b) }"

definition sizeof_GUARDIAN_ROUTE_ASSIGNMENT_V2 :: nat where
  "sizeof_GUARDIAN_ROUTE_ASSIGNMENT_V2 =
     4 + (16 + (4 + (8 + (8 + (2 + (6 + (8 + (4 + (4)))))))))"

interpretation route_v2_layout: codec enc_route_v2 rd_route_v2 wf_route_v2 sizeof_GUARDIAN_ROUTE_ASSIGNMENT_V2
proof
  fix bs r and x :: GUARDIAN_ROUTE_ASSIGNMENT_V2
  show "rd_route_v2 bs = Some (x, r) \<longleftrightarrow> wf_route_v2 x \<and> bs = enc_route_v2 x @ r"
    by (cases x) (auto simp: rd_route_v2_def wf_route_v2_def enc_route_v2_def bind_eq_Some_conv reader_iff)
  show "wf_route_v2 x \<Longrightarrow> length (enc_route_v2 x) = sizeof_GUARDIAN_ROUTE_ASSIGNMENT_V2"
    by (simp add: enc_route_v2_def wf_route_v2_def sizeof_GUARDIAN_ROUTE_ASSIGNMENT_V2_def)
  show "rd_route_v2 bs = None \<longleftrightarrow> length bs < sizeof_GUARDIAN_ROUTE_ASSIGNMENT_V2"
    unfolding rd_route_v2_def sizeof_GUARDIAN_ROUTE_ASSIGNMENT_V2_def
    by (intro struct_none) (simp_all add: reader_none)
qed

section \<open>Kill switch (killswitch.h)\<close>

definition GUARDIAN_KILL_SWITCH_VERSION :: u32 where "GUARDIAN_KILL_SWITCH_VERSION = 1"

datatype GUARDIAN_KILL_SWITCH_MODE =
  GuardianKsOff | GuardianKsBlockAll | GuardianKsAllowVpnOnly | GuardianKsRestore

fun ks_mode_code :: "GUARDIAN_KILL_SWITCH_MODE \<Rightarrow> u32" where
  "ks_mode_code GuardianKsOff = 0"
| "ks_mode_code GuardianKsBlockAll = 1"
| "ks_mode_code GuardianKsAllowVpnOnly = 2"
| "ks_mode_code GuardianKsRestore = 3"

definition ks_modes :: "GUARDIAN_KILL_SWITCH_MODE list" where
  "ks_modes = [GuardianKsOff, GuardianKsBlockAll, GuardianKsAllowVpnOnly, GuardianKsRestore]"

interpretation ks_mode: c_enum ks_modes ks_mode_code
proof
  show "x \<in> set ks_modes" for x by (cases x) (simp_all add: ks_modes_def)
  show "ks_mode_code x = ks_mode_code y \<Longrightarrow> x = y" for x y
    by (cases x; cases y) simp_all
qed

record GUARDIAN_KILL_SWITCH_V1 =
  kc_Version :: u32
  kc_Mode :: u32
  kc_VpnInterfaceLuid :: u64

definition wf_kill_switch :: "GUARDIAN_KILL_SWITCH_V1 \<Rightarrow> bool" where
  "wf_kill_switch x \<longleftrightarrow> True"

definition enc_kill_switch :: "GUARDIAN_KILL_SWITCH_V1 \<Rightarrow> bytes" where
  "enc_kill_switch x =
     le_bytes 4 (kc_Version x) @ le_bytes 4 (kc_Mode x) @ le_bytes 8 (kc_VpnInterfaceLuid x)"

definition rd_kill_switch :: "bytes \<Rightarrow> (GUARDIAN_KILL_SWITCH_V1 \<times> bytes) option" where
  "rd_kill_switch b = do {
     (version, b) \<leftarrow> rd_u32 b;
     (mode, b) \<leftarrow> rd_u32 b;
     (vpnInterfaceLuid, b) \<leftarrow> rd_u64 b;
     Some (\<lparr>kc_Version = version, kc_Mode = mode, kc_VpnInterfaceLuid = vpnInterfaceLuid\<rparr>, b) }"

definition sizeof_GUARDIAN_KILL_SWITCH_V1 :: nat where
  "sizeof_GUARDIAN_KILL_SWITCH_V1 =
     4 + (4 + (8))"

interpretation kill_switch_layout: codec enc_kill_switch rd_kill_switch wf_kill_switch sizeof_GUARDIAN_KILL_SWITCH_V1
proof
  fix bs r and x :: GUARDIAN_KILL_SWITCH_V1
  show "rd_kill_switch bs = Some (x, r) \<longleftrightarrow> wf_kill_switch x \<and> bs = enc_kill_switch x @ r"
    by (cases x) (auto simp: rd_kill_switch_def wf_kill_switch_def enc_kill_switch_def bind_eq_Some_conv reader_iff)
  show "wf_kill_switch x \<Longrightarrow> length (enc_kill_switch x) = sizeof_GUARDIAN_KILL_SWITCH_V1"
    by (simp add: enc_kill_switch_def wf_kill_switch_def sizeof_GUARDIAN_KILL_SWITCH_V1_def)
  show "rd_kill_switch bs = None \<longleftrightarrow> length bs < sizeof_GUARDIAN_KILL_SWITCH_V1"
    unfolding rd_kill_switch_def sizeof_GUARDIAN_KILL_SWITCH_V1_def
    by (intro struct_none) (simp_all add: reader_none)
qed

section \<open>Telemetry and performance counters (telemetry.h)\<close>

definition GUARDIAN_TELEMETRY_VERSION :: u32 where "GUARDIAN_TELEMETRY_VERSION = 1"
definition GUARDIAN_PERF_STATS_VERSION :: u32 where "GUARDIAN_PERF_STATS_VERSION = 1"

record GUARDIAN_TELEMETRY_V1 =
  tv_Version :: u32
  tv_ClassifyCount :: u64
  tv_BlockCount :: u64
  tv_RouteCount :: u64
  tv_PermitCount :: u64
  tv_ObserveCount :: u64
  tv_ErrorCount :: u64
  tv_DnsObserveCount :: u64
  tv_AvgClassifyLatency100ns :: u64
  tv_MaxClassifyLatency100ns :: u64

definition wf_telemetry :: "GUARDIAN_TELEMETRY_V1 \<Rightarrow> bool" where
  "wf_telemetry x \<longleftrightarrow> True"

definition enc_telemetry :: "GUARDIAN_TELEMETRY_V1 \<Rightarrow> bytes" where
  "enc_telemetry x =
     le_bytes 4 (tv_Version x) @ le_bytes 8 (tv_ClassifyCount x) @
     le_bytes 8 (tv_BlockCount x) @ le_bytes 8 (tv_RouteCount x) @
     le_bytes 8 (tv_PermitCount x) @ le_bytes 8 (tv_ObserveCount x) @
     le_bytes 8 (tv_ErrorCount x) @ le_bytes 8 (tv_DnsObserveCount x) @
     le_bytes 8 (tv_AvgClassifyLatency100ns x) @ le_bytes 8 (tv_MaxClassifyLatency100ns x)"

definition rd_telemetry :: "bytes \<Rightarrow> (GUARDIAN_TELEMETRY_V1 \<times> bytes) option" where
  "rd_telemetry b = do {
     (version, b) \<leftarrow> rd_u32 b;
     (classifyCount, b) \<leftarrow> rd_u64 b;
     (blockCount, b) \<leftarrow> rd_u64 b;
     (routeCount, b) \<leftarrow> rd_u64 b;
     (permitCount, b) \<leftarrow> rd_u64 b;
     (observeCount, b) \<leftarrow> rd_u64 b;
     (errorCount, b) \<leftarrow> rd_u64 b;
     (dnsObserveCount, b) \<leftarrow> rd_u64 b;
     (avgClassifyLatency100ns, b) \<leftarrow> rd_u64 b;
     (maxClassifyLatency100ns, b) \<leftarrow> rd_u64 b;
     Some (\<lparr>tv_Version = version, tv_ClassifyCount = classifyCount, tv_BlockCount = blockCount,
            tv_RouteCount = routeCount, tv_PermitCount = permitCount,
            tv_ObserveCount = observeCount, tv_ErrorCount = errorCount,
            tv_DnsObserveCount = dnsObserveCount,
            tv_AvgClassifyLatency100ns = avgClassifyLatency100ns,
            tv_MaxClassifyLatency100ns = maxClassifyLatency100ns\<rparr>, b) }"

definition sizeof_GUARDIAN_TELEMETRY_V1 :: nat where
  "sizeof_GUARDIAN_TELEMETRY_V1 =
     4 + (8 + (8 + (8 + (8 + (8 + (8 + (8 + (8 + (8)))))))))"

interpretation telemetry_layout: codec enc_telemetry rd_telemetry wf_telemetry sizeof_GUARDIAN_TELEMETRY_V1
proof
  fix bs r and x :: GUARDIAN_TELEMETRY_V1
  show "rd_telemetry bs = Some (x, r) \<longleftrightarrow> wf_telemetry x \<and> bs = enc_telemetry x @ r"
    by (cases x) (auto simp: rd_telemetry_def wf_telemetry_def enc_telemetry_def bind_eq_Some_conv reader_iff)
  show "wf_telemetry x \<Longrightarrow> length (enc_telemetry x) = sizeof_GUARDIAN_TELEMETRY_V1"
    by (simp add: enc_telemetry_def wf_telemetry_def sizeof_GUARDIAN_TELEMETRY_V1_def)
  show "rd_telemetry bs = None \<longleftrightarrow> length bs < sizeof_GUARDIAN_TELEMETRY_V1"
    unfolding rd_telemetry_def sizeof_GUARDIAN_TELEMETRY_V1_def
    by (intro struct_none) (simp_all add: reader_none)
qed

record GUARDIAN_PERF_STATS_V1 =
  ps_Version :: u32
  ps_IpcDispatchCount :: u64
  ps_IpcRejectCount :: u64
  ps_AvgIpcLatency100ns :: u64
  ps_MaxIpcLatency100ns :: u64
  ps_DeferredWorkCount :: u64
  ps_ActivePolicyCount :: u32
  ps_ActiveRouteCount :: u32

definition wf_perf_stats :: "GUARDIAN_PERF_STATS_V1 \<Rightarrow> bool" where
  "wf_perf_stats x \<longleftrightarrow> True"

definition enc_perf_stats :: "GUARDIAN_PERF_STATS_V1 \<Rightarrow> bytes" where
  "enc_perf_stats x =
     le_bytes 4 (ps_Version x) @ le_bytes 8 (ps_IpcDispatchCount x) @
     le_bytes 8 (ps_IpcRejectCount x) @ le_bytes 8 (ps_AvgIpcLatency100ns x) @
     le_bytes 8 (ps_MaxIpcLatency100ns x) @ le_bytes 8 (ps_DeferredWorkCount x) @
     le_bytes 4 (ps_ActivePolicyCount x) @ le_bytes 4 (ps_ActiveRouteCount x)"

definition rd_perf_stats :: "bytes \<Rightarrow> (GUARDIAN_PERF_STATS_V1 \<times> bytes) option" where
  "rd_perf_stats b = do {
     (version, b) \<leftarrow> rd_u32 b;
     (ipcDispatchCount, b) \<leftarrow> rd_u64 b;
     (ipcRejectCount, b) \<leftarrow> rd_u64 b;
     (avgIpcLatency100ns, b) \<leftarrow> rd_u64 b;
     (maxIpcLatency100ns, b) \<leftarrow> rd_u64 b;
     (deferredWorkCount, b) \<leftarrow> rd_u64 b;
     (activePolicyCount, b) \<leftarrow> rd_u32 b;
     (activeRouteCount, b) \<leftarrow> rd_u32 b;
     Some (\<lparr>ps_Version = version, ps_IpcDispatchCount = ipcDispatchCount,
            ps_IpcRejectCount = ipcRejectCount, ps_AvgIpcLatency100ns = avgIpcLatency100ns,
            ps_MaxIpcLatency100ns = maxIpcLatency100ns,
            ps_DeferredWorkCount = deferredWorkCount, ps_ActivePolicyCount = activePolicyCount,
            ps_ActiveRouteCount = activeRouteCount\<rparr>, b) }"

definition sizeof_GUARDIAN_PERF_STATS_V1 :: nat where
  "sizeof_GUARDIAN_PERF_STATS_V1 =
     4 + (8 + (8 + (8 + (8 + (8 + (4 + (4)))))))"

interpretation perf_stats_layout: codec enc_perf_stats rd_perf_stats wf_perf_stats sizeof_GUARDIAN_PERF_STATS_V1
proof
  fix bs r and x :: GUARDIAN_PERF_STATS_V1
  show "rd_perf_stats bs = Some (x, r) \<longleftrightarrow> wf_perf_stats x \<and> bs = enc_perf_stats x @ r"
    by (cases x) (auto simp: rd_perf_stats_def wf_perf_stats_def enc_perf_stats_def bind_eq_Some_conv reader_iff)
  show "wf_perf_stats x \<Longrightarrow> length (enc_perf_stats x) = sizeof_GUARDIAN_PERF_STATS_V1"
    by (simp add: enc_perf_stats_def wf_perf_stats_def sizeof_GUARDIAN_PERF_STATS_V1_def)
  show "rd_perf_stats bs = None \<longleftrightarrow> length bs < sizeof_GUARDIAN_PERF_STATS_V1"
    unfolding rd_perf_stats_def sizeof_GUARDIAN_PERF_STATS_V1_def
    by (intro struct_none) (simp_all add: reader_none)
qed

section \<open>DNS observation (dns.h)\<close>

definition GUARDIAN_DNS_CONFIG_VERSION :: u32 where "GUARDIAN_DNS_CONFIG_VERSION = 1"
definition GUARDIAN_DNS_CAP_OBSERVE :: u32 where "GUARDIAN_DNS_CAP_OBSERVE = 1"
definition GUARDIAN_DNS_CAP_REDIRECT :: u32 where "GUARDIAN_DNS_CAP_REDIRECT = 2"

record GUARDIAN_DNS_CONFIG_V1 =
  dc_Version :: u32
  dc_Capabilities :: u32
  dc_Enabled :: byte
  dc_ObserveOnly :: byte
  dc_Reserved :: bytes
  dc_ProxyPort :: u16
  dc_ExcludedPidCount :: u32
  dc_ExcludedPids :: "u32 list"

definition wf_dns_config :: "GUARDIAN_DNS_CONFIG_V1 \<Rightarrow> bool" where
  "wf_dns_config x \<longleftrightarrow> length (dc_Reserved x) = 2 \<and> length (dc_ExcludedPids x) = 16"

definition enc_dns_config :: "GUARDIAN_DNS_CONFIG_V1 \<Rightarrow> bytes" where
  "enc_dns_config x =
     le_bytes 4 (dc_Version x) @ le_bytes 4 (dc_Capabilities x) @ [dc_Enabled x] @
     [dc_ObserveOnly x] @ dc_Reserved x @ le_bytes 2 (dc_ProxyPort x) @
     le_bytes 4 (dc_ExcludedPidCount x) @ concat (map (le_bytes 4) (dc_ExcludedPids x))"

definition rd_dns_config :: "bytes \<Rightarrow> (GUARDIAN_DNS_CONFIG_V1 \<times> bytes) option" where
  "rd_dns_config b = do {
     (version, b) \<leftarrow> rd_u32 b;
     (capabilities, b) \<leftarrow> rd_u32 b;
     (enabled, b) \<leftarrow> rd_u8 b;
     (observeOnly, b) \<leftarrow> rd_u8 b;
     (reserved, b) \<leftarrow> rd_bytes 2 b;
     (proxyPort, b) \<leftarrow> rd_u16 b;
     (excludedPidCount, b) \<leftarrow> rd_u32 b;
     (excludedPids, b) \<leftarrow> rd_list rd_u32 16 b;
     Some (\<lparr>dc_Version = version, dc_Capabilities = capabilities, dc_Enabled = enabled,
            dc_ObserveOnly = observeOnly, dc_Reserved = reserved, dc_ProxyPort = proxyPort,
            dc_ExcludedPidCount = excludedPidCount, dc_ExcludedPids = excludedPids\<rparr>, b) }"

definition sizeof_GUARDIAN_DNS_CONFIG_V1 :: nat where
  "sizeof_GUARDIAN_DNS_CONFIG_V1 =
     4 + (4 + (1 + (1 + (2 + (2 + (4 + (4 * 16)))))))"

interpretation dns_config_layout: codec enc_dns_config rd_dns_config wf_dns_config sizeof_GUARDIAN_DNS_CONFIG_V1
proof
  fix bs r and x :: GUARDIAN_DNS_CONFIG_V1
  show "rd_dns_config bs = Some (x, r) \<longleftrightarrow> wf_dns_config x \<and> bs = enc_dns_config x @ r"
    by (cases x) (auto simp: rd_dns_config_def wf_dns_config_def enc_dns_config_def bind_eq_Some_conv reader_iff)
  show "wf_dns_config x \<Longrightarrow> length (enc_dns_config x) = sizeof_GUARDIAN_DNS_CONFIG_V1"
    by (simp add: enc_dns_config_def wf_dns_config_def sizeof_GUARDIAN_DNS_CONFIG_V1_def)
  show "rd_dns_config bs = None \<longleftrightarrow> length bs < sizeof_GUARDIAN_DNS_CONFIG_V1"
    unfolding rd_dns_config_def sizeof_GUARDIAN_DNS_CONFIG_V1_def
    by (intro struct_none) (simp_all add: reader_none)
qed

record GUARDIAN_DNS_STATS_V1 =
  dn_Version :: u32
  dn_ObservedV4 :: u64
  dn_ObservedV6 :: u64
  dn_SkippedLoopback :: u64
  dn_SkippedExcluded :: u64
  dn_SkippedDisabled :: u64
  dn_Errors :: u64

definition wf_dns_stats :: "GUARDIAN_DNS_STATS_V1 \<Rightarrow> bool" where
  "wf_dns_stats x \<longleftrightarrow> True"

definition enc_dns_stats :: "GUARDIAN_DNS_STATS_V1 \<Rightarrow> bytes" where
  "enc_dns_stats x =
     le_bytes 4 (dn_Version x) @ le_bytes 8 (dn_ObservedV4 x) @ le_bytes 8 (dn_ObservedV6 x) @
     le_bytes 8 (dn_SkippedLoopback x) @ le_bytes 8 (dn_SkippedExcluded x) @
     le_bytes 8 (dn_SkippedDisabled x) @ le_bytes 8 (dn_Errors x)"

definition rd_dns_stats :: "bytes \<Rightarrow> (GUARDIAN_DNS_STATS_V1 \<times> bytes) option" where
  "rd_dns_stats b = do {
     (version, b) \<leftarrow> rd_u32 b;
     (observedV4, b) \<leftarrow> rd_u64 b;
     (observedV6, b) \<leftarrow> rd_u64 b;
     (skippedLoopback, b) \<leftarrow> rd_u64 b;
     (skippedExcluded, b) \<leftarrow> rd_u64 b;
     (skippedDisabled, b) \<leftarrow> rd_u64 b;
     (errors, b) \<leftarrow> rd_u64 b;
     Some (\<lparr>dn_Version = version, dn_ObservedV4 = observedV4, dn_ObservedV6 = observedV6,
            dn_SkippedLoopback = skippedLoopback, dn_SkippedExcluded = skippedExcluded,
            dn_SkippedDisabled = skippedDisabled, dn_Errors = errors\<rparr>, b) }"

definition sizeof_GUARDIAN_DNS_STATS_V1 :: nat where
  "sizeof_GUARDIAN_DNS_STATS_V1 =
     4 + (8 + (8 + (8 + (8 + (8 + (8))))))"

interpretation dns_stats_layout: codec enc_dns_stats rd_dns_stats wf_dns_stats sizeof_GUARDIAN_DNS_STATS_V1
proof
  fix bs r and x :: GUARDIAN_DNS_STATS_V1
  show "rd_dns_stats bs = Some (x, r) \<longleftrightarrow> wf_dns_stats x \<and> bs = enc_dns_stats x @ r"
    by (cases x) (auto simp: rd_dns_stats_def wf_dns_stats_def enc_dns_stats_def bind_eq_Some_conv reader_iff)
  show "wf_dns_stats x \<Longrightarrow> length (enc_dns_stats x) = sizeof_GUARDIAN_DNS_STATS_V1"
    by (simp add: enc_dns_stats_def wf_dns_stats_def sizeof_GUARDIAN_DNS_STATS_V1_def)
  show "rd_dns_stats bs = None \<longleftrightarrow> length bs < sizeof_GUARDIAN_DNS_STATS_V1"
    unfolding rd_dns_stats_def sizeof_GUARDIAN_DNS_STATS_V1_def
    by (intro struct_none) (simp_all add: reader_none)
qed

section \<open>Driver state (guardian\_state.h)\<close>

definition GUARDIAN_DRIVER_VERSION_MAJOR :: u32 where "GUARDIAN_DRIVER_VERSION_MAJOR = 0"
definition GUARDIAN_DRIVER_VERSION_MINOR :: u32 where "GUARDIAN_DRIVER_VERSION_MINOR = 1"
definition GUARDIAN_DRIVER_VERSION_PATCH :: u32 where "GUARDIAN_DRIVER_VERSION_PATCH = 0"
definition GUARDIAN_DRIVER_BUILD_STAMP :: u32 where "GUARDIAN_DRIVER_BUILD_STAMP = 2026062101"
definition GUARDIAN_DRIVER_STATE_VERSION :: u32 where "GUARDIAN_DRIVER_STATE_VERSION = 1"

datatype GUARDIAN_DRIVER_LIFECYCLE_STATE =
  GuardianLifecycleStopped | GuardianLifecycleStarting | GuardianLifecycleRunning |
  GuardianLifecycleRecovering | GuardianLifecycleFailed

fun lifecycle_code :: "GUARDIAN_DRIVER_LIFECYCLE_STATE \<Rightarrow> u32" where
  "lifecycle_code GuardianLifecycleStopped = 0"
| "lifecycle_code GuardianLifecycleStarting = 1"
| "lifecycle_code GuardianLifecycleRunning = 2"
| "lifecycle_code GuardianLifecycleRecovering = 3"
| "lifecycle_code GuardianLifecycleFailed = 4"

definition lifecycle_states :: "GUARDIAN_DRIVER_LIFECYCLE_STATE list" where
  "lifecycle_states = [GuardianLifecycleStopped, GuardianLifecycleStarting,
     GuardianLifecycleRunning, GuardianLifecycleRecovering, GuardianLifecycleFailed]"

interpretation lifecycle: c_enum lifecycle_states lifecycle_code
proof
  show "x \<in> set lifecycle_states" for x by (cases x) (simp_all add: lifecycle_states_def)
  show "lifecycle_code x = lifecycle_code y \<Longrightarrow> x = y" for x y
    by (cases x; cases y) simp_all
qed

datatype GUARDIAN_MODE =
  GuardianModeWfp | GuardianModeNdis | GuardianModeHybrid

fun guardian_mode_code :: "GUARDIAN_MODE \<Rightarrow> u32" where
  "guardian_mode_code GuardianModeWfp = 0"
| "guardian_mode_code GuardianModeNdis = 1"
| "guardian_mode_code GuardianModeHybrid = 2"

definition guardian_modes :: "GUARDIAN_MODE list" where
  "guardian_modes = [GuardianModeWfp, GuardianModeNdis, GuardianModeHybrid]"

interpretation guardian_mode: c_enum guardian_modes guardian_mode_code
proof
  show "x \<in> set guardian_modes" for x by (cases x) (simp_all add: guardian_modes_def)
  show "guardian_mode_code x = guardian_mode_code y \<Longrightarrow> x = y" for x y
    by (cases x; cases y) simp_all
qed

text \<open>LastError is an NTSTATUS, a 32-bit status value.\<close>

record GUARDIAN_DRIVER_STATE_V1 =
  dv_Version :: u32
  dv_VersionMajor :: u32
  dv_VersionMinor :: u32
  dv_VersionPatch :: u32
  dv_BuildStamp :: u32
  dv_LifecycleState :: u32
  dv_CalloutsRegistered :: u32
  dv_FilterCount :: u32
  dv_RecoveryGeneration :: u32
  dv_KillSwitchMode :: u32
  dv_LastError :: u32
  dv_GuardianMode :: u32
  dv_Reserved :: bytes

definition wf_driver_state :: "GUARDIAN_DRIVER_STATE_V1 \<Rightarrow> bool" where
  "wf_driver_state x \<longleftrightarrow> length (dv_Reserved x) = 12"

definition enc_driver_state :: "GUARDIAN_DRIVER_STATE_V1 \<Rightarrow> bytes" where
  "enc_driver_state x =
     le_bytes 4 (dv_Version x) @ le_bytes 4 (dv_VersionMajor x) @
     le_bytes 4 (dv_VersionMinor x) @ le_bytes 4 (dv_VersionPatch x) @
     le_bytes 4 (dv_BuildStamp x) @ le_bytes 4 (dv_LifecycleState x) @
     le_bytes 4 (dv_CalloutsRegistered x) @ le_bytes 4 (dv_FilterCount x) @
     le_bytes 4 (dv_RecoveryGeneration x) @ le_bytes 4 (dv_KillSwitchMode x) @
     le_bytes 4 (dv_LastError x) @ le_bytes 4 (dv_GuardianMode x) @ dv_Reserved x"

definition rd_driver_state :: "bytes \<Rightarrow> (GUARDIAN_DRIVER_STATE_V1 \<times> bytes) option" where
  "rd_driver_state b = do {
     (version, b) \<leftarrow> rd_u32 b;
     (versionMajor, b) \<leftarrow> rd_u32 b;
     (versionMinor, b) \<leftarrow> rd_u32 b;
     (versionPatch, b) \<leftarrow> rd_u32 b;
     (buildStamp, b) \<leftarrow> rd_u32 b;
     (lifecycleState, b) \<leftarrow> rd_u32 b;
     (calloutsRegistered, b) \<leftarrow> rd_u32 b;
     (filterCount, b) \<leftarrow> rd_u32 b;
     (recoveryGeneration, b) \<leftarrow> rd_u32 b;
     (killSwitchMode, b) \<leftarrow> rd_u32 b;
     (lastError, b) \<leftarrow> rd_u32 b;
     (guardianMode, b) \<leftarrow> rd_u32 b;
     (reserved, b) \<leftarrow> rd_bytes 12 b;
     Some (\<lparr>dv_Version = version, dv_VersionMajor = versionMajor,
            dv_VersionMinor = versionMinor, dv_VersionPatch = versionPatch,
            dv_BuildStamp = buildStamp, dv_LifecycleState = lifecycleState,
            dv_CalloutsRegistered = calloutsRegistered, dv_FilterCount = filterCount,
            dv_RecoveryGeneration = recoveryGeneration, dv_KillSwitchMode = killSwitchMode,
            dv_LastError = lastError, dv_GuardianMode = guardianMode, dv_Reserved = reserved\<rparr>, b) }"

definition sizeof_GUARDIAN_DRIVER_STATE_V1 :: nat where
  "sizeof_GUARDIAN_DRIVER_STATE_V1 =
     4 + (4 + (4 + (4 + (4 + (4 + (4 + (4 + (4 + (4 + (4 + (4 + (12))))))))))))"

interpretation driver_state_layout: codec enc_driver_state rd_driver_state wf_driver_state sizeof_GUARDIAN_DRIVER_STATE_V1
proof
  fix bs r and x :: GUARDIAN_DRIVER_STATE_V1
  show "rd_driver_state bs = Some (x, r) \<longleftrightarrow> wf_driver_state x \<and> bs = enc_driver_state x @ r"
    by (cases x) (auto simp: rd_driver_state_def wf_driver_state_def enc_driver_state_def bind_eq_Some_conv reader_iff)
  show "wf_driver_state x \<Longrightarrow> length (enc_driver_state x) = sizeof_GUARDIAN_DRIVER_STATE_V1"
    by (simp add: enc_driver_state_def wf_driver_state_def sizeof_GUARDIAN_DRIVER_STATE_V1_def)
  show "rd_driver_state bs = None \<longleftrightarrow> length bs < sizeof_GUARDIAN_DRIVER_STATE_V1"
    unfolding rd_driver_state_def sizeof_GUARDIAN_DRIVER_STATE_V1_def
    by (intro struct_none) (simp_all add: reader_none)
qed

section \<open>Messages and state blobs (guardian\_message.h)\<close>

definition GUARDIAN_PROTOCOL_VERSION :: u32 where "GUARDIAN_PROTOCOL_VERSION = 1"
definition GUARDIAN_STATE_BLOB_VERSION :: u32 where "GUARDIAN_STATE_BLOB_VERSION = 1"
definition GUARDIAN_MAX_EXPORT_BYTES :: nat where "GUARDIAN_MAX_EXPORT_BYTES = 4 * 1024 * 1024"
definition GUARDIAN_RECOVERY_STATUS_OK :: u32 where "GUARDIAN_RECOVERY_STATUS_OK = 0"
definition GUARDIAN_RECOVERY_STATUS_FAILED :: u32 where "GUARDIAN_RECOVERY_STATUS_FAILED = 1"

datatype GUARDIAN_MESSAGE_TYPE =
  GuardianMsgGetDriverState | GuardianMsgSetAppPolicy | GuardianMsgSyncPolicies |
  GuardianMsgSetRoute | GuardianMsgClearRoute | GuardianMsgSyncRoutes |
  GuardianMsgSetKillSwitch | GuardianMsgGetTelemetry | GuardianMsgExportState |
  GuardianMsgImportState | GuardianMsgReconcile | GuardianMsgDnsSetConfig |
  GuardianMsgGetPerfStats | GuardianMsgGetDnsStats

fun message_type_code :: "GUARDIAN_MESSAGE_TYPE \<Rightarrow> u32" where
  "message_type_code GuardianMsgGetDriverState = 1"
| "message_type_code GuardianMsgSetAppPolicy = 2"
| "message_type_code GuardianMsgSyncPolicies = 3"
| "message_type_code GuardianMsgSetRoute = 4"
| "message_type_code GuardianMsgClearRoute = 5"
| "message_type_code GuardianMsgSyncRoutes = 6"
| "message_type_code GuardianMsgSetKillSwitch = 7"
| "message_type_code GuardianMsgGetTelemetry = 8"
| "message_type_code GuardianMsgExportState = 9"
| "message_type_code GuardianMsgImportState = 10"
| "message_type_code GuardianMsgReconcile = 11"
| "message_type_code GuardianMsgDnsSetConfig = 12"
| "message_type_code GuardianMsgGetPerfStats = 13"
| "message_type_code GuardianMsgGetDnsStats = 14"

definition message_types :: "GUARDIAN_MESSAGE_TYPE list" where
  "message_types = [GuardianMsgGetDriverState, GuardianMsgSetAppPolicy,
     GuardianMsgSyncPolicies, GuardianMsgSetRoute, GuardianMsgClearRoute,
     GuardianMsgSyncRoutes, GuardianMsgSetKillSwitch, GuardianMsgGetTelemetry,
     GuardianMsgExportState, GuardianMsgImportState, GuardianMsgReconcile,
     GuardianMsgDnsSetConfig, GuardianMsgGetPerfStats, GuardianMsgGetDnsStats]"

interpretation message_type: c_enum message_types message_type_code
proof
  show "x \<in> set message_types" for x by (cases x) (simp_all add: message_types_def)
  show "message_type_code x = message_type_code y \<Longrightarrow> x = y" for x y
    by (cases x; cases y) simp_all
qed

record GUARDIAN_MESSAGE_HEADER =
  mh_Version :: u32
  mh_MessageType :: u32
  mh_PayloadBytes :: u32
  mh_SequenceId :: u32
  mh_RequestId :: u64

definition wf_message_header :: "GUARDIAN_MESSAGE_HEADER \<Rightarrow> bool" where
  "wf_message_header x \<longleftrightarrow> True"

definition enc_message_header :: "GUARDIAN_MESSAGE_HEADER \<Rightarrow> bytes" where
  "enc_message_header x =
     le_bytes 4 (mh_Version x) @ le_bytes 4 (mh_MessageType x) @
     le_bytes 4 (mh_PayloadBytes x) @ le_bytes 4 (mh_SequenceId x) @ le_bytes 8 (mh_RequestId x)"

definition rd_message_header :: "bytes \<Rightarrow> (GUARDIAN_MESSAGE_HEADER \<times> bytes) option" where
  "rd_message_header b = do {
     (version, b) \<leftarrow> rd_u32 b;
     (messageType, b) \<leftarrow> rd_u32 b;
     (payloadBytes, b) \<leftarrow> rd_u32 b;
     (sequenceId, b) \<leftarrow> rd_u32 b;
     (requestId, b) \<leftarrow> rd_u64 b;
     Some (\<lparr>mh_Version = version, mh_MessageType = messageType, mh_PayloadBytes = payloadBytes,
            mh_SequenceId = sequenceId, mh_RequestId = requestId\<rparr>, b) }"

definition sizeof_GUARDIAN_MESSAGE_HEADER :: nat where
  "sizeof_GUARDIAN_MESSAGE_HEADER =
     4 + (4 + (4 + (4 + (8))))"

interpretation message_header_layout: codec enc_message_header rd_message_header wf_message_header sizeof_GUARDIAN_MESSAGE_HEADER
proof
  fix bs r and x :: GUARDIAN_MESSAGE_HEADER
  show "rd_message_header bs = Some (x, r) \<longleftrightarrow> wf_message_header x \<and> bs = enc_message_header x @ r"
    by (cases x) (auto simp: rd_message_header_def wf_message_header_def enc_message_header_def bind_eq_Some_conv reader_iff)
  show "wf_message_header x \<Longrightarrow> length (enc_message_header x) = sizeof_GUARDIAN_MESSAGE_HEADER"
    by (simp add: enc_message_header_def wf_message_header_def sizeof_GUARDIAN_MESSAGE_HEADER_def)
  show "rd_message_header bs = None \<longleftrightarrow> length bs < sizeof_GUARDIAN_MESSAGE_HEADER"
    unfolding rd_message_header_def sizeof_GUARDIAN_MESSAGE_HEADER_def
    by (intro struct_none) (simp_all add: reader_none)
qed

record GUARDIAN_STATE_BLOB_HEADER_V1 =
  sb_Version :: u32
  sb_PolicyCount :: u32
  sb_RouteCount :: u32
  sb_KillSwitchMode :: u32
  sb_RecoveryGeneration :: u32
  sb_Reserved :: u32

definition wf_state_blob :: "GUARDIAN_STATE_BLOB_HEADER_V1 \<Rightarrow> bool" where
  "wf_state_blob x \<longleftrightarrow> True"

definition enc_state_blob :: "GUARDIAN_STATE_BLOB_HEADER_V1 \<Rightarrow> bytes" where
  "enc_state_blob x =
     le_bytes 4 (sb_Version x) @ le_bytes 4 (sb_PolicyCount x) @ le_bytes 4 (sb_RouteCount x) @
     le_bytes 4 (sb_KillSwitchMode x) @ le_bytes 4 (sb_RecoveryGeneration x) @
     le_bytes 4 (sb_Reserved x)"

definition rd_state_blob :: "bytes \<Rightarrow> (GUARDIAN_STATE_BLOB_HEADER_V1 \<times> bytes) option" where
  "rd_state_blob b = do {
     (version, b) \<leftarrow> rd_u32 b;
     (policyCount, b) \<leftarrow> rd_u32 b;
     (routeCount, b) \<leftarrow> rd_u32 b;
     (killSwitchMode, b) \<leftarrow> rd_u32 b;
     (recoveryGeneration, b) \<leftarrow> rd_u32 b;
     (reserved, b) \<leftarrow> rd_u32 b;
     Some (\<lparr>sb_Version = version, sb_PolicyCount = policyCount, sb_RouteCount = routeCount,
            sb_KillSwitchMode = killSwitchMode, sb_RecoveryGeneration = recoveryGeneration,
            sb_Reserved = reserved\<rparr>, b) }"

definition sizeof_GUARDIAN_STATE_BLOB_HEADER_V1 :: nat where
  "sizeof_GUARDIAN_STATE_BLOB_HEADER_V1 =
     4 + (4 + (4 + (4 + (4 + (4)))))"

interpretation state_blob_layout: codec enc_state_blob rd_state_blob wf_state_blob sizeof_GUARDIAN_STATE_BLOB_HEADER_V1
proof
  fix bs r and x :: GUARDIAN_STATE_BLOB_HEADER_V1
  show "rd_state_blob bs = Some (x, r) \<longleftrightarrow> wf_state_blob x \<and> bs = enc_state_blob x @ r"
    by (cases x) (auto simp: rd_state_blob_def wf_state_blob_def enc_state_blob_def bind_eq_Some_conv reader_iff)
  show "wf_state_blob x \<Longrightarrow> length (enc_state_blob x) = sizeof_GUARDIAN_STATE_BLOB_HEADER_V1"
    by (simp add: enc_state_blob_def wf_state_blob_def sizeof_GUARDIAN_STATE_BLOB_HEADER_V1_def)
  show "rd_state_blob bs = None \<longleftrightarrow> length bs < sizeof_GUARDIAN_STATE_BLOB_HEADER_V1"
    unfolding rd_state_blob_def sizeof_GUARDIAN_STATE_BLOB_HEADER_V1_def
    by (intro struct_none) (simp_all add: reader_none)
qed

record GUARDIAN_RECONCILE_RESPONSE_V1 =
  rr_Version :: u32
  rr_RemovedOrphans :: u32
  rr_RecoveryGeneration :: u32
  rr_RecoveryStatus :: u32

definition wf_reconcile_response :: "GUARDIAN_RECONCILE_RESPONSE_V1 \<Rightarrow> bool" where
  "wf_reconcile_response x \<longleftrightarrow> True"

definition enc_reconcile_response :: "GUARDIAN_RECONCILE_RESPONSE_V1 \<Rightarrow> bytes" where
  "enc_reconcile_response x =
     le_bytes 4 (rr_Version x) @ le_bytes 4 (rr_RemovedOrphans x) @
     le_bytes 4 (rr_RecoveryGeneration x) @ le_bytes 4 (rr_RecoveryStatus x)"

definition rd_reconcile_response :: "bytes \<Rightarrow> (GUARDIAN_RECONCILE_RESPONSE_V1 \<times> bytes) option" where
  "rd_reconcile_response b = do {
     (version, b) \<leftarrow> rd_u32 b;
     (removedOrphans, b) \<leftarrow> rd_u32 b;
     (recoveryGeneration, b) \<leftarrow> rd_u32 b;
     (recoveryStatus, b) \<leftarrow> rd_u32 b;
     Some (\<lparr>rr_Version = version, rr_RemovedOrphans = removedOrphans,
            rr_RecoveryGeneration = recoveryGeneration, rr_RecoveryStatus = recoveryStatus\<rparr>, b) }"

definition sizeof_GUARDIAN_RECONCILE_RESPONSE_V1 :: nat where
  "sizeof_GUARDIAN_RECONCILE_RESPONSE_V1 =
     4 + (4 + (4 + (4)))"

interpretation reconcile_response_layout: codec enc_reconcile_response rd_reconcile_response wf_reconcile_response sizeof_GUARDIAN_RECONCILE_RESPONSE_V1
proof
  fix bs r and x :: GUARDIAN_RECONCILE_RESPONSE_V1
  show "rd_reconcile_response bs = Some (x, r) \<longleftrightarrow> wf_reconcile_response x \<and> bs = enc_reconcile_response x @ r"
    by (cases x) (auto simp: rd_reconcile_response_def wf_reconcile_response_def enc_reconcile_response_def bind_eq_Some_conv reader_iff)
  show "wf_reconcile_response x \<Longrightarrow> length (enc_reconcile_response x) = sizeof_GUARDIAN_RECONCILE_RESPONSE_V1"
    by (simp add: enc_reconcile_response_def wf_reconcile_response_def sizeof_GUARDIAN_RECONCILE_RESPONSE_V1_def)
  show "rd_reconcile_response bs = None \<longleftrightarrow> length bs < sizeof_GUARDIAN_RECONCILE_RESPONSE_V1"
    unfolding rd_reconcile_response_def sizeof_GUARDIAN_RECONCILE_RESPONSE_V1_def
    by (intro struct_none) (simp_all add: reader_none)
qed

section \<open>The reply of the NDIS filter driver (filters.c)\<close>

record GUARDIAN_NDIS_DRIVER_STATE_POLL =
  nd_Version :: u32
  nd_VersionMajor :: u32
  nd_VersionMinor :: u32
  nd_VersionPatch :: u32
  nd_BuildStamp :: u32
  nd_LifecycleState :: u32
  nd_FilterAttached :: u32
  nd_ActiveRouteCount :: u32
  nd_ActiveRedirectCount :: u32
  nd_LastError :: u32
  nd_Reserved :: bytes

definition wf_ndis_poll :: "GUARDIAN_NDIS_DRIVER_STATE_POLL \<Rightarrow> bool" where
  "wf_ndis_poll x \<longleftrightarrow> length (nd_Reserved x) = 12"

definition enc_ndis_poll :: "GUARDIAN_NDIS_DRIVER_STATE_POLL \<Rightarrow> bytes" where
  "enc_ndis_poll x =
     le_bytes 4 (nd_Version x) @ le_bytes 4 (nd_VersionMajor x) @
     le_bytes 4 (nd_VersionMinor x) @ le_bytes 4 (nd_VersionPatch x) @
     le_bytes 4 (nd_BuildStamp x) @ le_bytes 4 (nd_LifecycleState x) @
     le_bytes 4 (nd_FilterAttached x) @ le_bytes 4 (nd_ActiveRouteCount x) @
     le_bytes 4 (nd_ActiveRedirectCount x) @ le_bytes 4 (nd_LastError x) @ nd_Reserved x"

definition rd_ndis_poll :: "bytes \<Rightarrow> (GUARDIAN_NDIS_DRIVER_STATE_POLL \<times> bytes) option" where
  "rd_ndis_poll b = do {
     (version, b) \<leftarrow> rd_u32 b;
     (versionMajor, b) \<leftarrow> rd_u32 b;
     (versionMinor, b) \<leftarrow> rd_u32 b;
     (versionPatch, b) \<leftarrow> rd_u32 b;
     (buildStamp, b) \<leftarrow> rd_u32 b;
     (lifecycleState, b) \<leftarrow> rd_u32 b;
     (filterAttached, b) \<leftarrow> rd_u32 b;
     (activeRouteCount, b) \<leftarrow> rd_u32 b;
     (activeRedirectCount, b) \<leftarrow> rd_u32 b;
     (lastError, b) \<leftarrow> rd_u32 b;
     (reserved, b) \<leftarrow> rd_bytes 12 b;
     Some (\<lparr>nd_Version = version, nd_VersionMajor = versionMajor,
            nd_VersionMinor = versionMinor, nd_VersionPatch = versionPatch,
            nd_BuildStamp = buildStamp, nd_LifecycleState = lifecycleState,
            nd_FilterAttached = filterAttached, nd_ActiveRouteCount = activeRouteCount,
            nd_ActiveRedirectCount = activeRedirectCount, nd_LastError = lastError,
            nd_Reserved = reserved\<rparr>, b) }"

definition sizeof_GUARDIAN_NDIS_DRIVER_STATE_POLL :: nat where
  "sizeof_GUARDIAN_NDIS_DRIVER_STATE_POLL =
     4 + (4 + (4 + (4 + (4 + (4 + (4 + (4 + (4 + (4 + (12))))))))))"

interpretation ndis_poll_layout: codec enc_ndis_poll rd_ndis_poll wf_ndis_poll sizeof_GUARDIAN_NDIS_DRIVER_STATE_POLL
proof
  fix bs r and x :: GUARDIAN_NDIS_DRIVER_STATE_POLL
  show "rd_ndis_poll bs = Some (x, r) \<longleftrightarrow> wf_ndis_poll x \<and> bs = enc_ndis_poll x @ r"
    by (cases x) (auto simp: rd_ndis_poll_def wf_ndis_poll_def enc_ndis_poll_def bind_eq_Some_conv reader_iff)
  show "wf_ndis_poll x \<Longrightarrow> length (enc_ndis_poll x) = sizeof_GUARDIAN_NDIS_DRIVER_STATE_POLL"
    by (simp add: enc_ndis_poll_def wf_ndis_poll_def sizeof_GUARDIAN_NDIS_DRIVER_STATE_POLL_def)
  show "rd_ndis_poll bs = None \<longleftrightarrow> length bs < sizeof_GUARDIAN_NDIS_DRIVER_STATE_POLL"
    unfolding rd_ndis_poll_def sizeof_GUARDIAN_NDIS_DRIVER_STATE_POLL_def
    by (intro struct_none) (simp_all add: reader_none)
qed

section \<open>Properties\<close>

lemmas structure_sizes =
  sizeof_GUARDIAN_APP_POLICY_V1_def
  sizeof_GUARDIAN_ROUTE_ASSIGNMENT_V1_def
  sizeof_GUARDIAN_ROUTE_ASSIGNMENT_V2_def
  sizeof_GUARDIAN_KILL_SWITCH_V1_def
  sizeof_GUARDIAN_TELEMETRY_V1_def
  sizeof_GUARDIAN_PERF_STATS_V1_def
  sizeof_GUARDIAN_DNS_CONFIG_V1_def
  sizeof_GUARDIAN_DNS_STATS_V1_def
  sizeof_GUARDIAN_DRIVER_STATE_V1_def
  sizeof_GUARDIAN_MESSAGE_HEADER_def
  sizeof_GUARDIAN_STATE_BLOB_HEADER_V1_def
  sizeof_GUARDIAN_RECONCILE_RESPONSE_V1_def
  sizeof_GUARDIAN_NDIS_DRIVER_STATE_POLL_def GUARDIAN_MAX_EXE_PATH_CHARS_def
  GUARDIAN_SHA256_BYTES_def GUARDIAN_MAX_SID_BYTES_def GUARDIAN_MAX_PACKAGE_FAMILY_CHARS_def

text \<open>
  C29: The packed layouts of the structures that requests carry (policy, route, kill switch, DNS
  configuration, state blob header) are exact: reading a buffer gives a structure and a rest
  exactly when the buffer is the encoding of that structure followed by the rest, and fails
  exactly when the buffer is shorter than the size of the structure.
\<close>

theorem input_structures_decode:
  "(rd_app_policy b = Some (p, r) \<longleftrightarrow> wf_app_policy p \<and> b = enc_app_policy p @ r) \<and>
   (rd_app_policy b = None \<longleftrightarrow> length b < 1448) \<and>
   (rd_route b = Some (a, r) \<longleftrightarrow> wf_route a \<and> b = enc_route a @ r) \<and>
   (rd_route b = None \<longleftrightarrow> length b < 48) \<and>
   (rd_kill_switch b = Some (k, r) \<longleftrightarrow> wf_kill_switch k \<and> b = enc_kill_switch k @ r) \<and>
   (rd_kill_switch b = None \<longleftrightarrow> length b < 16) \<and>
   (rd_dns_config b = Some (d, r) \<longleftrightarrow> wf_dns_config d \<and> b = enc_dns_config d @ r) \<and>
   (rd_dns_config b = None \<longleftrightarrow> length b < 82) \<and>
   (rd_state_blob b = Some (h, r) \<longleftrightarrow> wf_state_blob h \<and> b = enc_state_blob h @ r) \<and>
   (rd_state_blob b = None \<longleftrightarrow> length b < 24)"
  unfolding app_policy.rd_iff app_policy.rd_none route_layout.rd_iff route_layout.rd_none
    kill_switch_layout.rd_iff kill_switch_layout.rd_none dns_config_layout.rd_iff
    dns_config_layout.rd_none state_blob_layout.rd_iff state_blob_layout.rd_none
  by (simp add: structure_sizes)

lemma output_structures_fixed_size:
  "length (enc_telemetry t) = 76 \<and> rd_telemetry (enc_telemetry t @ r) = Some (t, r) \<and>
   length (enc_perf_stats p) = 52 \<and> rd_perf_stats (enc_perf_stats p @ r) = Some (p, r) \<and>
   length (enc_dns_stats n) = 52 \<and> rd_dns_stats (enc_dns_stats n @ r) = Some (n, r) \<and>
   length (enc_reconcile_response c) = 16 \<and>
   rd_reconcile_response (enc_reconcile_response c @ r) = Some (c, r) \<and>
   length (enc_state_blob h) = 24 \<and> rd_state_blob (enc_state_blob h @ r) = Some (h, r)"
  using telemetry_layout.rd_enc [of t r] perf_stats_layout.rd_enc [of p r]
    dns_stats_layout.rd_enc [of n r] reconcile_response_layout.rd_enc [of c r]
    state_blob_layout.rd_enc [of h r] telemetry_layout.enc_length [of t]
    perf_stats_layout.enc_length [of p] dns_stats_layout.enc_length [of n]
    reconcile_response_layout.enc_length [of c] state_blob_layout.enc_length [of h]
  by (simp add: wf_telemetry_def wf_perf_stats_def wf_dns_stats_def wf_reconcile_response_def
      wf_state_blob_def structure_sizes)

end
