(* ===== verification/App_Policy.thy ===== *)
theory App_Policy
  imports App_Table Structures
begin

text \<open>
  driver/policy/app_policy.c: the per-application policy table. The state is the list of entries in
  insertion order with the counter g_PolicyCount; the spin lock around every access makes each
  operation one atomic step here. The classify-time lookup reads the layer and the application id
  blob that the filtering platform supplies.
\<close>

section \<open>State and table operations\<close>

record policy_table =
  pt_list :: "GUARDIAN_APP_POLICY_V1 list"
  pt_count :: u32

definition GUARDIAN_MAX_POLICIES :: u32 where "GUARDIAN_MAX_POLICIES = 4096"

definition GuardianAppPolicyInitialize :: policy_table where
  "GuardianAppPolicyInitialize = \<lparr>pt_list = [], pt_count = 0\<rparr>"

definition GuardianAppPolicyShutdown :: "policy_table \<Rightarrow> policy_table" where
  "GuardianAppPolicyShutdown t = t\<lparr>pt_list := drain_list (pt_list t), pt_count := 0\<rparr>"

definition GuardianPolicyFindLocked :: "bytes \<Rightarrow> policy_table \<Rightarrow> GUARDIAN_APP_POLICY_V1 option" where
  "GuardianPolicyFindLocked appId t = key_find ap_AppId (pt_list t) appId"

text \<open>
  The pool allocation comes first, so its outcome \<open>alloc\<close> decides before the table is looked at;
  a NULL policy pointer is None.
\<close>

definition GuardianAppPolicySet ::
  "bool \<Rightarrow> GUARDIAN_APP_POLICY_V1 option \<Rightarrow> policy_table \<Rightarrow> ntstatus \<times> policy_table" where
  "GuardianAppPolicySet alloc policy t =
     (case policy of
        None \<Rightarrow> (STATUS_INVALID_PARAMETER, t)
      | Some p \<Rightarrow>
          if ap_Version p \<noteq> GUARDIAN_APP_POLICY_VERSION then (STATUS_INVALID_PARAMETER, t)
          else if \<not> alloc then (STATUS_INSUFFICIENT_RESOURCES, t)
          else (case GuardianPolicyFindLocked (ap_AppId p) t of
                  Some existing \<Rightarrow>
                    (STATUS_SUCCESS,
                     t\<lparr>pt_list :=
                         replace_first (\<lambda>x. same_app_id (ap_AppId x) (ap_AppId p)) p (pt_list t)\<rparr>)
                | None \<Rightarrow>
                    if GUARDIAN_MAX_POLICIES \<le> pt_count t then (STATUS_INSUFFICIENT_RESOURCES, t)
                    else (STATUS_SUCCESS,
                          t\<lparr>pt_list := pt_list t @ [p], pt_count := pt_count t + 1\<rparr>)))"

definition GuardianAppPolicyRemove :: "bytes \<Rightarrow> policy_table \<Rightarrow> ntstatus \<times> policy_table" where
  "GuardianAppPolicyRemove appId t =
     (case GuardianPolicyFindLocked appId t of
        None \<Rightarrow> (STATUS_NOT_FOUND, t)
      | Some existing \<Rightarrow>
          (STATUS_SUCCESS,
           t\<lparr>pt_list := remove_first (\<lambda>x. same_app_id (ap_AppId x) appId) (pt_list t),
             pt_count := pt_count t - 1\<rparr>))"

text \<open>
  The array argument of the sync is memory: \<open>policies i\<close> is the element at index i. On an element
  that the memory ends in, GuardianAppPolicySet still returns before it leaves the memory when the
  version field lies inside and is wrong, or when the allocation fails; else it reads the rest.
\<close>

fun policy_sync_loop ::
  "(nat \<Rightarrow> bool) \<Rightarrow> (nat \<Rightarrow> GUARDIAN_APP_POLICY_V1 cell) \<Rightarrow> nat \<Rightarrow> nat \<Rightarrow> policy_table \<Rightarrow>
     fault + (ntstatus \<times> policy_table)" where
  "policy_sync_loop alloc policies i 0 t = Inr (STATUS_SUCCESS, t)"
| "policy_sync_loop alloc policies i (Suc n) t =
     (case policies i of
        Truncated None \<Rightarrow> Inl OutOfBounds
      | Truncated (Some version) \<Rightarrow>
          if version \<noteq> GUARDIAN_APP_POLICY_VERSION then Inr (STATUS_INVALID_PARAMETER, t)
          else if \<not> alloc i then Inr (STATUS_INSUFFICIENT_RESOURCES, t)
          else Inl OutOfBounds
      | Readable p \<Rightarrow>
          (case GuardianAppPolicySet (alloc i) (Some p) t of (status, t') \<Rightarrow>
             if NT_SUCCESS status then policy_sync_loop alloc policies (Suc i) n t'
             else Inr (status, t')))"

definition GuardianAppPolicySync ::
  "(nat \<Rightarrow> bool) \<Rightarrow> (nat \<Rightarrow> GUARDIAN_APP_POLICY_V1 cell) option \<Rightarrow> u32 \<Rightarrow> policy_table \<Rightarrow>
     fault + (ntstatus \<times> policy_table)" where
  "GuardianAppPolicySync alloc policies count t =
     (case policies of
        None \<Rightarrow> Inr (STATUS_INVALID_PARAMETER, t)
      | Some rd \<Rightarrow>
          if GUARDIAN_MAX_SYNC_POLICIES < count then Inr (STATUS_INVALID_PARAMETER, t)
          else let t1 = GuardianAppPolicyShutdown t; t2 = GuardianAppPolicyInitialize
               in policy_sync_loop alloc rd 0 (unat count) t2)"

definition GuardianAppPolicyActiveCount :: "policy_table \<Rightarrow> u32" where
  "GuardianAppPolicyActiveCount t = pt_count t"

section \<open>Lookup at classify time\<close>

text \<open>
  What the platform passes to a callout (fwpsk.h): the layer and the value of each field, of which
  the driver reads the two application id fields. A value is a byte blob (a pointer, NULL or to a
  sized block) or of another type.
\<close>

datatype fwps_layer =
  FWPS_LAYER_ALE_AUTH_CONNECT_V4 | FWPS_LAYER_ALE_AUTH_CONNECT_V6 | FWPS_LAYER_OTHER u16

datatype fwps_field =
  FWPS_FIELD_ALE_AUTH_CONNECT_V4_ALE_APP_ID | FWPS_FIELD_ALE_AUTH_CONNECT_V6_ALE_APP_ID

datatype fwp_value = FWP_BYTE_BLOB_TYPE "bytes option" | FWP_OTHER_TYPE

record FWPS_INCOMING_VALUES0 =
  iv_layerId :: fwps_layer
  iv_incomingValue :: "fwps_field \<Rightarrow> fwp_value"

definition app_id_blob :: "FWPS_INCOMING_VALUES0 \<Rightarrow> bytes option" where
  "app_id_blob v =
     (case iv_layerId v of
        FWPS_LAYER_ALE_AUTH_CONNECT_V4 \<Rightarrow>
          (case iv_incomingValue v FWPS_FIELD_ALE_AUTH_CONNECT_V4_ALE_APP_ID of
             FWP_BYTE_BLOB_TYPE blob \<Rightarrow> blob | FWP_OTHER_TYPE \<Rightarrow> None)
      | FWPS_LAYER_ALE_AUTH_CONNECT_V6 \<Rightarrow>
          (case iv_incomingValue v FWPS_FIELD_ALE_AUTH_CONNECT_V6_ALE_APP_ID of
             FWP_BYTE_BLOB_TYPE blob \<Rightarrow> blob | FWP_OTHER_TYPE \<Rightarrow> None)
      | FWPS_LAYER_OTHER _ \<Rightarrow> None)"

fun policy_lookup_loop ::
  "bytes option \<Rightarrow> GUARDIAN_APP_POLICY_V1 list \<Rightarrow> GUARDIAN_APP_POLICY_V1 option" where
  "policy_lookup_loop blob [] = None"
| "policy_lookup_loop blob (item # items) =
     (if ap_MatchKind item = match_kind_code GuardianMatchProcessPath \<and> blob \<noteq> None then
        if 0 < length (the blob) then Some item else policy_lookup_loop blob items
      else if ap_MatchKind item = match_kind_code GuardianMatchNone then Some item
      else policy_lookup_loop blob items)"

definition zero_app_policy :: GUARDIAN_APP_POLICY_V1 where
  "zero_app_policy =
     \<lparr>ap_Version = 0, ap_AppId = replicate 16 0, ap_Action = 0, ap_MatchKind = 0,
      ap_ExePathLengthChars = 0, ap_ExePath = replicate GUARDIAN_MAX_EXE_PATH_CHARS 0,
      ap_ExeHashSha256 = replicate GUARDIAN_SHA256_BYTES 0, ap_SidLengthBytes = 0,
      ap_SidBytes = replicate GUARDIAN_MAX_SID_BYTES 0,
      ap_PackageFamilyName = replicate GUARDIAN_MAX_PACKAGE_FAMILY_CHARS 0,
      ap_ProfileId = 0, ap_InterfaceLuid = 0\<rparr>"

definition GuardianAppPolicyLookup ::
  "FWPS_INCOMING_VALUES0 option \<Rightarrow> policy_table \<Rightarrow> ntstatus \<times> GUARDIAN_APP_POLICY_V1 \<times> bool" where
  "GuardianAppPolicyLookup inFixedValues t =
     (case inFixedValues of
        None \<Rightarrow> (STATUS_INVALID_PARAMETER, zero_app_policy, False)
      | Some v \<Rightarrow>
          (case policy_lookup_loop (app_id_blob v) (pt_list t) of
             Some p \<Rightarrow> (STATUS_SUCCESS, p, True)
           | None \<Rightarrow> (STATUS_SUCCESS, zero_app_policy, False)))"

section \<open>The table invariant and the table contract\<close>

definition policy_inv :: "policy_table \<Rightarrow> bool" where
  "policy_inv t \<longleftrightarrow> table_inv ap_AppId 4096 (pt_list t) (pt_count t)"

lemma GuardianAppPolicySet_cases:
  assumes "GuardianAppPolicySet alloc policy t = (s, t')"
  obtains (reject) "s = STATUS_INVALID_PARAMETER" and "t' = t"
      and "\<And>p. policy = Some p \<Longrightarrow> ap_Version p \<noteq> GUARDIAN_APP_POLICY_VERSION"
  | (exhausted) "s = STATUS_INSUFFICIENT_RESOURCES" and "t' = t"
  | (update) p where "policy = Some p" and "ap_Version p = GUARDIAN_APP_POLICY_VERSION"
      and "alloc" and "s = STATUS_SUCCESS" and "GuardianPolicyFindLocked (ap_AppId p) t \<noteq> None"
      and "t' = t\<lparr>pt_list :=
             replace_first (\<lambda>x. same_app_id (ap_AppId x) (ap_AppId p)) p (pt_list t)\<rparr>"
  | (insert) p where "policy = Some p" and "ap_Version p = GUARDIAN_APP_POLICY_VERSION"
      and "alloc" and "s = STATUS_SUCCESS" and "GuardianPolicyFindLocked (ap_AppId p) t = None"
      and "pt_count t < GUARDIAN_MAX_POLICIES"
      and "t' = t\<lparr>pt_list := pt_list t @ [p], pt_count := pt_count t + 1\<rparr>"
  using assms by (auto simp: GuardianAppPolicySet_def not_le split: option.splits if_splits)

lemma policy_set_inv:
  assumes "policy_inv t" and "length (ap_AppId p) = 16"
    and "GuardianAppPolicySet a (Some p) t = (s, t')"
  shows "policy_inv t'"
  using assms(3)
proof (cases rule: GuardianAppPolicySet_cases)
  case (update q)
  then show ?thesis
    using table_inv_replace [of ap_AppId 4096 "pt_list t" "pt_count t" p] assms
    by (simp add: policy_inv_def)
next
  case (insert q)
  then show ?thesis
    using table_inv_append [of ap_AppId "pt_list t" "pt_count t" p] assms
    by (simp add: policy_inv_def GuardianPolicyFindLocked_def GUARDIAN_MAX_POLICIES_def)
qed (use assms in simp_all)

lemma policy_set_find:
  assumes "policy_inv t" and "length (ap_AppId p) = 16" and "length k = 16"
    and "GuardianAppPolicySet a (Some p) t = (s, t')" and "NT_SUCCESS s"
  shows "GuardianPolicyFindLocked k t' =
    (if k = ap_AppId p then Some p else GuardianPolicyFindLocked k t)"
  using assms(4)
proof (cases rule: GuardianAppPolicySet_cases)
  case (update q)
  then show ?thesis
    using key_find_replace [of ap_AppId "pt_list t" p k] assms
    by (simp add: policy_inv_def table_inv_def GuardianPolicyFindLocked_def)
next
  case (insert q)
  then show ?thesis
    using key_find_append [of ap_AppId "pt_list t" p k] assms
    by (simp add: policy_inv_def table_inv_def GuardianPolicyFindLocked_def)
qed (use assms in simp_all)

interpretation policy_tab: app_table_sync ap_AppId "\<lambda>p. length (ap_AppId p) = 16" policy_inv
  GuardianPolicyFindLocked GuardianAppPolicyInitialize GuardianAppPolicySet
  GuardianAppPolicyRemove policy_sync_loop
proof
  fix a k k' p x s t t' i n and alloc :: "nat \<Rightarrow> bool" and rd
  show "policy_inv GuardianAppPolicyInitialize"
    by (simp add: policy_inv_def GuardianAppPolicyInitialize_def)
  show "GuardianPolicyFindLocked k GuardianAppPolicyInitialize = None"
    by (simp add: GuardianPolicyFindLocked_def GuardianAppPolicyInitialize_def)
  show "policy_inv t \<Longrightarrow> length (ap_AppId p) = 16 \<Longrightarrow>
      policy_inv (snd (GuardianAppPolicySet a (Some p) t))"
    using policy_set_inv by (metis prod.collapse)
  show "policy_inv t \<Longrightarrow> length (ap_AppId p) = 16 \<Longrightarrow> length k = 16 \<Longrightarrow>
      GuardianAppPolicySet a (Some p) t = (s, t') \<Longrightarrow> NT_SUCCESS s \<Longrightarrow>
      GuardianPolicyFindLocked k t' =
        (if k = ap_AppId p then Some p else GuardianPolicyFindLocked k t)"
    by (rule policy_set_find)
  show "GuardianAppPolicySet a x t = (s, t') \<Longrightarrow> \<not> NT_SUCCESS s \<Longrightarrow> t' = t"
    by (erule GuardianAppPolicySet_cases) simp_all
  show "policy_inv t \<Longrightarrow> length k = 16 \<Longrightarrow> policy_inv (snd (GuardianAppPolicyRemove k t))"
    by (auto simp: GuardianAppPolicyRemove_def policy_inv_def GuardianPolicyFindLocked_def
        table_inv_remove split: option.splits)
  show "policy_inv t \<Longrightarrow> length k = 16 \<Longrightarrow> length k' = 16 \<Longrightarrow>
      GuardianAppPolicyRemove k t = (s, t') \<Longrightarrow> NT_SUCCESS s \<Longrightarrow>
      GuardianPolicyFindLocked k' t' = (if k' = k then None else GuardianPolicyFindLocked k' t)"
    by (auto simp: GuardianAppPolicyRemove_def policy_inv_def table_inv_def
        GuardianPolicyFindLocked_def key_find_remove split: option.splits)
  show "GuardianAppPolicyRemove k t = (s, t') \<Longrightarrow> \<not> NT_SUCCESS s \<Longrightarrow>
      t' = t \<and> GuardianPolicyFindLocked k t = None"
    by (auto simp: GuardianAppPolicyRemove_def split: option.splits)
  show "policy_sync_loop alloc rd i 0 t = Inr (STATUS_SUCCESS, t)" by simp
  show "rd i = Truncated v \<Longrightarrow> policy_sync_loop alloc rd i (Suc n) t = Inr (s, t') \<Longrightarrow>
      t' = t \<and> \<not> NT_SUCCESS s" for v
    by (auto split: option.splits if_splits)
  show "rd i = Readable p \<Longrightarrow> GuardianAppPolicySet (alloc i) (Some p) t = (s, t') \<Longrightarrow>
      policy_sync_loop alloc rd i (Suc n) t =
        (if NT_SUCCESS s then policy_sync_loop alloc rd (Suc i) n t' else Inr (s, t'))"
    by simp
qed simp

section \<open>What a lookup matches\<close>

text \<open>The first policy the lookup can match.\<close>

definition policy_matches :: "bytes option \<Rightarrow> GUARDIAN_APP_POLICY_V1 \<Rightarrow> bool" where
  "policy_matches blob p \<longleftrightarrow>
     ap_MatchKind p = match_kind_code GuardianMatchNone \<or>
     ap_MatchKind p = match_kind_code GuardianMatchProcessPath \<and> (\<exists>b. blob = Some b \<and> b \<noteq> [])"

lemma policy_lookup_loop_find:
  "policy_lookup_loop blob ps = List.find (policy_matches blob) ps"
  by (induction blob ps rule: policy_lookup_loop.induct) (auto simp: policy_matches_def)

text \<open>The values of an IPv4 connection whose application id field holds the given blob.\<close>

definition connect_v4 :: "bytes option \<Rightarrow> FWPS_INCOMING_VALUES0" where
  "connect_v4 blob = \<lparr>iv_layerId = FWPS_LAYER_ALE_AUTH_CONNECT_V4,
     iv_incomingValue = (\<lambda>_. FWP_BYTE_BLOB_TYPE blob)\<rparr>"

lemma app_id_blob_connect_v4 [simp]: "app_id_blob (connect_v4 blob) = blob"
  by (simp add: app_id_blob_def connect_v4_def)

section \<open>Properties\<close>

lemma policy_set_success_iff:
  "NT_SUCCESS (fst (GuardianAppPolicySet alloc (Some p) t)) \<longleftrightarrow>
     ap_Version p = GUARDIAN_APP_POLICY_VERSION \<and> alloc \<and>
     (GuardianPolicyFindLocked (ap_AppId p) t \<noteq> None \<or> pt_count t < GUARDIAN_MAX_POLICIES)"
  by (auto simp: GuardianAppPolicySet_def not_le split: option.splits)

lemma pt_list_empty [simp]: "pt_list GuardianAppPolicyInitialize = []"
  by (simp add: GuardianAppPolicyInitialize_def)

text \<open>
  C25: On a well-formed policy table, setting a policy refines the update of a finite map from
  application ids to policies: it succeeds exactly when the version is current, the allocation
  succeeds and the id is present or the table has fewer than 4096 entries; on success the id
  maps to the new policy and every other id to what it did, on failure nothing changes, and the
  table stays well-formed with its counter equal to the number of ids.
\<close>

theorem policy_set_updates_map:
  assumes "policy_inv t" and "length (ap_AppId p) = 16"
  shows "case GuardianAppPolicySet alloc (Some p) t of (st, t') \<Rightarrow>
    policy_inv t' \<and>
    (NT_SUCCESS st \<longleftrightarrow>
       ap_Version p = GUARDIAN_APP_POLICY_VERSION \<and> alloc \<and>
       (GuardianPolicyFindLocked (ap_AppId p) t \<noteq> None \<or> length (pt_list t) < 4096)) \<and>
    (if NT_SUCCESS st
     then \<forall>k. length k = 16 \<longrightarrow> GuardianPolicyFindLocked k t' =
            (if k = ap_AppId p then Some p else GuardianPolicyFindLocked k t)
     else t' = t) \<and>
    unat (GuardianAppPolicyActiveCount t') = card (ap_AppId ` set (pt_list t'))"
proof (cases "GuardianAppPolicySet alloc (Some p) t")
  case (Pair st t')
  have inv: "policy_inv t'" by (rule policy_set_inv [OF assms Pair])
  have full: "pt_count t < GUARDIAN_MAX_POLICIES \<longleftrightarrow> length (pt_list t) < 4096"
    using assms(1)
    by (simp add: policy_inv_def table_inv_def GUARDIAN_MAX_POLICIES_def word_less_nat_alt)
  have "unat (GuardianAppPolicyActiveCount t') = card (ap_AppId ` set (pt_list t'))"
    using inv table_inv_card by (auto simp: policy_inv_def GuardianAppPolicyActiveCount_def)
  then show ?thesis
    using policy_set_success_iff [of alloc p t] policy_set_find [OF assms _ Pair]
      policy_tab.set_failure [OF Pair] Pair inv full
    by simp
qed

theorem policy_set_updates_map_witness:
  "case GuardianAppPolicySet True (Some (zero_app_policy\<lparr>ap_Version := 1\<rparr>))
      GuardianAppPolicyInitialize of (st, t') \<Rightarrow> NT_SUCCESS st \<and> policy_inv t'"
  using policy_set_updates_map [of GuardianAppPolicyInitialize
      "zero_app_policy\<lparr>ap_Version := 1\<rparr>" True]
  by (auto simp: policy_tab.inv_empty zero_app_policy_def GUARDIAN_APP_POLICY_VERSION_def
      pt_list_empty split: prod.splits)

lemma policy_remove_deletes:
  assumes "policy_inv t" and "length appId = 16"
  shows "case GuardianAppPolicyRemove appId t of (st, t') \<Rightarrow>
    policy_inv t' \<and> (NT_SUCCESS st \<longleftrightarrow> appId \<in> ap_AppId ` set (pt_list t)) \<and>
    (\<not> NT_SUCCESS st \<longrightarrow> st = STATUS_NOT_FOUND \<and> t' = t) \<and>
    (\<forall>k. length k = 16 \<longrightarrow> GuardianPolicyFindLocked k t' =
       (if k = appId then None else GuardianPolicyFindLocked k t))"
proof (cases "GuardianAppPolicyRemove appId t")
  case (Pair st t')
  have "GuardianPolicyFindLocked appId t = None \<longleftrightarrow> appId \<notin> ap_AppId ` set (pt_list t)"
    using assms
    by (simp add: GuardianPolicyFindLocked_def key_find_None policy_inv_def table_inv_def)
  with Pair have "NT_SUCCESS st \<longleftrightarrow> appId \<in> ap_AppId ` set (pt_list t)"
    and "\<not> NT_SUCCESS st \<longrightarrow> st = STATUS_NOT_FOUND \<and> t' = t"
    by (auto simp: GuardianAppPolicyRemove_def split: option.splits)
  moreover have "GuardianPolicyFindLocked k t' =
      (if k = appId then None else GuardianPolicyFindLocked k t)" if "length k = 16" for k
    using policy_tab.remove_success [OF assms that Pair] policy_tab.remove_failure [OF Pair]
    by (cases "NT_SUCCESS st") auto
  ultimately show ?thesis using policy_tab.remove_inv [OF assms] Pair by auto
qed

text \<open>
  C6: A policy sync that succeeds replaces the whole table by the synced array: afterwards the
  table is well-formed and looking up any application id gives the last element of the array
  with that id, whatever the table held before; and a successful sync has at most 256 elements.
\<close>

theorem policy_sync_refills:
  assumes "\<And>i p. policies i = Readable p \<Longrightarrow> length (ap_AppId p) = 16"
    and "GuardianAppPolicySync alloc (Some policies) count t = Inr (st, t')" and "NT_SUCCESS st"
    and "length k = 16"
  shows "policy_inv t' \<and> count \<le> 256 \<and>
    GuardianPolicyFindLocked k t' =
      List.find (\<lambda>p. ap_AppId p = k) (rev (map (the_cell \<circ> policies) [0 ..< unat count]))"
proof -
  let ?t0 = GuardianAppPolicyInitialize
  have wf: "policy_tab.elements_wf policies"
    using assms(1) by (simp add: policy_tab.elements_wf_def)
  have run: "policy_sync_loop alloc policies 0 (unat count) ?t0 = Inr (st, t')"
    and "count \<le> 256"
    using assms(2,3)
    by (auto simp: GuardianAppPolicySync_def GUARDIAN_MAX_SYNC_POLICIES_def Let_def not_less
        split: if_splits)
  then show ?thesis
    using policy_tab.loop_inv [OF policy_tab.inv_empty wf run]
      policy_tab.loop_lookup [OF policy_tab.inv_empty wf run assms(3,4)]
    by (simp add: policy_tab.lookup_empty split: option.splits)
qed

theorem policy_sync_refills_witness:
  "GuardianPolicyFindLocked (replicate 16 7)
     (snd (projr (GuardianAppPolicySync (\<lambda>_. True)
        (Some (\<lambda>i. Readable (zero_app_policy\<lparr>ap_Version := 1, ap_AppId := replicate 16 7,
                                            ap_Action := of_nat i\<rparr>))) 2
        GuardianAppPolicyInitialize))) =
   Some (zero_app_policy\<lparr>ap_Version := 1, ap_AppId := replicate 16 7, ap_Action := 1\<rparr>)"
proof -
  let ?rd = "\<lambda>i. Readable (zero_app_policy\<lparr>ap_Version := 1, ap_AppId := replicate 16 7,
                                            ap_Action := of_nat i\<rparr>)"
  have two: "unat (2 :: u32) = Suc (Suc 0)" by simp
  obtain st t' where run:
    "GuardianAppPolicySync (\<lambda>_. True) (Some ?rd) 2 GuardianAppPolicyInitialize = Inr (st, t')"
    and ok: "NT_SUCCESS st"
    unfolding GuardianAppPolicySync_def two
    by (simp add: GUARDIAN_MAX_SYNC_POLICIES_def Let_def
        GuardianAppPolicySet_def GUARDIAN_APP_POLICY_VERSION_def GuardianPolicyFindLocked_def
        GuardianAppPolicyInitialize_def key_find_Cons GUARDIAN_MAX_POLICIES_def)
  from policy_sync_refills [OF _ run ok, of "replicate 16 7"] run show ?thesis
    by simp
qed

text \<open>
  A policy sync within the count limit that fails is not undone: the table it leaves is the
  one that syncing only the elements before the failing one gives, and that element is refused
  on this table; the former policies are gone.
\<close>

lemma policy_sync_failure_keeps_prefix:
  assumes "GuardianAppPolicySync alloc (Some policies) count t = Inr (st, t')"
    and "\<not> NT_SUCCESS st" and "count \<le> 256"
  shows "\<exists>m. m < unat count \<and>
    GuardianAppPolicySync alloc (Some policies) (of_nat m) t = Inr (STATUS_SUCCESS, t') \<and>
    (case policies m of
       Readable p \<Rightarrow> GuardianAppPolicySet (alloc m) (Some p) t' = (st, t') | Truncated v \<Rightarrow> True)"
proof -
  have run: "policy_sync_loop alloc policies 0 (unat count) GuardianAppPolicyInitialize =
      Inr (st, t')"
    using assms
    by (simp add: GuardianAppPolicySync_def GUARDIAN_MAX_SYNC_POLICIES_def Let_def not_less
        split: if_splits)
  obtain m where m: "m < unat count"
    and "policy_sync_loop alloc policies 0 m GuardianAppPolicyInitialize = Inr (STATUS_SUCCESS, t')"
    and "case policies m of
      Readable p \<Rightarrow> GuardianAppPolicySet (alloc m) (Some p) t' = (st, t') | Truncated v \<Rightarrow> True"
    using policy_tab.loop_failure [OF run assms(2)] by (auto cong: cell.case_cong)
  moreover have "m \<le> 256" using m assms(3) by (simp add: word_le_nat_alt)
  then have "unat (of_nat m :: u32) = m" and "(of_nat m :: u32) \<le> 256"
    by (simp_all add: unat_of_nat word_le_nat_alt)
  ultimately show ?thesis
    by (intro exI [of _ m])
      (simp add: GuardianAppPolicySync_def GUARDIAN_MAX_SYNC_POLICIES_def Let_def not_less)
qed

lemma policy_sync_failure_keeps_prefix_witness:
  "\<exists>st t'. GuardianAppPolicySync (\<lambda>_. True)
      (Some (\<lambda>i. Readable (zero_app_policy\<lparr>ap_Version := 1 - of_nat i\<rparr>))) 2
      GuardianAppPolicyInitialize = Inr (st, t') \<and> \<not> NT_SUCCESS st \<and>
    (\<exists>m p. m < (2 :: nat) \<and> GuardianAppPolicySet True (Some p) t' = (st, t'))"
proof -
  let ?rd = "\<lambda>i. Readable (zero_app_policy\<lparr>ap_Version := 1 - of_nat i\<rparr>)"
  have two: "unat (2 :: u32) = Suc (Suc 0)" by simp
  obtain st t' where run:
    "GuardianAppPolicySync (\<lambda>_. True) (Some ?rd) 2 GuardianAppPolicyInitialize = Inr (st, t')"
    and bad: "\<not> NT_SUCCESS st"
    unfolding GuardianAppPolicySync_def two
    by (simp add: GUARDIAN_MAX_SYNC_POLICIES_def Let_def
        GuardianAppPolicySet_def GUARDIAN_APP_POLICY_VERSION_def GuardianPolicyFindLocked_def
        GuardianAppPolicyInitialize_def key_find_Cons GUARDIAN_MAX_POLICIES_def)
  from policy_sync_failure_keeps_prefix [OF run bad] run bad show ?thesis by auto
qed

lemma policy_lookup_first_match:
  "GuardianAppPolicyLookup (Some v) t = (STATUS_SUCCESS, p, True) \<longleftrightarrow>
     (\<exists>earlier later. pt_list t = earlier @ p # later \<and> policy_matches (app_id_blob v) p \<and>
        filter (policy_matches (app_id_blob v)) earlier = [])"
  unfolding find_Some_split [symmetric]
  by (simp add: GuardianAppPolicyLookup_def policy_lookup_loop_find split: option.splits)

text \<open>
  C26: The lookup does not tell applications apart: two connections whose application id fields
  hold any non-empty blobs get the same policy, and some policy is found exactly when the table
  has one with match kind None or ProcessPath; path, hash, SID and package family are never
  compared.
\<close>

theorem lookup_same_for_every_application:
  assumes "app_id_blob v = Some b" and "b \<noteq> []" and "app_id_blob v' = Some b'" and "b' \<noteq> []"
  shows "GuardianAppPolicyLookup (Some v) t = GuardianAppPolicyLookup (Some v') t \<and>
    (snd (snd (GuardianAppPolicyLookup (Some v) t)) \<longleftrightarrow>
       (\<exists>p \<in> set (pt_list t). ap_MatchKind p = match_kind_code GuardianMatchNone \<or>
          ap_MatchKind p = match_kind_code GuardianMatchProcessPath))"
proof -
  have "policy_matches (app_id_blob v) = policy_matches (app_id_blob v')"
    using assms by (auto simp: policy_matches_def fun_eq_iff)
  moreover have "List.find (policy_matches (app_id_blob v)) (pt_list t) = None \<longleftrightarrow>
      (\<forall>p \<in> set (pt_list t). \<not> policy_matches (app_id_blob v) p)"
    by (auto simp: find_None_iff)
  ultimately show ?thesis using assms
    by (auto simp: GuardianAppPolicyLookup_def policy_lookup_loop_find policy_matches_def
        simp del: match_kind_code.simps split: option.splits)
qed

theorem lookup_same_for_every_application_witness:
  "GuardianAppPolicyLookup (Some (connect_v4 (Some [1, 0])))
       \<lparr>pt_list = [zero_app_policy\<lparr>ap_MatchKind := 1, ap_ExePath := 65 # replicate 519 0\<rparr>],
         pt_count = 1\<rparr> =
   GuardianAppPolicyLookup (Some (connect_v4 (Some [2, 0])))
       \<lparr>pt_list = [zero_app_policy\<lparr>ap_MatchKind := 1, ap_ExePath := 65 # replicate 519 0\<rparr>],
         pt_count = 1\<rparr>"
  using lookup_same_for_every_application [of "connect_v4 (Some [1, 0])" "[1, 0]"
      "connect_v4 (Some [2, 0])" "[2, 0]"] by simp

end
