(* ===== verification/Route_Assignment.thy ===== *)
theory Route_Assignment
  imports App_Table Structures
begin

text \<open>
  driver/route/route_assignment.c: the per-application route table, the policy table's sibling: the
  same list discipline over GUARDIAN\_ROUTE\_ASSIGNMENT\_V1 entries, and a lookup by application id.
\<close>

record route_table =
  rt_list :: "GUARDIAN_ROUTE_ASSIGNMENT_V1 list"
  rt_count :: u32

definition GUARDIAN_MAX_ROUTES :: u32 where "GUARDIAN_MAX_ROUTES = 4096"

definition GuardianRouteInitialize :: route_table where
  "GuardianRouteInitialize = \<lparr>rt_list = [], rt_count = 0\<rparr>"

definition GuardianRouteShutdown :: "route_table \<Rightarrow> route_table" where
  "GuardianRouteShutdown t = t\<lparr>rt_list := drain_list (rt_list t), rt_count := 0\<rparr>"

definition GuardianRouteFindLocked ::
  "bytes \<Rightarrow> route_table \<Rightarrow> GUARDIAN_ROUTE_ASSIGNMENT_V1 option" where
  "GuardianRouteFindLocked appId t = key_find ra_AppId (rt_list t) appId"

definition GuardianRouteSet ::
  "bool \<Rightarrow> GUARDIAN_ROUTE_ASSIGNMENT_V1 option \<Rightarrow> route_table \<Rightarrow> ntstatus \<times> route_table" where
  "GuardianRouteSet alloc route t =
     (case route of
        None \<Rightarrow> (STATUS_INVALID_PARAMETER, t)
      | Some r \<Rightarrow>
          if ra_Version r \<noteq> GUARDIAN_ROUTE_ASSIGNMENT_VERSION then (STATUS_INVALID_PARAMETER, t)
          else if \<not> alloc then (STATUS_INSUFFICIENT_RESOURCES, t)
          else (case GuardianRouteFindLocked (ra_AppId r) t of
                  Some existing \<Rightarrow>
                    (STATUS_SUCCESS,
                     t\<lparr>rt_list :=
                         replace_first (\<lambda>x. same_app_id (ra_AppId x) (ra_AppId r)) r (rt_list t)\<rparr>)
                | None \<Rightarrow>
                    if GUARDIAN_MAX_ROUTES \<le> rt_count t then (STATUS_INSUFFICIENT_RESOURCES, t)
                    else (STATUS_SUCCESS,
                          t\<lparr>rt_list := rt_list t @ [r], rt_count := rt_count t + 1\<rparr>)))"

definition GuardianRouteClear :: "bytes \<Rightarrow> route_table \<Rightarrow> ntstatus \<times> route_table" where
  "GuardianRouteClear appId t =
     (case GuardianRouteFindLocked appId t of
        None \<Rightarrow> (STATUS_NOT_FOUND, t)
      | Some existing \<Rightarrow>
          (STATUS_SUCCESS,
           t\<lparr>rt_list := remove_first (\<lambda>x. same_app_id (ra_AppId x) appId) (rt_list t),
             rt_count := rt_count t - 1\<rparr>))"

fun route_sync_loop ::
  "(nat \<Rightarrow> bool) \<Rightarrow> (nat \<Rightarrow> GUARDIAN_ROUTE_ASSIGNMENT_V1 cell) \<Rightarrow> nat \<Rightarrow> nat \<Rightarrow> route_table \<Rightarrow>
     fault + (ntstatus \<times> route_table)" where
  "route_sync_loop alloc routes i 0 t = Inr (STATUS_SUCCESS, t)"
| "route_sync_loop alloc routes i (Suc n) t =
     (case routes i of
        Truncated None \<Rightarrow> Inl OutOfBounds
      | Truncated (Some version) \<Rightarrow>
          if version \<noteq> GUARDIAN_ROUTE_ASSIGNMENT_VERSION then Inr (STATUS_INVALID_PARAMETER, t)
          else if \<not> alloc i then Inr (STATUS_INSUFFICIENT_RESOURCES, t)
          else Inl OutOfBounds
      | Readable r \<Rightarrow>
          (case GuardianRouteSet (alloc i) (Some r) t of (status, t') \<Rightarrow>
             if NT_SUCCESS status then route_sync_loop alloc routes (Suc i) n t'
             else Inr (status, t')))"

definition GuardianRouteSync ::
  "(nat \<Rightarrow> bool) \<Rightarrow> (nat \<Rightarrow> GUARDIAN_ROUTE_ASSIGNMENT_V1 cell) option \<Rightarrow> u32 \<Rightarrow> route_table \<Rightarrow>
     fault + (ntstatus \<times> route_table)" where
  "GuardianRouteSync alloc routes count t =
     (case routes of
        None \<Rightarrow> Inr (STATUS_INVALID_PARAMETER, t)
      | Some rd \<Rightarrow>
          if GUARDIAN_MAX_SYNC_ROUTES < count then Inr (STATUS_INVALID_PARAMETER, t)
          else let t1 = GuardianRouteShutdown t; t2 = GuardianRouteInitialize
               in route_sync_loop alloc rd 0 (unat count) t2)"

definition zero_route :: GUARDIAN_ROUTE_ASSIGNMENT_V1 where
  "zero_route = \<lparr>ra_Version = 0, ra_AppId = replicate 16 0, ra_RouteKind = 0, ra_ProfileId = 0,
     ra_InterfaceLuid = 0, ra_SocksPort = 0, ra_Reserved = replicate 6 0\<rparr>"

definition GuardianRouteLookup ::
  "bytes \<Rightarrow> route_table \<Rightarrow> ntstatus \<times> GUARDIAN_ROUTE_ASSIGNMENT_V1 \<times> bool" where
  "GuardianRouteLookup appId t =
     (case GuardianRouteFindLocked appId t of
        Some existing \<Rightarrow> (STATUS_SUCCESS, existing, True)
      | None \<Rightarrow> (STATUS_SUCCESS, zero_route, False))"

definition GuardianRouteActiveCount :: "route_table \<Rightarrow> u32" where
  "GuardianRouteActiveCount t = rt_count t"

section \<open>The table invariant and the table contract\<close>

definition route_inv :: "route_table \<Rightarrow> bool" where
  "route_inv t \<longleftrightarrow> table_inv ra_AppId 4096 (rt_list t) (rt_count t)"

lemma GuardianRouteSet_cases:
  assumes "GuardianRouteSet alloc route t = (s, t')"
  obtains (reject) "s = STATUS_INVALID_PARAMETER" and "t' = t"
      and "\<And>r. route = Some r \<Longrightarrow> ra_Version r \<noteq> GUARDIAN_ROUTE_ASSIGNMENT_VERSION"
  | (exhausted) "s = STATUS_INSUFFICIENT_RESOURCES" and "t' = t"
  | (update) r where "route = Some r" and "ra_Version r = GUARDIAN_ROUTE_ASSIGNMENT_VERSION"
      and "alloc" and "s = STATUS_SUCCESS" and "GuardianRouteFindLocked (ra_AppId r) t \<noteq> None"
      and "t' = t\<lparr>rt_list :=
             replace_first (\<lambda>x. same_app_id (ra_AppId x) (ra_AppId r)) r (rt_list t)\<rparr>"
  | (insert) r where "route = Some r" and "ra_Version r = GUARDIAN_ROUTE_ASSIGNMENT_VERSION"
      and "alloc" and "s = STATUS_SUCCESS" and "GuardianRouteFindLocked (ra_AppId r) t = None"
      and "rt_count t < GUARDIAN_MAX_ROUTES"
      and "t' = t\<lparr>rt_list := rt_list t @ [r], rt_count := rt_count t + 1\<rparr>"
  using assms by (auto simp: GuardianRouteSet_def not_le split: option.splits if_splits)

lemma route_set_inv:
  assumes "route_inv t" and "length (ra_AppId r) = 16"
    and "GuardianRouteSet a (Some r) t = (s, t')"
  shows "route_inv t'"
  using assms(3)
proof (cases rule: GuardianRouteSet_cases)
  case (update q)
  then show ?thesis
    using table_inv_replace [of ra_AppId 4096 "rt_list t" "rt_count t" r] assms
    by (simp add: route_inv_def)
next
  case (insert q)
  then show ?thesis
    using table_inv_append [of ra_AppId "rt_list t" "rt_count t" r] assms
    by (simp add: route_inv_def GuardianRouteFindLocked_def GUARDIAN_MAX_ROUTES_def)
qed (use assms in simp_all)

lemma route_set_find:
  assumes "route_inv t" and "length (ra_AppId r) = 16" and "length k = 16"
    and "GuardianRouteSet a (Some r) t = (s, t')" and "NT_SUCCESS s"
  shows "GuardianRouteFindLocked k t' =
    (if k = ra_AppId r then Some r else GuardianRouteFindLocked k t)"
  using assms(4)
proof (cases rule: GuardianRouteSet_cases)
  case (update q)
  then show ?thesis
    using key_find_replace [of ra_AppId "rt_list t" r k] assms
    by (simp add: route_inv_def table_inv_def GuardianRouteFindLocked_def)
next
  case (insert q)
  then show ?thesis
    using key_find_append [of ra_AppId "rt_list t" r k] assms
    by (simp add: route_inv_def table_inv_def GuardianRouteFindLocked_def)
qed (use assms in simp_all)

interpretation route_tab: app_table_sync ra_AppId "\<lambda>r. length (ra_AppId r) = 16" route_inv
  GuardianRouteFindLocked GuardianRouteInitialize GuardianRouteSet GuardianRouteClear
  route_sync_loop
proof
  fix a k k' r x s t t' i n and alloc :: "nat \<Rightarrow> bool" and rd
  show "route_inv GuardianRouteInitialize"
    by (simp add: route_inv_def GuardianRouteInitialize_def)
  show "GuardianRouteFindLocked k GuardianRouteInitialize = None"
    by (simp add: GuardianRouteFindLocked_def GuardianRouteInitialize_def)
  show "route_inv t \<Longrightarrow> length (ra_AppId r) = 16 \<Longrightarrow>
      route_inv (snd (GuardianRouteSet a (Some r) t))"
    using route_set_inv by (metis prod.collapse)
  show "route_inv t \<Longrightarrow> length (ra_AppId r) = 16 \<Longrightarrow> length k = 16 \<Longrightarrow>
      GuardianRouteSet a (Some r) t = (s, t') \<Longrightarrow> NT_SUCCESS s \<Longrightarrow>
      GuardianRouteFindLocked k t' =
        (if k = ra_AppId r then Some r else GuardianRouteFindLocked k t)"
    by (rule route_set_find)
  show "GuardianRouteSet a x t = (s, t') \<Longrightarrow> \<not> NT_SUCCESS s \<Longrightarrow> t' = t"
    by (erule GuardianRouteSet_cases) simp_all
  show "route_inv t \<Longrightarrow> length k = 16 \<Longrightarrow> route_inv (snd (GuardianRouteClear k t))"
    by (auto simp: GuardianRouteClear_def route_inv_def GuardianRouteFindLocked_def
        table_inv_remove split: option.splits)
  show "route_inv t \<Longrightarrow> length k = 16 \<Longrightarrow> length k' = 16 \<Longrightarrow>
      GuardianRouteClear k t = (s, t') \<Longrightarrow> NT_SUCCESS s \<Longrightarrow>
      GuardianRouteFindLocked k' t' = (if k' = k then None else GuardianRouteFindLocked k' t)"
    by (auto simp: GuardianRouteClear_def route_inv_def table_inv_def
        GuardianRouteFindLocked_def key_find_remove split: option.splits)
  show "GuardianRouteClear k t = (s, t') \<Longrightarrow> \<not> NT_SUCCESS s \<Longrightarrow>
      t' = t \<and> GuardianRouteFindLocked k t = None"
    by (auto simp: GuardianRouteClear_def split: option.splits)
  show "route_sync_loop alloc rd i 0 t = Inr (STATUS_SUCCESS, t)" by simp
  show "rd i = Truncated v \<Longrightarrow> route_sync_loop alloc rd i (Suc n) t = Inr (s, t') \<Longrightarrow>
      t' = t \<and> \<not> NT_SUCCESS s" for v
    by (auto split: option.splits if_splits)
  show "rd i = Readable r \<Longrightarrow> GuardianRouteSet (alloc i) (Some r) t = (s, t') \<Longrightarrow>
      route_sync_loop alloc rd i (Suc n) t =
        (if NT_SUCCESS s then route_sync_loop alloc rd (Suc i) n t' else Inr (s, t'))"
    by simp
qed simp

section \<open>Properties\<close>

lemma route_set_success_iff:
  "NT_SUCCESS (fst (GuardianRouteSet alloc (Some p) t)) \<longleftrightarrow>
     ra_Version p = GUARDIAN_ROUTE_ASSIGNMENT_VERSION \<and> alloc \<and>
     (GuardianRouteFindLocked (ra_AppId p) t \<noteq> None \<or> rt_count t < GUARDIAN_MAX_ROUTES)"
  by (auto simp: GuardianRouteSet_def not_le split: option.splits)

lemma rt_list_empty [simp]: "rt_list GuardianRouteInitialize = []"
  by (simp add: GuardianRouteInitialize_def)

lemma route_set_updates_map:
  assumes "route_inv t" and "length (ra_AppId p) = 16"
  shows "case GuardianRouteSet alloc (Some p) t of (st, t') \<Rightarrow>
    route_inv t' \<and>
    (NT_SUCCESS st \<longleftrightarrow>
       ra_Version p = GUARDIAN_ROUTE_ASSIGNMENT_VERSION \<and> alloc \<and>
       (GuardianRouteFindLocked (ra_AppId p) t \<noteq> None \<or> length (rt_list t) < 4096)) \<and>
    (if NT_SUCCESS st
     then \<forall>k. length k = 16 \<longrightarrow> GuardianRouteFindLocked k t' =
            (if k = ra_AppId p then Some p else GuardianRouteFindLocked k t)
     else t' = t) \<and>
    unat (GuardianRouteActiveCount t') = card (ra_AppId ` set (rt_list t'))"
proof (cases "GuardianRouteSet alloc (Some p) t")
  case (Pair st t')
  have inv: "route_inv t'" by (rule route_set_inv [OF assms Pair])
  have full: "rt_count t < GUARDIAN_MAX_ROUTES \<longleftrightarrow> length (rt_list t) < 4096"
    using assms(1)
    by (simp add: route_inv_def table_inv_def GUARDIAN_MAX_ROUTES_def word_less_nat_alt)
  have "unat (GuardianRouteActiveCount t') = card (ra_AppId ` set (rt_list t'))"
    using inv table_inv_card by (auto simp: route_inv_def GuardianRouteActiveCount_def)
  then show ?thesis
    using route_set_success_iff [of alloc p t] route_set_find [OF assms _ Pair]
      route_tab.set_failure [OF Pair] Pair inv full
    by simp
qed

lemma route_set_updates_map_witness:
  "case GuardianRouteSet True (Some (zero_route\<lparr>ra_Version := 1\<rparr>))
      GuardianRouteInitialize of (st, t') \<Rightarrow> NT_SUCCESS st \<and> route_inv t'"
  using route_set_updates_map [of GuardianRouteInitialize
      "zero_route\<lparr>ra_Version := 1\<rparr>" True]
  by (auto simp: route_tab.inv_empty zero_route_def GUARDIAN_ROUTE_ASSIGNMENT_VERSION_def
      rt_list_empty split: prod.splits)

lemma route_clear_deletes:
  assumes "route_inv t" and "length appId = 16"
  shows "case GuardianRouteClear appId t of (st, t') \<Rightarrow>
    route_inv t' \<and> (NT_SUCCESS st \<longleftrightarrow> appId \<in> ra_AppId ` set (rt_list t)) \<and>
    (\<not> NT_SUCCESS st \<longrightarrow> st = STATUS_NOT_FOUND \<and> t' = t) \<and>
    (\<forall>k. length k = 16 \<longrightarrow> GuardianRouteFindLocked k t' =
       (if k = appId then None else GuardianRouteFindLocked k t))"
proof (cases "GuardianRouteClear appId t")
  case (Pair st t')
  have "GuardianRouteFindLocked appId t = None \<longleftrightarrow> appId \<notin> ra_AppId ` set (rt_list t)"
    using assms
    by (simp add: GuardianRouteFindLocked_def key_find_None route_inv_def table_inv_def)
  with Pair have "NT_SUCCESS st \<longleftrightarrow> appId \<in> ra_AppId ` set (rt_list t)"
    and "\<not> NT_SUCCESS st \<longrightarrow> st = STATUS_NOT_FOUND \<and> t' = t"
    by (auto simp: GuardianRouteClear_def split: option.splits)
  moreover have "GuardianRouteFindLocked k t' =
      (if k = appId then None else GuardianRouteFindLocked k t)" if "length k = 16" for k
    using route_tab.remove_success [OF assms that Pair] route_tab.remove_failure [OF Pair]
    by (cases "NT_SUCCESS st") auto
  ultimately show ?thesis using route_tab.remove_inv [OF assms] Pair by auto
qed

lemma route_sync_refills:
  assumes "\<And>i p. routes i = Readable p \<Longrightarrow> length (ra_AppId p) = 16"
    and "GuardianRouteSync alloc (Some routes) count t = Inr (st, t')" and "NT_SUCCESS st"
    and "length k = 16"
  shows "route_inv t' \<and> count \<le> 512 \<and>
    GuardianRouteFindLocked k t' =
      List.find (\<lambda>p. ra_AppId p = k) (rev (map (the_cell \<circ> routes) [0 ..< unat count]))"
proof -
  let ?t0 = GuardianRouteInitialize
  have wf: "route_tab.elements_wf routes"
    using assms(1) by (simp add: route_tab.elements_wf_def)
  have run: "route_sync_loop alloc routes 0 (unat count) ?t0 = Inr (st, t')"
    and "count \<le> 512"
    using assms(2,3)
    by (auto simp: GuardianRouteSync_def GUARDIAN_MAX_SYNC_ROUTES_def Let_def not_less
        split: if_splits)
  then show ?thesis
    using route_tab.loop_inv [OF route_tab.inv_empty wf run]
      route_tab.loop_lookup [OF route_tab.inv_empty wf run assms(3,4)]
    by (simp add: route_tab.lookup_empty split: option.splits)
qed

lemma route_sync_refills_witness:
  "GuardianRouteFindLocked (replicate 16 7)
     (snd (projr (GuardianRouteSync (\<lambda>_. True)
        (Some (\<lambda>i. Readable (zero_route\<lparr>ra_Version := 1, ra_AppId := replicate 16 7,
                                            ra_InterfaceLuid := of_nat i\<rparr>))) 2
        GuardianRouteInitialize))) =
   Some (zero_route\<lparr>ra_Version := 1, ra_AppId := replicate 16 7, ra_InterfaceLuid := 1\<rparr>)"
proof -
  let ?rd = "\<lambda>i. Readable (zero_route\<lparr>ra_Version := 1, ra_AppId := replicate 16 7,
                                            ra_InterfaceLuid := of_nat i\<rparr>)"
  have two: "unat (2 :: u32) = Suc (Suc 0)" by simp
  obtain st t' where run:
    "GuardianRouteSync (\<lambda>_. True) (Some ?rd) 2 GuardianRouteInitialize = Inr (st, t')"
    and ok: "NT_SUCCESS st"
    unfolding GuardianRouteSync_def two
    by (simp add: GUARDIAN_MAX_SYNC_ROUTES_def Let_def
        GuardianRouteSet_def GUARDIAN_ROUTE_ASSIGNMENT_VERSION_def GuardianRouteFindLocked_def
        GuardianRouteInitialize_def key_find_Cons GUARDIAN_MAX_ROUTES_def)
  from route_sync_refills [OF _ run ok, of "replicate 16 7"] run show ?thesis
    by simp
qed

end
