(* ===== verification/Kill_Switch.thy ===== *)
theory Kill_Switch
  imports Structures
begin

text \<open>
  driver/killswitch/killswitch.c, with the action enumeration of classify.h: the kill switch mode
  and VPN interface, how they are set over IOCTL, read at start-up from the registry, and evaluated
  on a connection.
\<close>

section \<open>Classify actions (classify.h)\<close>

datatype GUARDIAN_CLASSIFY_ACTION =
  GuardianActionPermit | GuardianActionBlock | GuardianActionRoute | GuardianActionObserve

section \<open>The registry\<close>

text \<open>
  The registry is outside the program: a value of this record says what ZwOpenKey returns for a
  path, and what ZwQueryValueKey with class KeyValuePartialInformation returns and writes for a
  value name and a buffer length. The routine's documentation: the information structure has a
  12-byte header (TitleIndex, Type, DataLength) before the data, so a buffer shorter than that
  header gets no data, with STATUS\_BUFFER\_TOO\_SMALL for a value that exists and
  STATUS\_OBJECT\_NAME\_NOT\_FOUND for one that does not. The hypothesis \<open>query_documented\<close> is
  only that nothing is written; the status, which the code ignores, may be any.
\<close>

datatype reg_value = RegKillSwitchMode | RegGuardianMode

record registry =
  reg_open :: ntstatus
  reg_query :: "reg_value \<Rightarrow> nat \<Rightarrow> ntstatus \<times> bytes"

definition query_documented :: "registry \<Rightarrow> bool" where
  "query_documented r \<longleftrightarrow>
     (\<forall>v n. n < 12 \<longrightarrow> snd (reg_query r v n) = [])"

text \<open>
  Both call sites pass the address and size of a ULONG, initialised before the call, as the
  information buffer, and ignore the status: what the call wrote lies over the initial value.
\<close>

definition query_ulong :: "registry \<Rightarrow> reg_value \<Rightarrow> u32 \<Rightarrow> u32" where
  "query_ulong r v initial = le_word (overlay (snd (reg_query r v 4)) (le_bytes 4 initial))"

lemma query_ulong_documented [simp]: "query_documented r \<Longrightarrow> query_ulong r v initial = initial"
  by (simp add: query_ulong_def query_documented_def)

section \<open>State and operations\<close>

record kill_switch_state =
  ks_Mode :: u32
  ks_VpnInterfaceLuid :: u64

definition GuardianKillSwitchInitialize :: "registry option \<Rightarrow> ntstatus \<times> kill_switch_state" where
  "GuardianKillSwitchInitialize RegistryPath =
     (let s = \<lparr>ks_Mode = ks_mode_code GuardianKsOff, ks_VpnInterfaceLuid = 0\<rparr>
      in case RegistryPath of
           None \<Rightarrow> (STATUS_SUCCESS, s)
         | Some r \<Rightarrow>
             if \<not> NT_SUCCESS (reg_open r) then (STATUS_SUCCESS, s)
             else let mode = query_ulong r RegKillSwitchMode 0
                  in if mode \<le> ks_mode_code GuardianKsRestore
                     then (STATUS_SUCCESS, s\<lparr>ks_Mode := mode\<rparr>)
                     else (STATUS_SUCCESS, s))"

definition GuardianKillSwitchShutdown :: "kill_switch_state \<Rightarrow> kill_switch_state" where
  "GuardianKillSwitchShutdown s = s"

definition GuardianKillSwitchSet ::
  "GUARDIAN_KILL_SWITCH_V1 option \<Rightarrow> kill_switch_state \<Rightarrow> ntstatus \<times> kill_switch_state" where
  "GuardianKillSwitchSet config s =
     (case config of
        None \<Rightarrow> (STATUS_INVALID_PARAMETER, s)
      | Some c \<Rightarrow>
          if kc_Version c \<noteq> GUARDIAN_KILL_SWITCH_VERSION then (STATUS_INVALID_PARAMETER, s)
          else if ks_mode_code GuardianKsRestore < kc_Mode c then (STATUS_INVALID_PARAMETER, s)
          else if kc_Mode c = ks_mode_code GuardianKsRestore
          then (STATUS_SUCCESS, s\<lparr>ks_Mode := ks_mode_code GuardianKsOff, ks_VpnInterfaceLuid := 0\<rparr>)
          else (STATUS_SUCCESS,
                s\<lparr>ks_Mode := kc_Mode c, ks_VpnInterfaceLuid := kc_VpnInterfaceLuid c\<rparr>))"

definition GuardianKillSwitchGetMode :: "kill_switch_state \<Rightarrow> u32" where
  "GuardianKillSwitchGetMode s = ks_Mode s"

definition GuardianKillSwitchVpnLuid :: "kill_switch_state \<Rightarrow> u64" where
  "GuardianKillSwitchVpnLuid s = ks_VpnInterfaceLuid s"

text \<open>
  The result is the BOOLEAN handled with the action written through the out parameter; None is
  handled = FALSE, where the parameter is not written.
\<close>

definition GuardianKillSwitchEvaluate ::
  "u64 \<Rightarrow> kill_switch_state \<Rightarrow> GUARDIAN_CLASSIFY_ACTION option" where
  "GuardianKillSwitchEvaluate interfaceLuid s =
     (let mode = ks_Mode s; vpnLuid = ks_VpnInterfaceLuid s
      in case enum_of ks_modes ks_mode_code mode of
           Some GuardianKsBlockAll \<Rightarrow> Some GuardianActionBlock
         | Some GuardianKsAllowVpnOnly \<Rightarrow>
             if vpnLuid \<noteq> 0 \<and> interfaceLuid = vpnLuid then Some GuardianActionPermit
             else Some GuardianActionBlock
         | _ \<Rightarrow> None)"

section \<open>Lemmas\<close>

text \<open>The mode variable only ever holds a number of the enumeration.\<close>

definition ks_inv :: "kill_switch_state \<Rightarrow> bool" where
  "ks_inv s \<longleftrightarrow> ks_Mode s \<le> ks_mode_code GuardianKsRestore"

lemma ks_init_inv: "ks_inv (snd (GuardianKillSwitchInitialize r))"
  by (auto simp: GuardianKillSwitchInitialize_def ks_inv_def Let_def split: option.splits)

lemma ks_set_inv: "ks_inv s \<Longrightarrow> ks_inv (snd (GuardianKillSwitchSet c s))"
  by (auto simp: GuardianKillSwitchSet_def ks_inv_def not_less split: option.splits)

lemma ks_evaluate_simps:
  "ks_Mode s = ks_mode_code GuardianKsOff \<Longrightarrow> GuardianKillSwitchEvaluate l s = None"
  "ks_Mode s = ks_mode_code GuardianKsRestore \<Longrightarrow> GuardianKillSwitchEvaluate l s = None"
  "ks_Mode s = ks_mode_code GuardianKsBlockAll \<Longrightarrow>
     GuardianKillSwitchEvaluate l s = Some GuardianActionBlock"
  "ks_Mode s = ks_mode_code GuardianKsAllowVpnOnly \<Longrightarrow>
     GuardianKillSwitchEvaluate l s =
       Some (if ks_VpnInterfaceLuid s \<noteq> 0 \<and> l = ks_VpnInterfaceLuid s
             then GuardianActionPermit else GuardianActionBlock)"
  unfolding GuardianKillSwitchEvaluate_def Let_def
  by (simp_all add: ks_mode.enum_of_code del: ks_mode_code.simps)

lemma ks_evaluate_handled:
  "GuardianKillSwitchEvaluate l s \<noteq> None \<longleftrightarrow>
     ks_Mode s = ks_mode_code GuardianKsBlockAll \<or> ks_Mode s = ks_mode_code GuardianKsAllowVpnOnly"
proof (cases "enum_of ks_modes ks_mode_code (ks_Mode s)")
  case None
  then have "GuardianKillSwitchEvaluate l s = None"
    by (simp add: GuardianKillSwitchEvaluate_def Let_def)
  moreover have "\<forall>m. ks_Mode s \<noteq> ks_mode_code m"
    using None by (rule ks_mode.enum_of_None [THEN iffD1])
  ultimately show ?thesis by (simp del: ks_mode_code.simps)
next
  case (Some m)
  then have "ks_Mode s = ks_mode_code m" by (simp add: ks_mode.enum_of_iff)
  then show ?thesis by (cases m) (simp_all add: ks_evaluate_simps)
qed

lemma ks_set_success_iff:
  "NT_SUCCESS (fst (GuardianKillSwitchSet c s)) \<longleftrightarrow>
     (\<exists>x. c = Some x \<and> kc_Version x = GUARDIAN_KILL_SWITCH_VERSION \<and>
        kc_Mode x \<le> ks_mode_code GuardianKsRestore)"
  by (auto simp: GuardianKillSwitchSet_def not_less split: option.splits)

lemma ks_set_failure:
  "GuardianKillSwitchSet c s = (st, s') \<Longrightarrow> \<not> NT_SUCCESS st \<Longrightarrow> s' = s"
  by (auto simp: GuardianKillSwitchSet_def split: option.splits if_splits)

section \<open>Properties\<close>

text \<open>
  Setting the kill switch with the current version and a mode of the enumeration succeeds
  and determines every later evaluation: BlockAll blocks, AllowVpnOnly permits the configured
  non-zero interface and blocks the others, Off and Restore leave the decision to the policies,
  and Restore is stored as Off. Any other version or mode is refused and changes nothing.
\<close>

lemma kill_switch_set_then_evaluate:
  "case GuardianKillSwitchSet (Some c) s of (st, s') \<Rightarrow>
     if kc_Version c = GUARDIAN_KILL_SWITCH_VERSION \<and> kc_Mode c \<le> ks_mode_code GuardianKsRestore
     then st = STATUS_SUCCESS \<and> ks_Mode s' \<noteq> ks_mode_code GuardianKsRestore \<and>
       GuardianKillSwitchEvaluate l s' =
         (if kc_Mode c = ks_mode_code GuardianKsBlockAll then Some GuardianActionBlock
          else if kc_Mode c = ks_mode_code GuardianKsAllowVpnOnly
          then Some (if kc_VpnInterfaceLuid c \<noteq> 0 \<and> l = kc_VpnInterfaceLuid c
                     then GuardianActionPermit else GuardianActionBlock)
          else None)
     else st = STATUS_INVALID_PARAMETER \<and> s' = s"
proof (cases "enum_of ks_modes ks_mode_code (kc_Mode c)")
  case None
  then have "kc_Mode c \<noteq> ks_mode_code m" for m by (simp add: ks_mode.enum_of_None)
  from this [of GuardianKsOff] this [of GuardianKsBlockAll] this [of GuardianKsAllowVpnOnly]
    this [of GuardianKsRestore] have "kc_Mode c \<notin> {0, 1, 2, 3}" by simp
  moreover have "kc_Mode c \<le> 3 \<Longrightarrow> kc_Mode c \<in> {0, 1, 2, 3}"
    by (rule word_le_3)
  ultimately have "ks_mode_code GuardianKsRestore < kc_Mode c"
    by (auto simp: not_le [symmetric])
  then show ?thesis by (auto simp: GuardianKillSwitchSet_def)
next
  case (Some m)
  then have m: "kc_Mode c = ks_mode_code m" by (simp add: ks_mode.enum_of_iff)
  show ?thesis
    by (cases m) (simp_all add: GuardianKillSwitchSet_def m ks_evaluate_simps)
qed

lemma kill_switch_starts_off:
  assumes "query_documented r"
  shows "GuardianKillSwitchInitialize (Some r) =
    (STATUS_SUCCESS, \<lparr>ks_Mode = ks_mode_code GuardianKsOff, ks_VpnInterfaceLuid = 0\<rparr>)"
  using assms by (simp add: GuardianKillSwitchInitialize_def Let_def)

text \<open>
  A registry that holds KillSwitchMode = 1 (BlockAll) and no GuardianMode, and answers as
  documented; 0xC0000034 is STATUS\_OBJECT\_NAME\_NOT\_FOUND.
\<close>

definition block_all_registry :: registry where
  "block_all_registry =
     \<lparr>reg_open = STATUS_SUCCESS,
      reg_query = (\<lambda>v n. if v = RegGuardianMode then (0xC0000034, [])
                         else if n < 12 then (STATUS_BUFFER_TOO_SMALL, [])
                         else (STATUS_SUCCESS,
                               take n ([0, 0, 0, 0, 4, 0, 0, 0, 4, 0, 0, 0] @ le_bytes 4 (1 :: u32))))\<rparr>"

lemma block_all_registry_documented: "query_documented block_all_registry"
  by (simp add: query_documented_def block_all_registry_def)

lemma kill_switch_starts_off_witness:
  "query_documented block_all_registry \<and>
   snd (reg_query block_all_registry RegKillSwitchMode 16) =
     [0, 0, 0, 0, 4, 0, 0, 0, 4, 0, 0, 0, 1, 0, 0, 0] \<and>
   GuardianKillSwitchGetMode (snd (GuardianKillSwitchInitialize (Some block_all_registry))) = 0"
  using kill_switch_starts_off [OF block_all_registry_documented]
  by (simp add: block_all_registry_documented GuardianKillSwitchGetMode_def)
    (simp add: block_all_registry_def numeral_eq_Suc)

end
