(* ===== verification/Telemetry.thy ===== *)
theory Telemetry
  imports App_Policy Route_Assignment Kill_Switch
begin

text \<open>
  driver/telemetry/telemetry.c: the counters of classify and IPC activity and the two snapshots of
  them. Counters are 64-bit and wrap; the interlocked operations are additions on them. The lemmas
  follow a run of recorded events from the initial state.
\<close>

record telemetry_state =
  tm_ClassifyCount :: u64
  tm_BlockCount :: u64
  tm_RouteCount :: u64
  tm_PermitCount :: u64
  tm_ObserveCount :: u64
  tm_ErrorCount :: u64
  tm_DnsObserveCount :: u64
  tm_LatencySum100ns :: u64
  tm_LatencySamples :: u64
  tm_MaxLatency100ns :: u64
  tm_IpcDispatchCount :: u64
  tm_IpcRejectCount :: u64
  tm_IpcLatencySum100ns :: u64
  tm_IpcLatencySamples :: u64
  tm_MaxIpcLatency100ns :: u64
  tm_DeferredWorkCount :: u64

definition GUARDIAN_LATENCY_SAMPLE_MASK :: u64 where "GUARDIAN_LATENCY_SAMPLE_MASK = 0xFF"

definition GuardianTelemetryInitialize :: telemetry_state where
  "GuardianTelemetryInitialize =
     \<lparr>tm_ClassifyCount = 0, tm_BlockCount = 0, tm_RouteCount = 0, tm_PermitCount = 0,
      tm_ObserveCount = 0, tm_ErrorCount = 0, tm_DnsObserveCount = 0, tm_LatencySum100ns = 0,
      tm_LatencySamples = 0, tm_MaxLatency100ns = 0, tm_IpcDispatchCount = 0,
      tm_IpcRejectCount = 0, tm_IpcLatencySum100ns = 0, tm_IpcLatencySamples = 0,
      tm_MaxIpcLatency100ns = 0, tm_DeferredWorkCount = 0\<rparr>"

definition GuardianTelemetryShutdown :: "telemetry_state \<Rightarrow> telemetry_state" where
  "GuardianTelemetryShutdown t = t"

definition count_action :: "GUARDIAN_CLASSIFY_ACTION \<Rightarrow> telemetry_state \<Rightarrow> telemetry_state" where
  "count_action action t =
     (case action of
        GuardianActionBlock \<Rightarrow> t\<lparr>tm_BlockCount := tm_BlockCount t + 1\<rparr>
      | GuardianActionRoute \<Rightarrow> t\<lparr>tm_RouteCount := tm_RouteCount t + 1\<rparr>
      | GuardianActionObserve \<Rightarrow> t\<lparr>tm_ObserveCount := tm_ObserveCount t + 1\<rparr>
      | GuardianActionPermit \<Rightarrow> t\<lparr>tm_PermitCount := tm_PermitCount t + 1\<rparr>)"

definition sample_latency :: "u64 \<Rightarrow> telemetry_state \<Rightarrow> telemetry_state" where
  "sample_latency latency t =
     (if tm_LatencySamples t AND GUARDIAN_LATENCY_SAMPLE_MASK = 0 then
        let t1 = t\<lparr>tm_LatencySum100ns := tm_LatencySum100ns t + latency\<rparr>;
            t2 = t1\<lparr>tm_LatencySamples := tm_LatencySamples t1 + 1\<rparr>
        in if tm_MaxLatency100ns t2 < latency then t2\<lparr>tm_MaxLatency100ns := latency\<rparr> else t2
      else t)"

definition GuardianTelemetryRecordClassify ::
  "GUARDIAN_CLASSIFY_ACTION \<Rightarrow> u64 \<Rightarrow> telemetry_state \<Rightarrow> telemetry_state" where
  "GuardianTelemetryRecordClassify action latency t =
     sample_latency latency
       (count_action action (t\<lparr>tm_ClassifyCount := tm_ClassifyCount t + 1\<rparr>))"

definition GuardianTelemetryRecordError :: "telemetry_state \<Rightarrow> telemetry_state" where
  "GuardianTelemetryRecordError t = t\<lparr>tm_ErrorCount := tm_ErrorCount t + 1\<rparr>"

definition GuardianTelemetryRecordDnsObserve :: "telemetry_state \<Rightarrow> telemetry_state" where
  "GuardianTelemetryRecordDnsObserve t = t\<lparr>tm_DnsObserveCount := tm_DnsObserveCount t + 1\<rparr>"

definition GuardianTelemetryGet :: "telemetry_state \<Rightarrow> GUARDIAN_TELEMETRY_V1" where
  "GuardianTelemetryGet t =
     \<lparr>tv_Version = GUARDIAN_TELEMETRY_VERSION,
      tv_ClassifyCount = tm_ClassifyCount t, tv_BlockCount = tm_BlockCount t,
      tv_RouteCount = tm_RouteCount t, tv_PermitCount = tm_PermitCount t,
      tv_ObserveCount = tm_ObserveCount t, tv_ErrorCount = tm_ErrorCount t,
      tv_DnsObserveCount = tm_DnsObserveCount t,
      tv_AvgClassifyLatency100ns =
        (if 0 < tm_LatencySamples t then tm_LatencySum100ns t div tm_LatencySamples t else 0),
      tv_MaxClassifyLatency100ns = tm_MaxLatency100ns t\<rparr>"

definition GuardianPerfStatsGet ::
  "policy_table \<Rightarrow> route_table \<Rightarrow> telemetry_state \<Rightarrow> GUARDIAN_PERF_STATS_V1" where
  "GuardianPerfStatsGet policies routes t =
     \<lparr>ps_Version = GUARDIAN_PERF_STATS_VERSION,
      ps_IpcDispatchCount = tm_IpcDispatchCount t, ps_IpcRejectCount = tm_IpcRejectCount t,
      ps_AvgIpcLatency100ns =
        (if 0 < tm_IpcLatencySamples t
         then tm_IpcLatencySum100ns t div tm_IpcLatencySamples t else 0),
      ps_MaxIpcLatency100ns = tm_MaxIpcLatency100ns t,
      ps_DeferredWorkCount = tm_DeferredWorkCount t,
      ps_ActivePolicyCount = GuardianAppPolicyActiveCount policies,
      ps_ActiveRouteCount = GuardianRouteActiveCount routes\<rparr>"

definition GuardianPerfRecordIpc :: "bool \<Rightarrow> u64 \<Rightarrow> telemetry_state \<Rightarrow> telemetry_state" where
  "GuardianPerfRecordIpc rejected latency t =
     (let t1 = t\<lparr>tm_IpcDispatchCount := tm_IpcDispatchCount t + 1\<rparr>;
          t2 = (if rejected then t1\<lparr>tm_IpcRejectCount := tm_IpcRejectCount t1 + 1\<rparr> else t1);
          t3 = t2\<lparr>tm_IpcLatencySum100ns := tm_IpcLatencySum100ns t2 + latency\<rparr>;
          t4 = t3\<lparr>tm_IpcLatencySamples := tm_IpcLatencySamples t3 + 1\<rparr>
      in if tm_MaxIpcLatency100ns t4 < latency then t4\<lparr>tm_MaxIpcLatency100ns := latency\<rparr> else t4)"

section \<open>Classify counters\<close>

lemma count_action_fields [simp]:
  "tm_LatencySum100ns (count_action a t) = tm_LatencySum100ns t"
  "tm_LatencySamples (count_action a t) = tm_LatencySamples t"
  "tm_MaxLatency100ns (count_action a t) = tm_MaxLatency100ns t"
  "tm_ClassifyCount (count_action a t) = tm_ClassifyCount t"
  by (cases a; simp add: count_action_def)+

lemma sample_latency_fields [simp]:
  "tm_ClassifyCount (sample_latency l t) = tm_ClassifyCount t"
  "tm_BlockCount (sample_latency l t) = tm_BlockCount t"
  "tm_RouteCount (sample_latency l t) = tm_RouteCount t"
  "tm_PermitCount (sample_latency l t) = tm_PermitCount t"
  "tm_ObserveCount (sample_latency l t) = tm_ObserveCount t"
  by (simp_all add: sample_latency_def Let_def)

text \<open>Each classify is counted once and under exactly one action.\<close>

definition counters_balanced :: "telemetry_state \<Rightarrow> bool" where
  "counters_balanced t \<longleftrightarrow>
     tm_ClassifyCount t =
       tm_BlockCount t + tm_RouteCount t + tm_ObserveCount t + tm_PermitCount t"

lemma counters_balanced_init: "counters_balanced GuardianTelemetryInitialize"
  by (simp add: counters_balanced_def GuardianTelemetryInitialize_def)

lemma counters_balanced_classify:
  "counters_balanced t \<Longrightarrow> counters_balanced (GuardianTelemetryRecordClassify a l t)"
  by (cases a)
    (simp_all add: counters_balanced_def GuardianTelemetryRecordClassify_def count_action_def)

lemma counters_balanced_other:
  "counters_balanced t \<Longrightarrow> counters_balanced (GuardianTelemetryRecordError t)"
  "counters_balanced t \<Longrightarrow> counters_balanced (GuardianTelemetryRecordDnsObserve t)"
  "counters_balanced t \<Longrightarrow> counters_balanced (GuardianPerfRecordIpc r l t)"
  by (simp_all add: counters_balanced_def GuardianTelemetryRecordError_def
      GuardianTelemetryRecordDnsObserve_def GuardianPerfRecordIpc_def Let_def)

text \<open>
  The sampling condition tests the number of samples, which only the sampling itself increments:
  the first classify is sampled and no later one is.
\<close>

definition latency_frozen :: "telemetry_state \<Rightarrow> bool" where
  "latency_frozen t \<longleftrightarrow>
     tm_LatencySamples t \<le> 1 \<and> tm_LatencySum100ns t = tm_MaxLatency100ns t \<and>
     (tm_LatencySamples t = 0 \<longrightarrow> tm_LatencySum100ns t = 0)"

lemma samples_le_1: "(n :: u64) \<le> 1 \<longleftrightarrow> n = 0 \<or> n = 1"
  by (metis word_less_1 order_le_less zero_neq_one le_less)

lemma sample_first:
  assumes "tm_LatencySamples t = 0" and "tm_LatencySum100ns t = 0" and "tm_MaxLatency100ns t = 0"
  shows "tm_LatencySamples (sample_latency l t) = 1 \<and> tm_LatencySum100ns (sample_latency l t) = l \<and>
    tm_MaxLatency100ns (sample_latency l t) = l"
  using assms by (auto simp: sample_latency_def Let_def word_gt_0)

lemma sample_later:
  "tm_LatencySamples t = 1 \<Longrightarrow> sample_latency l t = t"
  by (simp add: sample_latency_def GUARDIAN_LATENCY_SAMPLE_MASK_def)

lemma latency_frozen_init: "latency_frozen GuardianTelemetryInitialize"
  by (simp add: latency_frozen_def GuardianTelemetryInitialize_def)

lemma latency_frozen_sample: "latency_frozen t \<Longrightarrow> latency_frozen (sample_latency l t)"
  using sample_first [of t l] sample_later [of t l] by (auto simp: latency_frozen_def samples_le_1)

lemma latency_frozen_classify:
  "latency_frozen t \<Longrightarrow> latency_frozen (GuardianTelemetryRecordClassify a l t)"
  unfolding GuardianTelemetryRecordClassify_def
  by (rule latency_frozen_sample) (auto simp: latency_frozen_def)

lemma latency_frozen_other:
  "latency_frozen t \<Longrightarrow> latency_frozen (GuardianTelemetryRecordError t)"
  "latency_frozen t \<Longrightarrow> latency_frozen (GuardianTelemetryRecordDnsObserve t)"
  "latency_frozen t \<Longrightarrow> latency_frozen (GuardianPerfRecordIpc r l t)"
  by (auto simp: latency_frozen_def GuardianTelemetryRecordError_def
      GuardianTelemetryRecordDnsObserve_def GuardianPerfRecordIpc_def Let_def)

fun classify_run ::
  "(GUARDIAN_CLASSIFY_ACTION \<times> u64) list \<Rightarrow> telemetry_state \<Rightarrow> telemetry_state" where
  "classify_run [] t = t"
| "classify_run ((a, l) # es) t = classify_run es (GuardianTelemetryRecordClassify a l t)"

lemma classify_run_later:
  assumes "tm_LatencySamples t = 1"
  shows "tm_LatencySamples (classify_run es t) = 1 \<and>
    tm_LatencySum100ns (classify_run es t) = tm_LatencySum100ns t \<and>
    tm_MaxLatency100ns (classify_run es t) = tm_MaxLatency100ns t"
  using assms
proof (induction es t rule: classify_run.induct)
  case (1 t)
  then show ?case by simp
next
  case (2 a l es t)
  let ?t1 = "count_action a (t\<lparr>tm_ClassifyCount := tm_ClassifyCount t + 1\<rparr>)"
  have "GuardianTelemetryRecordClassify a l t = ?t1"
    using 2 sample_later [of ?t1 l] by (simp add: GuardianTelemetryRecordClassify_def)
  with 2 show ?case by simp
qed

lemma classify_run_first:
  defines "t \<equiv> GuardianTelemetryInitialize"
  shows "tm_LatencySamples (classify_run ((a, l) # es) t) = 1 \<and>
    tm_LatencySum100ns (classify_run ((a, l) # es) t) = l \<and>
    tm_MaxLatency100ns (classify_run ((a, l) # es) t) = l"
proof -
  let ?t1 = "GuardianTelemetryRecordClassify a l t"
  have "tm_LatencySamples ?t1 = 1 \<and> tm_LatencySum100ns ?t1 = l \<and> tm_MaxLatency100ns ?t1 = l"
    unfolding GuardianTelemetryRecordClassify_def
    by (rule sample_first) (simp_all add: t_def GuardianTelemetryInitialize_def)
  then show ?thesis using classify_run_later [of ?t1 es] by simp
qed

section \<open>IPC counters\<close>

fun ipc_run :: "(bool \<times> u64) list \<Rightarrow> telemetry_state \<Rightarrow> telemetry_state" where
  "ipc_run [] t = t"
| "ipc_run ((r, l) # es) t = ipc_run es (GuardianPerfRecordIpc r l t)"

lemma ipc_record_fields:
  "tm_IpcDispatchCount (GuardianPerfRecordIpc r l t) = tm_IpcDispatchCount t + 1"
  "tm_IpcRejectCount (GuardianPerfRecordIpc r l t) = tm_IpcRejectCount t + (if r then 1 else 0)"
  "tm_IpcLatencySum100ns (GuardianPerfRecordIpc r l t) = tm_IpcLatencySum100ns t + l"
  "tm_IpcLatencySamples (GuardianPerfRecordIpc r l t) = tm_IpcLatencySamples t + 1"
  "tm_MaxIpcLatency100ns (GuardianPerfRecordIpc r l t) = max (tm_MaxIpcLatency100ns t) l"
  by (auto simp: GuardianPerfRecordIpc_def Let_def max_def)

lemma ipc_run_fields:
  "tm_IpcDispatchCount (ipc_run es t) = tm_IpcDispatchCount t + of_nat (length es)"
  "tm_IpcRejectCount (ipc_run es t) = tm_IpcRejectCount t + of_nat (length (filter fst es))"
  "tm_IpcLatencySum100ns (ipc_run es t) = tm_IpcLatencySum100ns t + sum_list (map snd es)"
  "tm_IpcLatencySamples (ipc_run es t) = tm_IpcLatencySamples t + of_nat (length es)"
  "tm_MaxIpcLatency100ns (ipc_run es t) = fold max (map snd es) (tm_MaxIpcLatency100ns t)"
  by (induction es t rule: ipc_run.induct)
    (simp_all add: ipc_record_fields algebra_simps max.commute)

lemma unat_sum_list:
  fixes ws :: "'a::len word list"
  assumes "sum_list (map unat ws) < 2 ^ LENGTH('a)"
  shows "unat (sum_list ws) = sum_list (map unat ws)"
  using assms
proof (induction ws)
  case Nil
  then show ?case by simp
next
  case (Cons w ws)
  then show ?case by (simp add: unat_word_ariths)
qed

lemma sum_list_le_max:
  assumes "\<And>x. x \<in> set xs \<Longrightarrow> x \<le> (m :: nat)"
  shows "sum_list xs \<le> length xs * m"
  using assms by (induction xs) (auto intro: add_mono)

lemma fold_max_Max: "fold max xs (m :: 'a::linorder) = Max (insert m (set xs))"
  using Max.set_eq_fold [of m xs] by simp

lemma fold_max_upper: "x \<in> set xs \<Longrightarrow> x \<le> fold max xs (m :: 'a::linorder)"
  by (simp add: fold_max_Max)

section \<open>Properties\<close>

text \<open>How many of the recorded classifies had an action.\<close>

definition recorded :: "GUARDIAN_CLASSIFY_ACTION \<Rightarrow> (GUARDIAN_CLASSIFY_ACTION \<times> u64) list \<Rightarrow> u64" where
  "recorded a es = of_nat (length (filter (\<lambda>e. fst e = a) es))"

lemma classify_run_counts:
  "tm_ClassifyCount (classify_run es t) = tm_ClassifyCount t + of_nat (length es)"
  "tm_BlockCount (classify_run es t) = tm_BlockCount t + recorded GuardianActionBlock es"
  "tm_RouteCount (classify_run es t) = tm_RouteCount t + recorded GuardianActionRoute es"
  "tm_ObserveCount (classify_run es t) = tm_ObserveCount t + recorded GuardianActionObserve es"
  "tm_PermitCount (classify_run es t) = tm_PermitCount t + recorded GuardianActionPermit es"
  by (induction es t rule: classify_run.induct)
    (auto simp: GuardianTelemetryRecordClassify_def count_action_def recorded_def
      split: GUARDIAN_CLASSIFY_ACTION.splits)

lemma telemetry_counts_each_action:
  "case GuardianTelemetryGet (classify_run es GuardianTelemetryInitialize) of snapshot \<Rightarrow>
     tv_ClassifyCount snapshot = of_nat (length es) \<and>
     tv_BlockCount snapshot = recorded GuardianActionBlock es \<and>
     tv_RouteCount snapshot = recorded GuardianActionRoute es \<and>
     tv_ObserveCount snapshot = recorded GuardianActionObserve es \<and>
     tv_PermitCount snapshot = recorded GuardianActionPermit es \<and>
     tv_ClassifyCount snapshot = tv_BlockCount snapshot + tv_RouteCount snapshot +
       tv_ObserveCount snapshot + tv_PermitCount snapshot"
proof -
  have "counters_balanced (classify_run es t)" if "counters_balanced t" for t
    using that by (induction es t rule: classify_run.induct) (simp_all add: counters_balanced_classify)
  from this [OF counters_balanced_init] show ?thesis
    using classify_run_counts [of es GuardianTelemetryInitialize]
    by (simp add: GuardianTelemetryGet_def counters_balanced_def)
      (simp add: GuardianTelemetryInitialize_def)
qed

text \<open>
  The classify latency is sampled for the first classify only: after any sequence the
  sample count is 1 and the reported average and maximum are the latency of the first classify,
  because the sampling condition tests the sample counter, which only the sampling increments.
\<close>

lemma latency_sampled_only_once:
  "case classify_run ((a, first) # es) GuardianTelemetryInitialize of t \<Rightarrow>
     tm_LatencySamples t = 1 \<and>
     tv_AvgClassifyLatency100ns (GuardianTelemetryGet t) = first \<and>
     tv_MaxClassifyLatency100ns (GuardianTelemetryGet t) = first"
  using classify_run_first [of a first es] by (simp add: GuardianTelemetryGet_def)

lemma ipc_statistics_exact:
  assumes "es \<noteq> []" and "length es < 2 ^ 64" and "sum_list (map (unat \<circ> snd) es) < 2 ^ 64"
  shows "case GuardianPerfStatsGet pt rt (ipc_run es GuardianTelemetryInitialize) of stats \<Rightarrow>
    unat (ps_IpcDispatchCount stats) = length es \<and>
    unat (ps_IpcRejectCount stats) = length (filter fst es) \<and>
    unat (ps_AvgIpcLatency100ns stats) = sum_list (map (unat \<circ> snd) es) div length es \<and>
    ps_MaxIpcLatency100ns stats = Max (snd ` set es) \<and>
    ps_AvgIpcLatency100ns stats \<le> ps_MaxIpcLatency100ns stats"
proof -
  let ?t = "ipc_run es GuardianTelemetryInitialize" and ?ls = "map snd es"
  have zero: "tm_IpcDispatchCount GuardianTelemetryInitialize = 0"
    "tm_IpcRejectCount GuardianTelemetryInitialize = 0"
    "tm_IpcLatencySum100ns GuardianTelemetryInitialize = 0"
    "tm_IpcLatencySamples GuardianTelemetryInitialize = 0"
    "tm_MaxIpcLatency100ns GuardianTelemetryInitialize = 0"
    by (simp_all add: GuardianTelemetryInitialize_def)
  have n: "unat (of_nat (length es) :: u64) = length es"
    using assms(2) by (simp add: unat_of_nat)
  have r: "unat (of_nat (length (filter fst es)) :: u64) = length (filter fst es)"
    using le_less_trans [OF length_filter_le assms(2), of fst] by (simp add: unat_of_nat)
  have sum: "unat (sum_list ?ls) = sum_list (map (unat \<circ> snd) es)"
    using unat_sum_list [of ?ls] assms(3) by simp
  have max: "tm_MaxIpcLatency100ns ?t = Max (snd ` set es)"
  proof -
    have "Max (insert 0 (snd ` set es)) = max 0 (Max (snd ` set es))"
      using assms(1) by (intro Max_insert) auto
    then show ?thesis by (simp add: ipc_run_fields zero fold_max_Max)
  qed
  have "sum_list (map (unat \<circ> snd) es) \<le> length (map (unat \<circ> snd) es) * unat (Max (snd ` set es))"
    by (rule sum_list_le_max) (force simp: word_le_nat_alt [symmetric] intro: Max_ge)
  then have "sum_list (map (unat \<circ> snd) es) div length es \<le> unat (Max (snd ` set es))"
    using assms(1) div_le_mono [of _ "length es * unat (Max (snd ` set es))" "length es"] by simp
  moreover have "0 < tm_IpcLatencySamples ?t"
    using n assms(1) by (simp add: ipc_run_fields zero word_gt_0) (metis length_0_conv unat_0)
  ultimately show ?thesis
    using n r sum max
    by (simp add: GuardianPerfStatsGet_def ipc_run_fields zero unat_div word_le_nat_alt)
qed

lemma ipc_statistics_exact_witness:
  "unat (ps_AvgIpcLatency100ns (GuardianPerfStatsGet GuardianAppPolicyInitialize
       GuardianRouteInitialize
       (ipc_run [(False, 10), (True, 3)] GuardianTelemetryInitialize))) = 6"
  using ipc_statistics_exact [of "[(False, 10), (True, 3)]" GuardianAppPolicyInitialize
      GuardianRouteInitialize] by (simp add: numeral_2_eq_2 [symmetric])

end
