(* ===== verification/Dns_Observe.thy ===== *)
theory Dns_Observe
  imports Telemetry
begin

text \<open>
  driver/callouts/dns_observe.c: the DNS observation layer: its configuration, its statistics, and
  the decision whether a datagram is observed. The last also counts in the telemetry, so it steps
  both states.
\<close>

record dns_state =
  dns_Config :: GUARDIAN_DNS_CONFIG_V1
  dns_Stats :: GUARDIAN_DNS_STATS_V1

definition GuardianDnsLayerInitialize :: "ntstatus \<times> dns_state" where
  "GuardianDnsLayerInitialize =
     (STATUS_SUCCESS,
      \<lparr>dns_Config =
         \<lparr>dc_Version = GUARDIAN_DNS_CONFIG_VERSION, dc_Capabilities = GUARDIAN_DNS_CAP_OBSERVE,
          dc_Enabled = 0, dc_ObserveOnly = 1, dc_Reserved = replicate 2 0, dc_ProxyPort = 0,
          dc_ExcludedPidCount = 0, dc_ExcludedPids = replicate 16 0\<rparr>,
       dns_Stats =
         \<lparr>dn_Version = GUARDIAN_DNS_CONFIG_VERSION, dn_ObservedV4 = 0, dn_ObservedV6 = 0,
          dn_SkippedLoopback = 0, dn_SkippedExcluded = 0, dn_SkippedDisabled = 0,
          dn_Errors = 0\<rparr>\<rparr>)"

definition GuardianDnsLayerShutdown :: "dns_state \<Rightarrow> dns_state" where
  "GuardianDnsLayerShutdown s = s"

definition GuardianDnsLayerSetConfig ::
  "GUARDIAN_DNS_CONFIG_V1 option \<Rightarrow> dns_state \<Rightarrow> ntstatus \<times> dns_state" where
  "GuardianDnsLayerSetConfig config s =
     (case config of
        None \<Rightarrow> (STATUS_INVALID_PARAMETER, s)
      | Some c \<Rightarrow>
          if dc_Version c \<noteq> GUARDIAN_DNS_CONFIG_VERSION then (STATUS_INVALID_PARAMETER, s)
          else (STATUS_SUCCESS, s\<lparr>dns_Config := c\<lparr>dc_ObserveOnly := 1\<rparr>\<rparr>))"

definition GuardianDnsLayerGetStats :: "dns_state \<Rightarrow> GUARDIAN_DNS_STATS_V1" where
  "GuardianDnsLayerGetStats s = dns_Stats s"

text \<open>
  The loop over the exclusion list: i runs while it is below the configured count and below 16; n
  is the number of iterations left before i reaches 16.
\<close>

fun pid_excluded_loop :: "GUARDIAN_DNS_CONFIG_V1 \<Rightarrow> u32 \<Rightarrow> nat \<Rightarrow> nat \<Rightarrow> bool" where
  "pid_excluded_loop c pid i 0 = False"
| "pid_excluded_loop c pid i (Suc n) =
     (if i < unat (dc_ExcludedPidCount c)
      then if dc_ExcludedPids c ! i = pid then True else pid_excluded_loop c pid (Suc i) n
      else False)"

definition GuardianDnsLayerShouldObserve ::
  "u16 \<Rightarrow> u32 \<Rightarrow> dns_state \<Rightarrow> telemetry_state \<Rightarrow> bool \<times> dns_state \<times> telemetry_state" where
  "GuardianDnsLayerShouldObserve remotePort excludedPid s t =
     (let st = dns_Stats s
      in if remotePort \<noteq> 53 then (False, s, t)
         else if dc_Enabled (dns_Config s) = 0
         then (False, s\<lparr>dns_Stats := st\<lparr>dn_SkippedDisabled := dn_SkippedDisabled st + 1\<rparr>\<rparr>, t)
         else if pid_excluded_loop (dns_Config s) excludedPid 0 16
         then (False, s\<lparr>dns_Stats := st\<lparr>dn_SkippedExcluded := dn_SkippedExcluded st + 1\<rparr>\<rparr>, t)
         else (True, s\<lparr>dns_Stats := st\<lparr>dn_ObservedV4 := dn_ObservedV4 st + 1\<rparr>\<rparr>,
               GuardianTelemetryRecordDnsObserve t))"

section \<open>Lemmas\<close>

text \<open>Whatever userspace asks for, the stored configuration is observe-only.\<close>

definition dns_inv :: "dns_state \<Rightarrow> bool" where
  "dns_inv s \<longleftrightarrow> dc_ObserveOnly (dns_Config s) = 1 \<and>
     dc_Version (dns_Config s) = GUARDIAN_DNS_CONFIG_VERSION \<and>
     wf_dns_config (dns_Config s)"

lemma dns_inv_init: "dns_inv (snd GuardianDnsLayerInitialize)"
  by (simp add: dns_inv_def GuardianDnsLayerInitialize_def wf_dns_config_def)

lemma dns_inv_set:
  assumes "dns_inv s" and "\<And>c. config = Some c \<Longrightarrow> wf_dns_config c"
  shows "dns_inv (snd (GuardianDnsLayerSetConfig config s))"
  using assms by (auto simp: GuardianDnsLayerSetConfig_def dns_inv_def wf_dns_config_def
      split: option.splits)

lemma dns_inv_observe:
  "dns_inv s \<Longrightarrow> GuardianDnsLayerShouldObserve p pid s t = (b, s', t') \<Longrightarrow> dns_inv s'"
  by (auto simp: GuardianDnsLayerShouldObserve_def Let_def dns_inv_def split: if_splits)

lemma pid_excluded_loop_iff:
  "pid_excluded_loop c pid i n \<longleftrightarrow>
     (\<exists>j. i \<le> j \<and> j < i + n \<and> j < unat (dc_ExcludedPidCount c) \<and> dc_ExcludedPids c ! j = pid)"
proof (induction n arbitrary: i)
  case 0
  then show ?case by auto
next
  case (Suc n)
  have "(\<exists>j. i \<le> j \<and> j < i + Suc n \<and> P j) \<longleftrightarrow> P i \<or> (\<exists>j. Suc i \<le> j \<and> j < Suc i + n \<and> P j)" for P
  proof
    assume "\<exists>j. i \<le> j \<and> j < i + Suc n \<and> P j"
    then obtain j where "i \<le> j" "j < i + Suc n" "P j" by blast
    then show "P i \<or> (\<exists>j. Suc i \<le> j \<and> j < Suc i + n \<and> P j)"
      by (cases "j = i") (auto intro!: exI [of _ j])
  qed (auto intro: less_imp_le Suc_leD)
  then show ?case by (auto simp: Suc)
qed

text \<open>
  The ids the loop compares are the first min count 16 entries of the array, so a count above the
  array's length does not read past it.
\<close>

lemma pid_excluded_take:
  assumes "wf_dns_config c"
  shows "pid_excluded_loop c pid 0 16 \<longleftrightarrow>
    pid \<in> set (take (unat (dc_ExcludedPidCount c)) (dc_ExcludedPids c))"
  using assms by (auto simp: pid_excluded_loop_iff wf_dns_config_def in_set_conv_nth)

fun dns_run :: "(u16 \<times> u32) list \<Rightarrow> dns_state \<times> telemetry_state \<Rightarrow> dns_state \<times> telemetry_state" where
  "dns_run [] st = st"
| "dns_run ((port, pid) # ds) st =
     dns_run ds (snd (GuardianDnsLayerShouldObserve port pid (fst st) (snd st)))"

section \<open>Properties\<close>

lemma dns_observes_exactly:
  assumes "dns_inv s"
  shows "case GuardianDnsLayerShouldObserve port pid s t of (observe, s', t') \<Rightarrow>
    (observe \<longleftrightarrow> port = 53 \<and> dc_Enabled (dns_Config s) \<noteq> 0 \<and>
       pid \<notin> set (take (unat (dc_ExcludedPidCount (dns_Config s)))
                   (dc_ExcludedPids (dns_Config s)))) \<and>
    dns_inv s' \<and> dns_Config s' = dns_Config s \<and>
    tm_DnsObserveCount t' = tm_DnsObserveCount t + (if observe then 1 else 0)"
  using assms pid_excluded_take [of "dns_Config s" pid]
  by (auto simp: GuardianDnsLayerShouldObserve_def Let_def dns_inv_def
      GuardianTelemetryRecordDnsObserve_def)

theorem dns_observes_exactly_witness:
  "fst (GuardianDnsLayerShouldObserve 53 7
      (snd (GuardianDnsLayerSetConfig
         (Some ((dns_Config (snd GuardianDnsLayerInitialize))
                  \<lparr>dc_Enabled := 1, dc_ExcludedPidCount := 1,
                   dc_ExcludedPids := 4 # replicate 15 0\<rparr>)) (snd GuardianDnsLayerInitialize)))
      GuardianTelemetryInitialize)"
proof -
  let ?s = "snd (GuardianDnsLayerSetConfig
         (Some ((dns_Config (snd GuardianDnsLayerInitialize))
                  \<lparr>dc_Enabled := 1, dc_ExcludedPidCount := 1,
                   dc_ExcludedPids := 4 # replicate 15 0\<rparr>)) (snd GuardianDnsLayerInitialize))"
  have "dns_inv ?s"
    by (rule dns_inv_set [OF dns_inv_init])
      (auto simp: GuardianDnsLayerInitialize_def wf_dns_config_def)
  from dns_observes_exactly [OF this, of 53 7 GuardianTelemetryInitialize] show ?thesis
    by (simp add: GuardianDnsLayerInitialize_def GuardianDnsLayerSetConfig_def split: prod.splits)
qed

lemma dns_step_counts:
  assumes "GuardianDnsLayerShouldObserve port pid s t = (observe, s', t')"
  shows "dn_ObservedV4 (dns_Stats s') + dn_SkippedExcluded (dns_Stats s') +
      dn_SkippedDisabled (dns_Stats s') =
      dn_ObservedV4 (dns_Stats s) + dn_SkippedExcluded (dns_Stats s) +
      dn_SkippedDisabled (dns_Stats s) + (if port = 53 then 1 else 0)"
    and "tm_DnsObserveCount t' - dn_ObservedV4 (dns_Stats s') =
      tm_DnsObserveCount t - dn_ObservedV4 (dns_Stats s)"
    and "dn_ObservedV6 (dns_Stats s') = dn_ObservedV6 (dns_Stats s)"
    and "dn_SkippedLoopback (dns_Stats s') = dn_SkippedLoopback (dns_Stats s)"
    and "dn_Errors (dns_Stats s') = dn_Errors (dns_Stats s)"
  using assms
  by (auto simp: GuardianDnsLayerShouldObserve_def Let_def GuardianTelemetryRecordDnsObserve_def
      split: if_splits)

lemma dns_run_counts:
  assumes "dns_run ds (s, t) = (s', t')"
  shows "dn_ObservedV4 (dns_Stats s') + dn_SkippedExcluded (dns_Stats s') +
      dn_SkippedDisabled (dns_Stats s') =
      dn_ObservedV4 (dns_Stats s) + dn_SkippedExcluded (dns_Stats s) +
      dn_SkippedDisabled (dns_Stats s) + of_nat (length (filter (\<lambda>d. fst d = 53) ds)) \<and>
    tm_DnsObserveCount t' - dn_ObservedV4 (dns_Stats s') =
      tm_DnsObserveCount t - dn_ObservedV4 (dns_Stats s) \<and>
    dn_ObservedV6 (dns_Stats s') = dn_ObservedV6 (dns_Stats s) \<and>
    dn_SkippedLoopback (dns_Stats s') = dn_SkippedLoopback (dns_Stats s) \<and>
    dn_Errors (dns_Stats s') = dn_Errors (dns_Stats s)"
  using assms
proof (induction ds arbitrary: s t)
  case Nil
  then show ?case by simp
next
  case (Cons d ds)
  obtain port pid where d: "d = (port, pid)" by fastforce
  obtain observe s1 t1 where st: "GuardianDnsLayerShouldObserve port pid s t = (observe, s1, t1)"
    by (metis prod_cases3)
  have "dns_run ds (s1, t1) = (s', t')" using Cons.prems d st by simp
  from Cons.IH [OF this] dns_step_counts [OF st] show ?case
    by (simp add: d algebra_simps)
qed

lemma dns_statistics_partition:
  "case dns_run ds (snd GuardianDnsLayerInitialize, GuardianTelemetryInitialize) of (s, t) \<Rightarrow>
     dn_ObservedV4 (GuardianDnsLayerGetStats s) + dn_SkippedExcluded (GuardianDnsLayerGetStats s) +
       dn_SkippedDisabled (GuardianDnsLayerGetStats s) =
         of_nat (length (filter (\<lambda>d. fst d = 53) ds)) \<and>
     tm_DnsObserveCount t = dn_ObservedV4 (GuardianDnsLayerGetStats s) \<and>
     dn_ObservedV6 (GuardianDnsLayerGetStats s) = 0 \<and>
     dn_SkippedLoopback (GuardianDnsLayerGetStats s) = 0 \<and>
     dn_Errors (GuardianDnsLayerGetStats s) = 0"
proof (cases "dns_run ds (snd GuardianDnsLayerInitialize, GuardianTelemetryInitialize)")
  case (Pair s t)
  from dns_run_counts [OF this] show ?thesis
    by (simp add: Pair GuardianDnsLayerGetStats_def)
      (simp add: GuardianDnsLayerInitialize_def GuardianTelemetryInitialize_def)
qed

lemma dns_config_stays_observe_only:
  "case GuardianDnsLayerSetConfig (Some c) s of (st, s') \<Rightarrow>
     if dc_Version c = GUARDIAN_DNS_CONFIG_VERSION
     then st = STATUS_SUCCESS \<and> dc_ObserveOnly (dns_Config s') = 1 \<and>
       (dns_Config s')\<lparr>dc_ObserveOnly := dc_ObserveOnly c\<rparr> = c \<and> dns_Stats s' = dns_Stats s
     else st = STATUS_INVALID_PARAMETER \<and> s' = s"
  by (simp add: GuardianDnsLayerSetConfig_def)

end
