(* ===== verification/Guardian_State.thy ===== *)
theory Guardian_State
  imports Dns_Observe
begin

text \<open>
  The globals of the driver, one field per static or extern variable, in one record: the tables,
  the kill switch, the counters, the DNS layer, the state manager and recovery variables
  (guardian\_state\_mgr.c, recovery.c), the hybrid coordinator (filters.c), the callout manager, the
  driver state block and the device (driver.c, device.c), and the pinned service process
  (security.c). Also the constants of guids.c.
\<close>

section \<open>GUIDs (guids.c)\<close>

datatype GUID = GUID u32 u16 u16 bytes

definition GUARDIAN_WFP_PROVIDER_GUID :: GUID where
  "GUARDIAN_WFP_PROVIDER_GUID = GUID 0x8f3e2a1b 0x5c4d 0x6e7f
     [0x8a, 0x9b, 0x0c, 0x1d, 0x2e, 0x3f, 0x4a, 0x5b]"

definition GUARDIAN_WFP_SUBLAYER_GUID :: GUID where
  "GUARDIAN_WFP_SUBLAYER_GUID = GUID 0x9f4e3b2c 0x6d5e 0x7f8a
     [0x9b, 0x0c, 0x1d, 0x2e, 0x3f, 0x4a, 0x5b, 0x6c]"

definition GUARDIAN_CALLOUT_AUTH_CONNECT_V4_GUID :: GUID where
  "GUARDIAN_CALLOUT_AUTH_CONNECT_V4_GUID = GUID 0x1a2b3c4d 0x5e6f 0x7890
     [0xab, 0xcd, 0xef, 0x12, 0x34, 0x56, 0x78, 0x91]"

definition GUARDIAN_CALLOUT_AUTH_CONNECT_V6_GUID :: GUID where
  "GUARDIAN_CALLOUT_AUTH_CONNECT_V6_GUID = GUID 0x2b3c4d5e 0x6f70 0x8901
     [0xbc, 0xde, 0xf1, 0x23, 0x45, 0x67, 0x89, 0x02]"

definition GUARDIAN_CALLOUT_FLOW_ESTABLISHED_V4_GUID :: GUID where
  "GUARDIAN_CALLOUT_FLOW_ESTABLISHED_V4_GUID = GUID 0x3c4d5e6f 0x7089 0x0123
     [0xcd, 0xef, 0x12, 0x34, 0x56, 0x78, 0x90, 0x13]"

definition GUARDIAN_CALLOUT_FLOW_ESTABLISHED_V6_GUID :: GUID where
  "GUARDIAN_CALLOUT_FLOW_ESTABLISHED_V6_GUID = GUID 0x4d5e6f70 0x8901 0x2345
     [0xde, 0xf0, 0x23, 0x45, 0x67, 0x89, 0x01, 0x24]"

definition GUARDIAN_CALLOUT_DNS_DATAGRAM_V4_GUID :: GUID where
  "GUARDIAN_CALLOUT_DNS_DATAGRAM_V4_GUID = GUID 0x5e6f7089 0x0123 0x4567
     [0xef, 0x01, 0x34, 0x56, 0x78, 0x90, 0x12, 0x35]"

definition GUARDIAN_CALLOUT_DNS_DATAGRAM_V6_GUID :: GUID where
  "GUARDIAN_CALLOUT_DNS_DATAGRAM_V6_GUID = GUID 0x6f708901 0x2345 0x6789
     [0xf0, 0x12, 0x45, 0x67, 0x89, 0x01, 0x23, 0x46]"

lemmas guid_defs =
  GUARDIAN_WFP_PROVIDER_GUID_def GUARDIAN_WFP_SUBLAYER_GUID_def
  GUARDIAN_CALLOUT_AUTH_CONNECT_V4_GUID_def GUARDIAN_CALLOUT_AUTH_CONNECT_V6_GUID_def
  GUARDIAN_CALLOUT_FLOW_ESTABLISHED_V4_GUID_def GUARDIAN_CALLOUT_FLOW_ESTABLISHED_V6_GUID_def
  GUARDIAN_CALLOUT_DNS_DATAGRAM_V4_GUID_def GUARDIAN_CALLOUT_DNS_DATAGRAM_V6_GUID_def

section \<open>Component variables\<close>

text \<open>The hybrid coordinator of filters.c.\<close>

record hybrid_state =
  hy_GuardianMode :: u32
  hy_NdisFilterCount :: u32
  hy_NdisPollGeneration :: u32
  hy_CoordinatorActive :: bool

text \<open>
  The callout manager of manager.c. A descriptor pairs a callout's key with its classify function.
  The last field is no variable of the driver: it is the list of keys that FwpsCalloutRegister1
  accepted and that were not unregistered since, the filter engine's side of the calls.
\<close>

datatype classify_fn =
  GuardianAuthConnectClassifyV4_fn | GuardianAuthConnectClassifyV6_fn
| GuardianFlowEstablishedClassify_fn

record callout_descriptor =
  cd_calloutKey :: GUID
  cd_classifyFn :: classify_fn

record callout_state =
  co_CalloutsRegistered :: bool
  co_RegisteredCalloutCount :: u32
  co_Descriptors :: "callout_descriptor list"
  co_EngineKeys :: "GUID list"

record GUARDIAN_DEVICE_CONTEXT =
  dx_Device :: u64
  dx_IoctlQueue :: u64
  dx_DeferredQueue :: u64

record guardian =
  gs_Policies :: policy_table
  gs_Routes :: route_table
  gs_KillSwitch :: kill_switch_state
  gs_Telemetry :: telemetry_state
  gs_Dns :: dns_state
  gs_RecoveryGeneration :: u32
  gs_FilterCount :: u32
  gs_RecoveryStatus :: u32
  gs_Hybrid :: hybrid_state
  gs_Callouts :: callout_state
  gs_Driver :: GUARDIAN_DRIVER_STATE_V1
  gs_WdmDevice :: u64
  gs_DeviceContext :: "GUARDIAN_DEVICE_CONTEXT option"
  gs_AllowedServicePid :: u64

text \<open>
  The image as loaded: every static has its initialiser or zero. The two tables are list heads
  that nothing reads before their Initialize; they are empty lists here.
\<close>

definition zero_driver_state :: GUARDIAN_DRIVER_STATE_V1 where
  "zero_driver_state =
     \<lparr>dv_Version = 0, dv_VersionMajor = 0, dv_VersionMinor = 0, dv_VersionPatch = 0,
      dv_BuildStamp = 0, dv_LifecycleState = 0, dv_CalloutsRegistered = 0, dv_FilterCount = 0,
      dv_RecoveryGeneration = 0, dv_KillSwitchMode = 0, dv_LastError = 0, dv_GuardianMode = 0,
      dv_Reserved = replicate 12 0\<rparr>"

definition guardian_image :: guardian where
  "guardian_image =
     \<lparr>gs_Policies = \<lparr>pt_list = [], pt_count = 0\<rparr>,
      gs_Routes = \<lparr>rt_list = [], rt_count = 0\<rparr>,
      gs_KillSwitch = \<lparr>ks_Mode = ks_mode_code GuardianKsOff, ks_VpnInterfaceLuid = 0\<rparr>,
      gs_Telemetry = GuardianTelemetryInitialize,
      gs_Dns =
        \<lparr>dns_Config =
           \<lparr>dc_Version = 0, dc_Capabilities = 0, dc_Enabled = 0, dc_ObserveOnly = 0,
            dc_Reserved = replicate 2 0, dc_ProxyPort = 0, dc_ExcludedPidCount = 0,
            dc_ExcludedPids = replicate 16 0\<rparr>,
         dns_Stats =
           \<lparr>dn_Version = 0, dn_ObservedV4 = 0, dn_ObservedV6 = 0, dn_SkippedLoopback = 0,
            dn_SkippedExcluded = 0, dn_SkippedDisabled = 0, dn_Errors = 0\<rparr>\<rparr>,
      gs_RecoveryGeneration = 0, gs_FilterCount = 0,
      gs_RecoveryStatus = GUARDIAN_RECOVERY_STATUS_OK,
      gs_Hybrid =
        \<lparr>hy_GuardianMode = guardian_mode_code GuardianModeWfp, hy_NdisFilterCount = 0,
         hy_NdisPollGeneration = 0, hy_CoordinatorActive = False\<rparr>,
      gs_Callouts =
        \<lparr>co_CalloutsRegistered = False, co_RegisteredCalloutCount = 0, co_Descriptors = [],
         co_EngineKeys = []\<rparr>,
      gs_Driver = zero_driver_state, gs_WdmDevice = 0, gs_DeviceContext = None,
      gs_AllowedServicePid = 0\<rparr>"

text \<open>Writes to one field of a component's record, as the C assigns them.\<close>

definition set_driver ::
  "(GUARDIAN_DRIVER_STATE_V1 \<Rightarrow> GUARDIAN_DRIVER_STATE_V1) \<Rightarrow> guardian \<Rightarrow> guardian" where
  "set_driver f s = s\<lparr>gs_Driver := f (gs_Driver s)\<rparr>"

definition set_hybrid :: "(hybrid_state \<Rightarrow> hybrid_state) \<Rightarrow> guardian \<Rightarrow> guardian" where
  "set_hybrid f s = s\<lparr>gs_Hybrid := f (gs_Hybrid s)\<rparr>"

definition set_callouts :: "(callout_state \<Rightarrow> callout_state) \<Rightarrow> guardian \<Rightarrow> guardian" where
  "set_callouts f s = s\<lparr>gs_Callouts := f (gs_Callouts s)\<rparr>"

definition set_telemetry :: "(telemetry_state \<Rightarrow> telemetry_state) \<Rightarrow> guardian \<Rightarrow> guardian" where
  "set_telemetry f s = s\<lparr>gs_Telemetry := f (gs_Telemetry s)\<rparr>"

text \<open>Each of them leaves every other component alone.\<close>

lemma set_driver_frame [simp]:
  "gs_Policies (set_driver f s) = gs_Policies s" "gs_Routes (set_driver f s) = gs_Routes s"
  "gs_KillSwitch (set_driver f s) = gs_KillSwitch s"
  "gs_Telemetry (set_driver f s) = gs_Telemetry s" "gs_Dns (set_driver f s) = gs_Dns s"
  "gs_RecoveryGeneration (set_driver f s) = gs_RecoveryGeneration s"
  "gs_FilterCount (set_driver f s) = gs_FilterCount s"
  "gs_RecoveryStatus (set_driver f s) = gs_RecoveryStatus s"
  "gs_Hybrid (set_driver f s) = gs_Hybrid s" "gs_Callouts (set_driver f s) = gs_Callouts s"
  "gs_Driver (set_driver f s) = f (gs_Driver s)"
  "gs_WdmDevice (set_driver f s) = gs_WdmDevice s"
  "gs_DeviceContext (set_driver f s) = gs_DeviceContext s"
  "gs_AllowedServicePid (set_driver f s) = gs_AllowedServicePid s"
  by (simp_all add: set_driver_def)

lemma set_hybrid_frame [simp]:
  "gs_Policies (set_hybrid f s) = gs_Policies s" "gs_Routes (set_hybrid f s) = gs_Routes s"
  "gs_KillSwitch (set_hybrid f s) = gs_KillSwitch s"
  "gs_Telemetry (set_hybrid f s) = gs_Telemetry s" "gs_Dns (set_hybrid f s) = gs_Dns s"
  "gs_RecoveryGeneration (set_hybrid f s) = gs_RecoveryGeneration s"
  "gs_FilterCount (set_hybrid f s) = gs_FilterCount s"
  "gs_RecoveryStatus (set_hybrid f s) = gs_RecoveryStatus s"
  "gs_Hybrid (set_hybrid f s) = f (gs_Hybrid s)" "gs_Callouts (set_hybrid f s) = gs_Callouts s"
  "gs_Driver (set_hybrid f s) = gs_Driver s" "gs_WdmDevice (set_hybrid f s) = gs_WdmDevice s"
  "gs_DeviceContext (set_hybrid f s) = gs_DeviceContext s"
  "gs_AllowedServicePid (set_hybrid f s) = gs_AllowedServicePid s"
  by (simp_all add: set_hybrid_def)

lemma set_callouts_frame [simp]:
  "gs_Policies (set_callouts f s) = gs_Policies s" "gs_Routes (set_callouts f s) = gs_Routes s"
  "gs_KillSwitch (set_callouts f s) = gs_KillSwitch s"
  "gs_Telemetry (set_callouts f s) = gs_Telemetry s" "gs_Dns (set_callouts f s) = gs_Dns s"
  "gs_RecoveryGeneration (set_callouts f s) = gs_RecoveryGeneration s"
  "gs_FilterCount (set_callouts f s) = gs_FilterCount s"
  "gs_RecoveryStatus (set_callouts f s) = gs_RecoveryStatus s"
  "gs_Hybrid (set_callouts f s) = gs_Hybrid s" "gs_Callouts (set_callouts f s) = f (gs_Callouts s)"
  "gs_Driver (set_callouts f s) = gs_Driver s"
  "gs_WdmDevice (set_callouts f s) = gs_WdmDevice s"
  "gs_DeviceContext (set_callouts f s) = gs_DeviceContext s"
  "gs_AllowedServicePid (set_callouts f s) = gs_AllowedServicePid s"
  by (simp_all add: set_callouts_def)

lemma set_telemetry_frame [simp]:
  "gs_Policies (set_telemetry f s) = gs_Policies s" "gs_Routes (set_telemetry f s) = gs_Routes s"
  "gs_KillSwitch (set_telemetry f s) = gs_KillSwitch s"
  "gs_Telemetry (set_telemetry f s) = f (gs_Telemetry s)" "gs_Dns (set_telemetry f s) = gs_Dns s"
  "gs_RecoveryGeneration (set_telemetry f s) = gs_RecoveryGeneration s"
  "gs_FilterCount (set_telemetry f s) = gs_FilterCount s"
  "gs_RecoveryStatus (set_telemetry f s) = gs_RecoveryStatus s"
  "gs_Hybrid (set_telemetry f s) = gs_Hybrid s"
  "gs_Callouts (set_telemetry f s) = gs_Callouts s"
  "gs_Driver (set_telemetry f s) = gs_Driver s"
  "gs_WdmDevice (set_telemetry f s) = gs_WdmDevice s"
  "gs_DeviceContext (set_telemetry f s) = gs_DeviceContext s"
  "gs_AllowedServicePid (set_telemetry f s) = gs_AllowedServicePid s"
  by (simp_all add: set_telemetry_def)

lemma image_kill_switch [simp]:
  "GuardianKillSwitchEvaluate l (gs_KillSwitch guardian_image) = None"
  by (rule ks_evaluate_simps(1)) (simp add: guardian_image_def)

end
