(* ===== verification/Classify.thy ===== *)
theory Classify
  imports Guardian_State
begin

text \<open>
  driver/classify/classify.c: the decision on one connection, and the three writes to the classify
  output. The decision consults the kill switch, then the policy table, then the route table, and
  records the outcome in the telemetry. The specification decide states the same decision as a
  table over what the three lookups returned.
\<close>

section \<open>Classify output (fwpsk.h, fwptypes.h)\<close>

text \<open>
  The action types, the right FWPS\_RIGHT\_ACTION\_WRITE and the flag
  FWPS\_CLASSIFY\_OUT\_FLAG\_ABSORB are the platform's; the two masks have their header values.
\<close>

datatype fwp_action = FWP_ACTION_NONE | FWP_ACTION_PERMIT | FWP_ACTION_BLOCK | FWP_ACTION_OTHER u32

definition FWPS_RIGHT_ACTION_WRITE :: u32 where "FWPS_RIGHT_ACTION_WRITE = 1"
definition FWPS_CLASSIFY_OUT_FLAG_ABSORB :: u32 where "FWPS_CLASSIFY_OUT_FLAG_ABSORB = 1"

record FWPS_CLASSIFY_OUT0 =
  fo_actionType :: fwp_action
  fo_rights :: u32
  fo_flags :: u32

definition GuardianClassifyReset :: "FWPS_CLASSIFY_OUT0 \<Rightarrow> FWPS_CLASSIFY_OUT0" where
  "GuardianClassifyReset out =
     (let o1 = out\<lparr>fo_actionType := FWP_ACTION_NONE\<rparr>
      in o1\<lparr>fo_rights := fo_rights o1 AND NOT FWPS_RIGHT_ACTION_WRITE\<rparr>)"

definition GuardianClassifyPermit :: "FWPS_CLASSIFY_OUT0 \<Rightarrow> FWPS_CLASSIFY_OUT0" where
  "GuardianClassifyPermit out =
     (let o1 = out\<lparr>fo_actionType := FWP_ACTION_PERMIT\<rparr>
      in if fo_rights o1 AND FWPS_RIGHT_ACTION_WRITE \<noteq> 0
         then o1\<lparr>fo_flags := fo_flags o1 OR FWPS_CLASSIFY_OUT_FLAG_ABSORB\<rparr> else o1)"

definition GuardianClassifyBlock :: "FWPS_CLASSIFY_OUT0 \<Rightarrow> FWPS_CLASSIFY_OUT0" where
  "GuardianClassifyBlock out =
     (let o1 = out\<lparr>fo_actionType := FWP_ACTION_BLOCK\<rparr>
      in if fo_rights o1 AND FWPS_RIGHT_ACTION_WRITE \<noteq> 0
         then o1\<lparr>fo_flags := fo_flags o1 OR FWPS_CLASSIFY_OUT_FLAG_ABSORB\<rparr> else o1)"

section \<open>The decision\<close>

record GUARDIAN_CLASSIFY_RESULT =
  cr_Action :: GUARDIAN_CLASSIFY_ACTION
  cr_InterfaceLuid :: u64

definition GuardianCopyAppIdFromPolicy :: "GUARDIAN_APP_POLICY_V1 \<Rightarrow> bytes" where
  "GuardianCopyAppIdFromPolicy policy = take 16 (ap_AppId policy)"

text \<open>The switch on the policy's action: the action, and the result with its interface set.\<close>

definition apply_policy ::
  "GUARDIAN_APP_POLICY_V1 \<Rightarrow> GUARDIAN_CLASSIFY_RESULT \<Rightarrow>
     GUARDIAN_CLASSIFY_ACTION \<times> GUARDIAN_CLASSIFY_RESULT" where
  "apply_policy policy result =
     (case enum_of policy_actions policy_action_code (ap_Action policy) of
        Some GuardianPolicyBlock \<Rightarrow> (GuardianActionBlock, result)
      | Some GuardianPolicyRoute \<Rightarrow>
          (GuardianActionRoute, result\<lparr>cr_InterfaceLuid := ap_InterfaceLuid policy\<rparr>)
      | Some GuardianPolicyObserve \<Rightarrow> (GuardianActionObserve, result)
      | _ \<Rightarrow> (GuardianActionPermit, result))"

text \<open>The switch on the route's kind, which may override the action.\<close>

definition apply_route ::
  "GUARDIAN_ROUTE_ASSIGNMENT_V1 \<Rightarrow> GUARDIAN_CLASSIFY_ACTION \<Rightarrow> GUARDIAN_CLASSIFY_RESULT \<Rightarrow>
     GUARDIAN_CLASSIFY_ACTION \<times> GUARDIAN_CLASSIFY_RESULT" where
  "apply_route route action result =
     (case enum_of route_kinds route_kind_code (ra_RouteKind route) of
        Some GuardianRouteBlocked \<Rightarrow> (GuardianActionBlock, result)
      | Some GuardianRouteVpn \<Rightarrow>
          (GuardianActionRoute, result\<lparr>cr_InterfaceLuid := ra_InterfaceLuid route\<rparr>)
      | Some GuardianRouteTailnet \<Rightarrow>
          (GuardianActionRoute, result\<lparr>cr_InterfaceLuid := ra_InterfaceLuid route\<rparr>)
      | Some GuardianRouteTor \<Rightarrow> (GuardianActionPermit, result)
      | Some GuardianRouteProxy \<Rightarrow> (GuardianActionPermit, result)
      | Some GuardianRouteAnonymous \<Rightarrow> (GuardianActionPermit, result)
      | Some GuardianRouteChain \<Rightarrow> (GuardianActionPermit, result)
      | _ \<Rightarrow> (action, result))"

text \<open>\<open>start\<close> and \<open>stop\<close> are the two readings of the performance counter.\<close>

definition GuardianClassifyConnection ::
  "FWPS_INCOMING_VALUES0 option \<Rightarrow> u64 \<Rightarrow> u64 \<Rightarrow> guardian \<Rightarrow>
     ntstatus \<times> GUARDIAN_CLASSIFY_RESULT \<times> guardian" where
  "GuardianClassifyConnection inFixedValues start stop s =
     (let interfaceLuid = 0;
          result = \<lparr>cr_Action = GuardianActionPermit, cr_InterfaceLuid = 0\<rparr>
      in case GuardianKillSwitchEvaluate interfaceLuid (gs_KillSwitch s) of
           Some ksAction \<Rightarrow>
             (STATUS_SUCCESS, result\<lparr>cr_Action := ksAction\<rparr>,
              set_telemetry (GuardianTelemetryRecordClassify ksAction (stop - start)) s)
         | None \<Rightarrow>
             (case GuardianAppPolicyLookup inFixedValues (gs_Policies s) of
                (status, policy, foundPolicy) \<Rightarrow>
                if \<not> NT_SUCCESS status
                then (status, result, set_telemetry GuardianTelemetryRecordError s)
                else
                  let (action, result) =
                        (if foundPolicy then apply_policy policy result
                         else (GuardianActionPermit, result))
                  in case (if foundPolicy
                           then GuardianRouteLookup (GuardianCopyAppIdFromPolicy policy)
                                  (gs_Routes s)
                           else (STATUS_SUCCESS, zero_route, False)) of
                       (status, route, foundRoute) \<Rightarrow>
                       if \<not> NT_SUCCESS status
                       then (status, result, set_telemetry GuardianTelemetryRecordError s)
                       else
                         let (action, result) =
                               (if foundRoute then apply_route route action result
                                else (action, result))
                         in (STATUS_SUCCESS, result\<lparr>cr_Action := action\<rparr>,
                             set_telemetry
                               (GuardianTelemetryRecordClassify action (stop - start)) s)))"

section \<open>The decision as a table\<close>

text \<open>
  What the tables say about a connection: the first policy that matches it and, for that policy's
  application id, the route assignment.
\<close>

definition matching_policy ::
  "FWPS_INCOMING_VALUES0 \<Rightarrow> guardian \<Rightarrow> GUARDIAN_APP_POLICY_V1 option" where
  "matching_policy v s = policy_lookup_loop (app_id_blob v) (pt_list (gs_Policies s))"

definition matching_route ::
  "GUARDIAN_APP_POLICY_V1 option \<Rightarrow> guardian \<Rightarrow> GUARDIAN_ROUTE_ASSIGNMENT_V1 option" where
  "matching_route p s =
     Option.bind p (\<lambda>p. GuardianRouteFindLocked (take 16 (ap_AppId p)) (gs_Routes s))"

definition policy_verdict :: "GUARDIAN_APP_POLICY_V1 option \<Rightarrow> GUARDIAN_CLASSIFY_ACTION \<times> u64" where
  "policy_verdict p =
     (case p of
        None \<Rightarrow> (GuardianActionPermit, 0)
      | Some p \<Rightarrow>
          if ap_Action p = policy_action_code GuardianPolicyBlock then (GuardianActionBlock, 0)
          else if ap_Action p = policy_action_code GuardianPolicyRoute
          then (GuardianActionRoute, ap_InterfaceLuid p)
          else if ap_Action p = policy_action_code GuardianPolicyObserve
          then (GuardianActionObserve, 0)
          else (GuardianActionPermit, 0))"

definition decide ::
  "GUARDIAN_CLASSIFY_ACTION option \<Rightarrow> GUARDIAN_APP_POLICY_V1 option \<Rightarrow>
     GUARDIAN_ROUTE_ASSIGNMENT_V1 option \<Rightarrow> GUARDIAN_CLASSIFY_ACTION \<times> u64" where
  "decide kill p r =
     (case kill of
        Some a \<Rightarrow> (a, 0)
      | None \<Rightarrow>
          (case map_option ra_RouteKind r of
             None \<Rightarrow> policy_verdict p
           | Some k \<Rightarrow>
               if k = route_kind_code GuardianRouteBlocked
               then (GuardianActionBlock, snd (policy_verdict p))
               else if k \<in> {route_kind_code GuardianRouteVpn, route_kind_code GuardianRouteTailnet}
               then (GuardianActionRoute, ra_InterfaceLuid (the r))
               else if k \<in> {route_kind_code GuardianRouteTor, route_kind_code GuardianRouteProxy,
                          route_kind_code GuardianRouteAnonymous, route_kind_code GuardianRouteChain}
               then (GuardianActionPermit, snd (policy_verdict p))
               else policy_verdict p))"

section \<open>Lemmas\<close>

lemma apply_policy_verdict:
  "apply_policy p \<lparr>cr_Action = a, cr_InterfaceLuid = 0\<rparr> =
     (fst (policy_verdict (Some p)),
      \<lparr>cr_Action = a, cr_InterfaceLuid = snd (policy_verdict (Some p))\<rparr>)"
proof (cases "enum_of policy_actions policy_action_code (ap_Action p)")
  case None
  then have "\<forall>x. ap_Action p \<noteq> policy_action_code x"
    by (rule policy_action.enum_of_None [THEN iffD1])
  with None show ?thesis
    by (simp add: apply_policy_def policy_verdict_def del: policy_action_code.simps)
next
  case (Some x)
  then have "ap_Action p = policy_action_code x" by (simp add: policy_action.enum_of_iff)
  with Some show ?thesis
    by (cases x) (simp_all add: apply_policy_def policy_verdict_def)
qed

lemma apply_route_verdict:
  fixes r :: GUARDIAN_ROUTE_ASSIGNMENT_V1
  assumes "policy_verdict p = (act, luid)"
  shows "apply_route r act \<lparr>cr_Action = a, cr_InterfaceLuid = luid\<rparr> =
     (fst (decide None p (Some r)),
      \<lparr>cr_Action = a, cr_InterfaceLuid = snd (decide None p (Some r))\<rparr>)"
proof (cases "enum_of route_kinds route_kind_code (ra_RouteKind r)")
  case None
  then have "\<forall>x. ra_RouteKind r \<noteq> route_kind_code x"
    by (rule route_kind.enum_of_None [THEN iffD1])
  with None assms show ?thesis
    by (simp add: apply_route_def decide_def del: route_kind_code.simps)
next
  case (Some x)
  then have "ra_RouteKind r = route_kind_code x" by (simp add: route_kind.enum_of_iff)
  with Some assms show ?thesis
    by (cases x) (simp_all add: apply_route_def decide_def)
qed

lemma classify_connection_decide:
  "GuardianClassifyConnection (Some v) start stop s =
     (let p = matching_policy v s; r = matching_route p s;
          d = decide (GuardianKillSwitchEvaluate 0 (gs_KillSwitch s)) p r
      in (STATUS_SUCCESS, \<lparr>cr_Action = fst d, cr_InterfaceLuid = snd d\<rparr>,
          set_telemetry (GuardianTelemetryRecordClassify (fst d) (stop - start)) s))"
proof (cases "GuardianKillSwitchEvaluate 0 (gs_KillSwitch s)")
  case (Some a)
  then show ?thesis by (simp add: GuardianClassifyConnection_def decide_def Let_def)
next
  case kill: None
  show ?thesis
  proof (cases "matching_policy v s")
    case None
    then show ?thesis using kill
      by (simp add: GuardianClassifyConnection_def GuardianAppPolicyLookup_def matching_policy_def
          matching_route_def decide_def policy_verdict_def Let_def)
  next
    case (Some p)
    obtain act luid where v: "policy_verdict (Some p) = (act, luid)" by fastforce
    show ?thesis
    proof (cases "GuardianRouteFindLocked (take 16 (ap_AppId p)) (gs_Routes s)")
      case None
      then show ?thesis using kill Some v
        by (simp add: GuardianClassifyConnection_def GuardianAppPolicyLookup_def
            matching_policy_def matching_route_def decide_def apply_policy_verdict
            GuardianRouteLookup_def GuardianCopyAppIdFromPolicy_def Let_def)
    next
      case r: (Some r)
      then show ?thesis using kill Some v apply_route_verdict [OF v, of r GuardianActionPermit]
        by (simp add: GuardianClassifyConnection_def GuardianAppPolicyLookup_def
            matching_policy_def matching_route_def apply_policy_verdict
            GuardianRouteLookup_def GuardianCopyAppIdFromPolicy_def Let_def)
    qed
  qed
qed

lemma classify_connection_null:
  "GuardianClassifyConnection None start stop s =
     (case GuardianKillSwitchEvaluate 0 (gs_KillSwitch s) of
        Some a \<Rightarrow> (STATUS_SUCCESS, \<lparr>cr_Action = a, cr_InterfaceLuid = 0\<rparr>,
                   set_telemetry (GuardianTelemetryRecordClassify a (stop - start)) s)
      | None \<Rightarrow> (STATUS_INVALID_PARAMETER, \<lparr>cr_Action = GuardianActionPermit, cr_InterfaceLuid = 0\<rparr>,
                 set_telemetry GuardianTelemetryRecordError s))"
  by (simp add: GuardianClassifyConnection_def GuardianAppPolicyLookup_def Let_def
      split: option.splits)

text \<open>A classify changes the telemetry and nothing else.\<close>

lemma classify_connection_frame:
  "\<exists>t. snd (snd (GuardianClassifyConnection v start stop s)) = s\<lparr>gs_Telemetry := t\<rparr>"
  by (cases v) (auto simp: classify_connection_decide classify_connection_null set_telemetry_def
      Let_def split: option.splits)

lemma rights_after_reset:
  "fo_rights (GuardianClassifyReset out) AND FWPS_RIGHT_ACTION_WRITE = 0"
  by (simp add: GuardianClassifyReset_def Let_def and.assoc)

end
