(* ===== verification/Callout_Manager.thy ===== *)
theory Callout_Manager
  imports Classify
begin

text \<open>
  driver/callouts/manager.c: the classify functions the filter engine calls, the descriptors that
  name them, and the registration of the callouts with the engine.
\<close>

section \<open>Classify functions\<close>

definition GuardianAuthConnectClassifyV4 ::
  "FWPS_INCOMING_VALUES0 option \<Rightarrow> u64 \<Rightarrow> u64 \<Rightarrow> FWPS_CLASSIFY_OUT0 \<Rightarrow> guardian \<Rightarrow>
     FWPS_CLASSIFY_OUT0 \<times> guardian" where
  "GuardianAuthConnectClassifyV4 inFixedValues start stop classifyOut s =
     (let out = GuardianClassifyReset classifyOut
      in case GuardianClassifyConnection inFixedValues start stop s of
           (status, result, s') \<Rightarrow>
             if \<not> NT_SUCCESS status then (GuardianClassifyPermit out, s')
             else (case cr_Action result of
                     GuardianActionBlock \<Rightarrow> (GuardianClassifyBlock out, s')
                   | GuardianActionRoute \<Rightarrow> (GuardianClassifyPermit out, s')
                   | GuardianActionObserve \<Rightarrow> (GuardianClassifyPermit out, s')
                   | GuardianActionPermit \<Rightarrow> (GuardianClassifyPermit out, s')))"

definition GuardianAuthConnectClassifyV6 ::
  "FWPS_INCOMING_VALUES0 option \<Rightarrow> u64 \<Rightarrow> u64 \<Rightarrow> FWPS_CLASSIFY_OUT0 \<Rightarrow> guardian \<Rightarrow>
     FWPS_CLASSIFY_OUT0 \<times> guardian" where
  "GuardianAuthConnectClassifyV6 inFixedValues start stop classifyOut s =
     GuardianAuthConnectClassifyV4 inFixedValues start stop classifyOut s"

definition GuardianFlowEstablishedClassify :: "FWPS_CLASSIFY_OUT0 \<Rightarrow> FWPS_CLASSIFY_OUT0" where
  "GuardianFlowEstablishedClassify classifyOut =
     GuardianClassifyPermit (GuardianClassifyReset classifyOut)"

definition GuardianNotifyFn :: ntstatus where
  "GuardianNotifyFn = STATUS_SUCCESS"

text \<open>The engine calling the classify function of a descriptor.\<close>

definition call_classify_fn ::
  "classify_fn \<Rightarrow> FWPS_INCOMING_VALUES0 option \<Rightarrow> u64 \<Rightarrow> u64 \<Rightarrow> FWPS_CLASSIFY_OUT0 \<Rightarrow> guardian \<Rightarrow>
     FWPS_CLASSIFY_OUT0 \<times> guardian" where
  "call_classify_fn f v start stop out s =
     (case f of
        GuardianAuthConnectClassifyV4_fn \<Rightarrow> GuardianAuthConnectClassifyV4 v start stop out s
      | GuardianAuthConnectClassifyV6_fn \<Rightarrow> GuardianAuthConnectClassifyV6 v start stop out s
      | GuardianFlowEstablishedClassify_fn \<Rightarrow> (GuardianFlowEstablishedClassify out, s))"

section \<open>Registration\<close>

definition callout_descriptors :: "callout_descriptor list" where
  "callout_descriptors =
     [\<lparr>cd_calloutKey = GUARDIAN_CALLOUT_AUTH_CONNECT_V4_GUID,
       cd_classifyFn = GuardianAuthConnectClassifyV4_fn\<rparr>,
      \<lparr>cd_calloutKey = GUARDIAN_CALLOUT_AUTH_CONNECT_V6_GUID,
       cd_classifyFn = GuardianAuthConnectClassifyV6_fn\<rparr>,
      \<lparr>cd_calloutKey = GUARDIAN_CALLOUT_FLOW_ESTABLISHED_V4_GUID,
       cd_classifyFn = GuardianFlowEstablishedClassify_fn\<rparr>,
      \<lparr>cd_calloutKey = GUARDIAN_CALLOUT_FLOW_ESTABLISHED_V6_GUID,
       cd_classifyFn = GuardianFlowEstablishedClassify_fn\<rparr>]"

definition GuardianInitializeCalloutDescriptors :: "guardian \<Rightarrow> guardian" where
  "GuardianInitializeCalloutDescriptors s =
     set_callouts (\<lambda>c. c\<lparr>co_Descriptors := callout_descriptors\<rparr>) s"

text \<open>
  The calls of FwpsCalloutRegister1, one per descriptor, each with the status \<open>fwps key\<close> the engine
  answers for that key; an accepted call adds the key on the engine's side and increments the
  count, a refused one ends the registration.
\<close>

fun register_callouts ::
  "(GUID \<Rightarrow> ntstatus) \<Rightarrow> callout_descriptor list \<Rightarrow> callout_state \<Rightarrow> ntstatus \<times> callout_state" where
  "register_callouts fwps [] c = (STATUS_SUCCESS, c\<lparr>co_CalloutsRegistered := True\<rparr>)"
| "register_callouts fwps (d # ds) c =
     (let status = fwps (cd_calloutKey d)
      in if \<not> NT_SUCCESS status then (status, c)
         else register_callouts fwps ds
                (c\<lparr>co_EngineKeys := co_EngineKeys c @ [cd_calloutKey d],
                   co_RegisteredCalloutCount := co_RegisteredCalloutCount c + 1\<rparr>))"

definition GuardianCalloutManagerRegister ::
  "(GUID \<Rightarrow> ntstatus) \<Rightarrow> guardian \<Rightarrow> ntstatus \<times> guardian" where
  "GuardianCalloutManagerRegister fwps s =
     (if co_CalloutsRegistered (gs_Callouts s) then (STATUS_SUCCESS, s)
      else let s1 = GuardianInitializeCalloutDescriptors s;
               s2 = s1\<lparr>gs_Dns := snd GuardianDnsLayerInitialize\<rparr>
           in if gs_WdmDevice s2 = 0 then (STATUS_DEVICE_NOT_READY, s2)
              else (case register_callouts fwps (co_Descriptors (gs_Callouts s2)) (gs_Callouts s2) of
                      (status, c) \<Rightarrow> (status, s2\<lparr>gs_Callouts := c\<rparr>)))"

text \<open>
  FwpsCalloutUnregisterByKey0 answers a status per key, which the code ignores; the engine gives the
  key up when the call succeeds, and keeps it otherwise (a flow may still use the callout).
\<close>

definition unregister_key :: "(GUID \<Rightarrow> ntstatus) \<Rightarrow> GUID \<Rightarrow> GUID list \<Rightarrow> GUID list" where
  "unregister_key unregister key keys =
     (if NT_SUCCESS (unregister key) then removeAll key keys else keys)"

definition GuardianCalloutManagerUnregister :: "(GUID \<Rightarrow> ntstatus) \<Rightarrow> guardian \<Rightarrow> guardian" where
  "GuardianCalloutManagerUnregister unregister s =
     (if \<not> co_CalloutsRegistered (gs_Callouts s) then s
      else let c = gs_Callouts s;
               keys = unregister_key unregister GUARDIAN_CALLOUT_FLOW_ESTABLISHED_V6_GUID
                     (unregister_key unregister GUARDIAN_CALLOUT_FLOW_ESTABLISHED_V4_GUID
                     (unregister_key unregister GUARDIAN_CALLOUT_AUTH_CONNECT_V6_GUID
                     (unregister_key unregister GUARDIAN_CALLOUT_AUTH_CONNECT_V4_GUID
                       (co_EngineKeys c))))
           in s\<lparr>gs_Callouts := c\<lparr>co_EngineKeys := keys, co_CalloutsRegistered := False,
                                   co_RegisteredCalloutCount := 0\<rparr>,
                gs_Dns := GuardianDnsLayerShutdown (gs_Dns s)\<rparr>)"

definition GuardianCalloutManagerRegisteredCount :: "guardian \<Rightarrow> u32" where
  "GuardianCalloutManagerRegisteredCount s = co_RegisteredCalloutCount (gs_Callouts s)"

definition GuardianCalloutsAreRegistered :: "guardian \<Rightarrow> bool" where
  "GuardianCalloutsAreRegistered s = co_CalloutsRegistered (gs_Callouts s)"

section \<open>Lemmas\<close>

lemma permit_after_reset:
  "GuardianClassifyPermit (GuardianClassifyReset out) =
     out\<lparr>fo_actionType := FWP_ACTION_PERMIT,
         fo_rights := fo_rights out AND NOT FWPS_RIGHT_ACTION_WRITE\<rparr>"
  using rights_after_reset [of out]
  by (simp add: GuardianClassifyPermit_def GuardianClassifyReset_def Let_def)

lemma block_after_reset:
  "GuardianClassifyBlock (GuardianClassifyReset out) =
     out\<lparr>fo_actionType := FWP_ACTION_BLOCK,
         fo_rights := fo_rights out AND NOT FWPS_RIGHT_ACTION_WRITE\<rparr>"
  using rights_after_reset [of out]
  by (simp add: GuardianClassifyBlock_def GuardianClassifyReset_def Let_def)

lemma auth_connect_out:
  "fst (GuardianAuthConnectClassifyV4 v start stop out s) =
     out\<lparr>fo_actionType :=
           (case GuardianClassifyConnection v start stop s of (status, result, s') \<Rightarrow>
              if NT_SUCCESS status \<and> cr_Action result = GuardianActionBlock
              then FWP_ACTION_BLOCK else FWP_ACTION_PERMIT),
         fo_rights := fo_rights out AND NOT FWPS_RIGHT_ACTION_WRITE\<rparr>"
  by (auto simp: GuardianAuthConnectClassifyV4_def permit_after_reset block_after_reset Let_def
      split: prod.splits GUARDIAN_CLASSIFY_ACTION.splits)

lemma auth_connect_state:
  "snd (GuardianAuthConnectClassifyV4 v start stop out s) =
     snd (snd (GuardianClassifyConnection v start stop s))"
  by (auto simp: GuardianAuthConnectClassifyV4_def Let_def
      split: prod.splits GUARDIAN_CLASSIFY_ACTION.splits)

lemma call_classify_frame:
  "\<exists>t. snd (call_classify_fn f v start stop out s) = s\<lparr>gs_Telemetry := t\<rparr>"
proof (cases f)
  case GuardianFlowEstablishedClassify_fn
  then show ?thesis by (intro exI [of _ "gs_Telemetry s"]) (simp add: call_classify_fn_def)
qed (use classify_connection_frame in
    \<open>simp_all add: call_classify_fn_def GuardianAuthConnectClassifyV6_def auth_connect_state\<close>)

lemma register_callouts_success:
  assumes "register_callouts fwps ds c = (st, c')"
  shows "NT_SUCCESS st \<longleftrightarrow> (\<forall>d \<in> set ds. NT_SUCCESS (fwps (cd_calloutKey d)))"
    and "NT_SUCCESS st \<Longrightarrow> co_CalloutsRegistered c' \<and> st = STATUS_SUCCESS \<and>
      co_RegisteredCalloutCount c' = co_RegisteredCalloutCount c + of_nat (length ds) \<and>
      co_EngineKeys c' = co_EngineKeys c @ map cd_calloutKey ds"
    and "\<not> NT_SUCCESS st \<Longrightarrow> co_CalloutsRegistered c' = co_CalloutsRegistered c \<and>
      co_EngineKeys c' = co_EngineKeys c @
        map cd_calloutKey (takeWhile (\<lambda>d. NT_SUCCESS (fwps (cd_calloutKey d))) ds)"
  using assms by (induction fwps ds c rule: register_callouts.induct)
    (auto simp: Let_def split: if_splits)

lemma callout_keys:
  "map cd_calloutKey callout_descriptors =
     [GUARDIAN_CALLOUT_AUTH_CONNECT_V4_GUID, GUARDIAN_CALLOUT_AUTH_CONNECT_V6_GUID,
      GUARDIAN_CALLOUT_FLOW_ESTABLISHED_V4_GUID, GUARDIAN_CALLOUT_FLOW_ESTABLISHED_V6_GUID]"
  by (simp add: callout_descriptors_def)

section \<open>Properties\<close>

text \<open>The two classify functions of the connect layers, which the engine calls through a descriptor.\<close>

definition connect_fn :: "classify_fn \<Rightarrow> bool" where
  "connect_fn f \<longleftrightarrow> f \<noteq> GuardianFlowEstablishedClassify_fn"

lemma call_connect_fn:
  "connect_fn f \<Longrightarrow> call_classify_fn f v start stop out s =
     GuardianAuthConnectClassifyV4 v start stop out s"
  by (cases f) (simp_all add: connect_fn_def call_classify_fn_def GuardianAuthConnectClassifyV6_def)

lemma call_connect_out:
  "connect_fn f \<Longrightarrow> fst (call_classify_fn f (Some v) start stop out s) =
     out\<lparr>fo_actionType :=
           (if fst (decide (GuardianKillSwitchEvaluate 0 (gs_KillSwitch s)) (matching_policy v s)
                     (matching_route (matching_policy v s) s)) = GuardianActionBlock
            then FWP_ACTION_BLOCK else FWP_ACTION_PERMIT),
         fo_rights := fo_rights out AND NOT FWPS_RIGHT_ACTION_WRITE\<rparr>"
  by (simp add: call_connect_fn auth_connect_out classify_connection_decide Let_def)

text \<open>
  C1: For every connection that the filter engine hands to the IPv4 or IPv6 connect callout, the
  classify function implements the abstract decision over the kill switch, the first matching
  policy and the route of that policy: the output action is BLOCK exactly when the verdict is
  Block and PERMIT otherwise, the action-write right is cleared, the flags are kept, and the
  only state change is that the telemetry records the verdict with the measured latency.
\<close>

theorem classify_implements_decision:
  assumes "connect_fn f"
  shows "call_classify_fn f (Some v) start stop out s =
    (let p = matching_policy v s;
         verdict = fst (decide (GuardianKillSwitchEvaluate 0 (gs_KillSwitch s)) p
                          (matching_route p s))
     in (out\<lparr>fo_actionType := (if verdict = GuardianActionBlock then FWP_ACTION_BLOCK
                                else FWP_ACTION_PERMIT),
             fo_rights := fo_rights out AND NOT FWPS_RIGHT_ACTION_WRITE\<rparr>,
         s\<lparr>gs_Telemetry :=
             GuardianTelemetryRecordClassify verdict (stop - start) (gs_Telemetry s)\<rparr>))"
proof (rule prod_eqI)
  show "fst (call_classify_fn f (Some v) start stop out s) = fst (let p = matching_policy v s;
         verdict = fst (decide (GuardianKillSwitchEvaluate 0 (gs_KillSwitch s)) p
                          (matching_route p s))
     in (out\<lparr>fo_actionType := (if verdict = GuardianActionBlock then FWP_ACTION_BLOCK
                                else FWP_ACTION_PERMIT),
             fo_rights := fo_rights out AND NOT FWPS_RIGHT_ACTION_WRITE\<rparr>,
         s\<lparr>gs_Telemetry :=
             GuardianTelemetryRecordClassify verdict (stop - start) (gs_Telemetry s)\<rparr>))"
    by (simp add: call_connect_out [OF assms] Let_def)
qed (simp add: call_connect_fn [OF assms] auth_connect_state classify_connection_decide
    set_telemetry_def Let_def)

definition connect_out :: FWPS_CLASSIFY_OUT0 where
  "connect_out = \<lparr>fo_actionType = FWP_ACTION_NONE, fo_rights = 1, fo_flags = 0\<rparr>"

text \<open>A table that blocks every application.\<close>

definition block_everything :: guardian where
  "block_everything = guardian_image\<lparr>gs_Policies :=
     \<lparr>pt_list = [zero_app_policy\<lparr>ap_Version := 1,
                                  ap_Action := policy_action_code GuardianPolicyBlock\<rparr>],
      pt_count = 1\<rparr>\<rparr>"

lemma block_everything_simps [simp]:
  "GuardianKillSwitchEvaluate l (gs_KillSwitch block_everything) = None"
  "matching_policy (connect_v4 blob) block_everything =
     Some (zero_app_policy\<lparr>ap_Version := 1, ap_Action := policy_action_code GuardianPolicyBlock\<rparr>)"
  "gs_Routes block_everything = \<lparr>rt_list = [], rt_count = 0\<rparr>"
  by (simp_all add: block_everything_def matching_policy_def zero_app_policy_def)
    (simp add: guardian_image_def)

theorem classify_implements_decision_witness:
  "fo_actionType (fst (call_classify_fn GuardianAuthConnectClassifyV6_fn
      (Some (connect_v4 (Some [1]))) 0 0 connect_out block_everything)) = FWP_ACTION_BLOCK"
  using classify_implements_decision [of GuardianAuthConnectClassifyV6_fn "connect_v4 (Some [1])" 0 0
      connect_out block_everything]
  by (simp add: connect_fn_def Let_def decide_def policy_verdict_def matching_route_def
      GuardianRouteFindLocked_def)

text \<open>
  While the kill switch is in mode BlockAll, the connect callouts block every connection,
  whatever the policy table, the route table and the connection values are, and also when the
  values are missing.
\<close>

lemma block_all_blocks_every_connection:
  assumes "ks_Mode (gs_KillSwitch s) = ks_mode_code GuardianKsBlockAll" and "connect_fn f"
  shows "fo_actionType (fst (call_classify_fn f v start stop out s)) = FWP_ACTION_BLOCK"
  using assms by (cases v)
    (simp_all add: call_connect_fn auth_connect_out classify_connection_decide
      classify_connection_null decide_def Let_def ks_evaluate_simps del: ks_mode_code.simps)

lemma block_all_blocks_every_connection_witness:
  "fo_actionType (fst (call_classify_fn GuardianAuthConnectClassifyV4_fn None 0 0 connect_out
      (guardian_image\<lparr>gs_KillSwitch := \<lparr>ks_Mode = 1, ks_VpnInterfaceLuid = 0\<rparr>\<rparr>))) =
   FWP_ACTION_BLOCK"
  using block_all_blocks_every_connection [of "guardian_image\<lparr>gs_KillSwitch :=
      \<lparr>ks_Mode = 1, ks_VpnInterfaceLuid = 0\<rparr>\<rparr>" GuardianAuthConnectClassifyV4_fn]
  by (simp add: connect_fn_def)

text \<open>
  C23: While the kill switch is in mode AllowVpnOnly with a VPN interface set, the evaluation
  would permit a connection on that interface, but the connect callouts block every connection,
  the VPN ones too, because the classify passes interface 0 to the evaluation.
\<close>

theorem allow_vpn_only_blocks_the_vpn:
  assumes "ks_Mode (gs_KillSwitch s) = ks_mode_code GuardianKsAllowVpnOnly" and "connect_fn f"
    and "ks_VpnInterfaceLuid (gs_KillSwitch s) \<noteq> 0"
  shows "GuardianKillSwitchEvaluate (ks_VpnInterfaceLuid (gs_KillSwitch s)) (gs_KillSwitch s) =
      Some GuardianActionPermit \<and>
    fo_actionType (fst (call_classify_fn f v start stop out s)) = FWP_ACTION_BLOCK"
  using assms by (cases v)
    (simp_all add: call_connect_fn auth_connect_out classify_connection_decide
      classify_connection_null decide_def Let_def ks_evaluate_simps del: ks_mode_code.simps)

theorem allow_vpn_only_blocks_the_vpn_witness:
  "GuardianKillSwitchEvaluate 5 \<lparr>ks_Mode = 2, ks_VpnInterfaceLuid = 5\<rparr> =
     Some GuardianActionPermit \<and>
   fo_actionType (fst (call_classify_fn GuardianAuthConnectClassifyV4_fn
      (Some (connect_v4 (Some [1]))) 0 0 connect_out
      (guardian_image\<lparr>gs_KillSwitch := \<lparr>ks_Mode = 2, ks_VpnInterfaceLuid = 5\<rparr>\<rparr>))) =
   FWP_ACTION_BLOCK"
  using allow_vpn_only_blocks_the_vpn [of "guardian_image\<lparr>gs_KillSwitch :=
      \<lparr>ks_Mode = 2, ks_VpnInterfaceLuid = 5\<rparr>\<rparr>" GuardianAuthConnectClassifyV4_fn]
  by (simp add: connect_fn_def)

text \<open>
  C27: With the kill switch off and a matching policy whose action is Block, a connection is
  still permitted when the application has a route of kind Vpn, Tailnet, Tor, Proxy, Anonymous
  or Chain; it is blocked without a route and with any other route kind.
\<close>

theorem route_overrides_block_policy:
  assumes "connect_fn f" and "GuardianKillSwitchEvaluate 0 (gs_KillSwitch s) = None"
    and "matching_policy v s = Some p" and "ap_Action p = policy_action_code GuardianPolicyBlock"
  shows "fo_actionType (fst (call_classify_fn f (Some v) start stop out s)) =
    (case GuardianRouteFindLocked (take 16 (ap_AppId p)) (gs_Routes s) of
       None \<Rightarrow> FWP_ACTION_BLOCK
     | Some r \<Rightarrow>
         if ra_RouteKind r \<in> route_kind_code ` {GuardianRouteVpn, GuardianRouteTailnet,
              GuardianRouteTor, GuardianRouteProxy, GuardianRouteAnonymous, GuardianRouteChain}
         then FWP_ACTION_PERMIT else FWP_ACTION_BLOCK)"
  using assms
  by (simp add: call_connect_out decide_def matching_route_def policy_verdict_def
      split: option.splits)

theorem route_overrides_block_policy_witness:
  "fo_actionType (fst (call_classify_fn GuardianAuthConnectClassifyV4_fn
      (Some (connect_v4 (Some [1]))) 0 0 connect_out
      (block_everything\<lparr>gs_Routes := \<lparr>rt_list =
         [zero_route\<lparr>ra_Version := 1, ra_RouteKind := route_kind_code GuardianRouteTor\<rparr>],
         rt_count = 1\<rparr>\<rparr>))) = FWP_ACTION_PERMIT"
proof -
  let ?s = "block_everything\<lparr>gs_Routes := \<lparr>rt_list =
         [zero_route\<lparr>ra_Version := 1, ra_RouteKind := route_kind_code GuardianRouteTor\<rparr>],
         rt_count = 1\<rparr>\<rparr>"
  have "GuardianKillSwitchEvaluate 0 (gs_KillSwitch ?s) = None" by simp
  moreover have "matching_policy (connect_v4 (Some [1])) ?s = Some (zero_app_policy
      \<lparr>ap_Version := 1, ap_Action := policy_action_code GuardianPolicyBlock\<rparr>)"
    using block_everything_simps(2) by (simp add: matching_policy_def)
  ultimately show ?thesis
    using route_overrides_block_policy [of GuardianAuthConnectClassifyV4_fn ?s
        "connect_v4 (Some [1])"]
    by (simp add: connect_fn_def GuardianRouteFindLocked_def key_find_Cons zero_route_def
        zero_app_policy_def)
qed

lemma classify_error_permits:
  assumes "connect_fn f" and "GuardianKillSwitchEvaluate 0 (gs_KillSwitch s) = None"
  shows "call_classify_fn f None start stop out s =
    (out\<lparr>fo_actionType := FWP_ACTION_PERMIT,
         fo_rights := fo_rights out AND NOT FWPS_RIGHT_ACTION_WRITE\<rparr>,
     s\<lparr>gs_Telemetry := (gs_Telemetry s)\<lparr>tm_ErrorCount := tm_ErrorCount (gs_Telemetry s) + 1\<rparr>\<rparr>)"
  using assms
  by (simp add: call_connect_fn prod_eq_iff auth_connect_out auth_connect_state
      classify_connection_null set_telemetry_def GuardianTelemetryRecordError_def)

lemma classify_error_permits_witness:
  "fo_actionType (fst (call_classify_fn GuardianAuthConnectClassifyV4_fn None 0 0 connect_out
      guardian_image)) = FWP_ACTION_PERMIT"
  using classify_error_permits [of GuardianAuthConnectClassifyV4_fn guardian_image 0 0 connect_out]
  by (simp add: connect_fn_def)

lemma classify_never_absorbs:
  "fo_flags (fst (call_classify_fn f v start stop out s)) = fo_flags out \<and>
   fo_rights (fst (call_classify_fn f v start stop out s)) AND FWPS_RIGHT_ACTION_WRITE = 0 \<and>
   fo_actionType (fst (call_classify_fn f v start stop out s)) \<in>
     {FWP_ACTION_PERMIT, FWP_ACTION_BLOCK}"
  by (cases f)
    (simp_all add: call_classify_fn_def GuardianAuthConnectClassifyV6_def auth_connect_out
      GuardianFlowEstablishedClassify_def permit_after_reset and.assoc split: prod.splits)

text \<open>
  When the engine accepts some callouts and refuses a later one, the registration fails and
  a following unregistration does nothing: exactly the accepted callouts stay registered with
  the engine although the driver does not start.
\<close>

lemma partial_registration_leaks:
  assumes "\<not> GuardianCalloutsAreRegistered s" and "gs_WdmDevice s \<noteq> 0"
    and "\<not> NT_SUCCESS (fst (GuardianCalloutManagerRegister fwps s))"
  shows "co_EngineKeys (gs_Callouts
      (GuardianCalloutManagerUnregister unregister (snd (GuardianCalloutManagerRegister fwps s)))) =
    co_EngineKeys (gs_Callouts s) @
      takeWhile (\<lambda>k. NT_SUCCESS (fwps k)) (map cd_calloutKey callout_descriptors)"
proof -
  let ?c = "gs_Callouts (GuardianInitializeCalloutDescriptors s)"
  obtain st c where run: "register_callouts fwps callout_descriptors ?c = (st, c)" by fastforce
  have "GuardianCalloutManagerRegister fwps s =
      (st, (GuardianInitializeCalloutDescriptors s)
             \<lparr>gs_Dns := snd GuardianDnsLayerInitialize, gs_Callouts := c\<rparr>)"
    using assms(1,2) run
    by (simp add: GuardianCalloutManagerRegister_def GuardianCalloutsAreRegistered_def
        GuardianInitializeCalloutDescriptors_def Let_def)
  then show ?thesis
    using register_callouts_success(3) [OF run] assms(1,3)
    by (simp add: GuardianCalloutManagerUnregister_def GuardianCalloutsAreRegistered_def
        GuardianInitializeCalloutDescriptors_def takeWhile_map comp_def)
qed

lemma partial_registration_leaks_witness:
  "co_EngineKeys (gs_Callouts (GuardianCalloutManagerUnregister (\<lambda>_. STATUS_SUCCESS) (snd
      (GuardianCalloutManagerRegister
         (\<lambda>k. if k = GUARDIAN_CALLOUT_AUTH_CONNECT_V6_GUID then STATUS_INSUFFICIENT_RESOURCES
              else STATUS_SUCCESS) (guardian_image\<lparr>gs_WdmDevice := 1\<rparr>))))) =
   [GUARDIAN_CALLOUT_AUTH_CONNECT_V4_GUID]"
proof -
  let ?fwps = "\<lambda>k. if k = GUARDIAN_CALLOUT_AUTH_CONNECT_V6_GUID then STATUS_INSUFFICIENT_RESOURCES
              else STATUS_SUCCESS"
  let ?s = "guardian_image\<lparr>gs_WdmDevice := 1\<rparr>"
  have "\<not> NT_SUCCESS (fst (GuardianCalloutManagerRegister ?fwps ?s))"
    by (simp add: GuardianCalloutManagerRegister_def guardian_image_def callout_descriptors_def
        GuardianInitializeCalloutDescriptors_def Let_def set_callouts_def split: prod.splits)
  from partial_registration_leaks [OF _ _ this] show ?thesis
    by (simp add: GuardianCalloutsAreRegistered_def guardian_image_def callout_keys)
      (simp add: guid_defs)
qed

lemma callouts_registered_and_removed:
  assumes "\<not> GuardianCalloutsAreRegistered s" and "co_RegisteredCalloutCount (gs_Callouts s) = 0"
    and "co_EngineKeys (gs_Callouts s) = []"
    and "NT_SUCCESS (fst (GuardianCalloutManagerRegister fwps s))"
  shows "case GuardianCalloutManagerRegister fwps s of (st, s1) \<Rightarrow>
    GuardianCalloutsAreRegistered s1 \<and> GuardianCalloutManagerRegisteredCount s1 = 4 \<and>
    distinct (co_EngineKeys (gs_Callouts s1)) \<and>
    set (co_EngineKeys (gs_Callouts s1)) = cd_calloutKey ` set callout_descriptors \<and>
    GUARDIAN_CALLOUT_DNS_DATAGRAM_V4_GUID \<notin> set (co_EngineKeys (gs_Callouts s1)) \<and>
    GUARDIAN_CALLOUT_DNS_DATAGRAM_V6_GUID \<notin> set (co_EngineKeys (gs_Callouts s1)) \<and>
    GuardianCalloutManagerRegister fwps s1 = (STATUS_SUCCESS, s1) \<and>
    (case GuardianCalloutManagerUnregister unregister s1 of s2 \<Rightarrow>
       \<not> GuardianCalloutsAreRegistered s2 \<and>
       co_EngineKeys (gs_Callouts s2) =
         filter (\<lambda>k. \<not> NT_SUCCESS (unregister k)) (co_EngineKeys (gs_Callouts s1)) \<and>
       GuardianCalloutManagerRegisteredCount s2 = 0)"
proof -
  let ?c = "gs_Callouts (GuardianInitializeCalloutDescriptors s)"
  obtain st c where run: "register_callouts fwps callout_descriptors ?c = (st, c)" by fastforce
  have dev: "gs_WdmDevice s \<noteq> 0"
    using assms(1,4) by (auto simp: GuardianCalloutManagerRegister_def
        GuardianCalloutsAreRegistered_def GuardianInitializeCalloutDescriptors_def Let_def)
  have reg: "GuardianCalloutManagerRegister fwps s =
      (st, (GuardianInitializeCalloutDescriptors s)
             \<lparr>gs_Dns := snd GuardianDnsLayerInitialize, gs_Callouts := c\<rparr>)"
    using assms(1) dev run
    by (simp add: GuardianCalloutManagerRegister_def GuardianCalloutsAreRegistered_def
        GuardianInitializeCalloutDescriptors_def Let_def)
  then have "NT_SUCCESS st" using assms(4) by simp
  from register_callouts_success(2) [OF run this]
  have c: "co_CalloutsRegistered c" "co_RegisteredCalloutCount c = 4"
    "co_EngineKeys c = map cd_calloutKey callout_descriptors"
    using assms(2,3)
    by (simp_all add: GuardianInitializeCalloutDescriptors_def callout_descriptors_def)
  have keys: "distinct (map cd_calloutKey callout_descriptors)"
    "GUARDIAN_CALLOUT_DNS_DATAGRAM_V4_GUID \<notin> set (map cd_calloutKey callout_descriptors)"
    "GUARDIAN_CALLOUT_DNS_DATAGRAM_V6_GUID \<notin> set (map cd_calloutKey callout_descriptors)"
    unfolding callout_keys by (simp_all add: guid_defs)
  show ?thesis
    using reg c keys
    by (simp add: GuardianCalloutsAreRegistered_def GuardianCalloutManagerRegisteredCount_def
        GuardianCalloutManagerRegister_def GuardianCalloutManagerUnregister_def)
      (simp add: callout_keys unregister_key_def guid_defs)
qed

lemma callouts_registered_and_removed_witness:
  "GuardianCalloutManagerRegisteredCount (snd (GuardianCalloutManagerRegister (\<lambda>_. STATUS_SUCCESS)
      (guardian_image\<lparr>gs_WdmDevice := 1\<rparr>))) = 4"
proof -
  let ?s = "guardian_image\<lparr>gs_WdmDevice := 1\<rparr>"
  have "NT_SUCCESS (fst (GuardianCalloutManagerRegister (\<lambda>_. STATUS_SUCCESS) ?s))"
    by (simp add: GuardianCalloutManagerRegister_def guardian_image_def callout_descriptors_def
        GuardianInitializeCalloutDescriptors_def Let_def set_callouts_def split: prod.splits)
  from callouts_registered_and_removed [OF _ _ _ this, where unregister = "\<lambda>_. STATUS_SUCCESS"] show ?thesis
    by (simp add: GuardianCalloutsAreRegistered_def guardian_image_def split: prod.splits)
qed

end
