(* ===== verification/Hybrid_Coordinator.thy ===== *)
theory Hybrid_Coordinator
  imports Guardian_State
begin

text \<open>
  driver/filters/filters.c with the filter counter of guardian\_state\_mgr.c: the driver's mode (WFP,
  NDIS or both), the poll of the NDIS driver, and the filter count that the driver state reports.
\<close>

section \<open>The NDIS driver\<close>

text \<open>
  The other driver is outside the program: the status of opening its device, the status of its
  GET\_DRIVER\_STATE request, and the bytes the request wrote to the output buffer.
\<close>

record ndis_device =
  nx_open :: ntstatus
  nx_ioctl :: ntstatus
  nx_output :: bytes

text \<open>The result is the status with the value written to *filterCount; None is a NULL pointer.\<close>

definition GuardianNdisQueryFilterCountViaIoctl ::
  "ndis_device \<Rightarrow> u32 option \<Rightarrow> ntstatus \<times> u32 option" where
  "GuardianNdisQueryFilterCountViaIoctl ndis filterCount =
     (case filterCount of
        None \<Rightarrow> (STATUS_INVALID_PARAMETER, None)
      | Some _ \<Rightarrow>
          if \<not> NT_SUCCESS (nx_open ndis) then (nx_open ndis, Some 0)
          else let zeroed = replicate sizeof_GUARDIAN_NDIS_DRIVER_STATE_POLL 0;
                   ndisState = fst (the (rd_ndis_poll (overlay (nx_output ndis) zeroed)))
               in if \<not> NT_SUCCESS (nx_ioctl ndis) then (nx_ioctl ndis, Some 0)
                  else (STATUS_SUCCESS, Some (nd_FilterAttached ndisState)))"

lemma ndis_state_readable:
  "rd_ndis_poll (overlay out (replicate sizeof_GUARDIAN_NDIS_DRIVER_STATE_POLL 0)) \<noteq> None"
  by (simp add: ndis_poll_layout.rd_none del: overlay_def)

section \<open>Operations\<close>

definition GuardianHybridIsValidMode :: "u32 \<Rightarrow> bool" where
  "GuardianHybridIsValidMode mode \<longleftrightarrow> mode \<le> guardian_mode_code GuardianModeHybrid"

definition GuardianFiltersInitialize :: ntstatus where
  "GuardianFiltersInitialize = STATUS_SUCCESS"

definition GuardianFiltersShutdown :: "guardian \<Rightarrow> guardian" where
  "GuardianFiltersShutdown s = s"

definition GuardianStateManagerFilterCount :: "guardian \<Rightarrow> u32" where
  "GuardianStateManagerFilterCount s = gs_FilterCount s"

definition GuardianHybridGetCombinedFilterCount :: "guardian \<Rightarrow> u32" where
  "GuardianHybridGetCombinedFilterCount s =
     (let wfpCount = GuardianStateManagerFilterCount s; h = gs_Hybrid s
      in if hy_GuardianMode h = guardian_mode_code GuardianModeHybrid
         then wfpCount + hy_NdisFilterCount h
         else if hy_GuardianMode h = guardian_mode_code GuardianModeNdis
         then hy_NdisFilterCount h
         else wfpCount)"

definition publish_filter_count :: "guardian \<Rightarrow> guardian" where
  "publish_filter_count s =
     set_driver (\<lambda>d. d\<lparr>dv_FilterCount := GuardianHybridGetCombinedFilterCount s\<rparr>) s"

definition GuardianHybridPollNdisState :: "ndis_device \<Rightarrow> guardian \<Rightarrow> ntstatus \<times> guardian" where
  "GuardianHybridPollNdisState ndis s =
     (case GuardianNdisQueryFilterCountViaIoctl ndis (Some 0) of
        (status, polledCount) \<Rightarrow>
          let s1 = (if NT_SUCCESS status
                    then set_hybrid (\<lambda>h. h\<lparr>hy_NdisFilterCount := the polledCount\<rparr>) s else s);
              s2 = set_hybrid (\<lambda>h. h\<lparr>hy_NdisPollGeneration := hy_NdisPollGeneration h + 1\<rparr>) s1
          in (status, publish_filter_count s2))"

definition GuardianHybridCoordinatorInitialize ::
  "ndis_device \<Rightarrow> guardian \<Rightarrow> ntstatus \<times> guardian" where
  "GuardianHybridCoordinatorInitialize ndis s =
     (let status = GuardianFiltersInitialize
      in if \<not> NT_SUCCESS status then (status, s)
         else let s1 = set_hybrid (\<lambda>h. h\<lparr>hy_CoordinatorActive := True\<rparr>) s;
                  s2 = snd (GuardianHybridPollNdisState ndis s1)
              in (STATUS_SUCCESS, publish_filter_count s2))"

definition GuardianHybridCoordinatorShutdown :: "guardian \<Rightarrow> guardian" where
  "GuardianHybridCoordinatorShutdown s =
     (if \<not> hy_CoordinatorActive (gs_Hybrid s) then s
      else GuardianFiltersShutdown (set_hybrid (\<lambda>h. h\<lparr>hy_CoordinatorActive := False\<rparr>) s))"

definition GuardianHybridGetNdisFilterCount :: "guardian \<Rightarrow> u32" where
  "GuardianHybridGetNdisFilterCount s = hy_NdisFilterCount (gs_Hybrid s)"

definition GuardianHybridSetNdisFilterCount :: "u32 \<Rightarrow> guardian \<Rightarrow> guardian" where
  "GuardianHybridSetNdisFilterCount filterCount s =
     publish_filter_count (set_hybrid (\<lambda>h. h\<lparr>hy_NdisFilterCount := filterCount\<rparr>) s)"

definition GuardianHybridGetMode :: "guardian \<Rightarrow> u32" where
  "GuardianHybridGetMode s = hy_GuardianMode (gs_Hybrid s)"

definition GuardianHybridSetMode ::
  "ndis_device \<Rightarrow> u32 \<Rightarrow> guardian \<Rightarrow> ntstatus \<times> guardian" where
  "GuardianHybridSetMode ndis mode s =
     (if \<not> GuardianHybridIsValidMode mode then (STATUS_INVALID_PARAMETER, s)
      else
        let s1 = (if hy_CoordinatorActive (gs_Hybrid s) \<and>
                     mode \<noteq> guardian_mode_code GuardianModeHybrid
                  then GuardianHybridCoordinatorShutdown s else s);
            s2 = set_hybrid (\<lambda>h. h\<lparr>hy_GuardianMode := mode\<rparr>) s1;
            s3 = set_driver (\<lambda>d. d\<lparr>dv_GuardianMode := mode\<rparr>) s2
        in if mode = guardian_mode_code GuardianModeHybrid \<and> \<not> hy_CoordinatorActive (gs_Hybrid s3)
           then GuardianHybridCoordinatorInitialize ndis s3
           else
             let s4 = (if mode = guardian_mode_code GuardianModeNdis
                       then snd (GuardianHybridPollNdisState ndis s3) else s3)
             in (STATUS_SUCCESS, publish_filter_count s4))"

section \<open>Lemmas\<close>

text \<open>
  The coordinator runs exactly in hybrid mode, the mode is one of the three, and the driver state
  reports the mode and the filter count of that mode.
\<close>

definition hybrid_inv :: "guardian \<Rightarrow> bool" where
  "hybrid_inv s \<longleftrightarrow>
     GuardianHybridIsValidMode (hy_GuardianMode (gs_Hybrid s)) \<and>
     (hy_CoordinatorActive (gs_Hybrid s) \<longleftrightarrow>
        hy_GuardianMode (gs_Hybrid s) = guardian_mode_code GuardianModeHybrid) \<and>
     dv_GuardianMode (gs_Driver s) = hy_GuardianMode (gs_Hybrid s) \<and>
     dv_FilterCount (gs_Driver s) = GuardianHybridGetCombinedFilterCount s"

lemma publish_frame [simp]:
  "gs_Hybrid (publish_filter_count s) = gs_Hybrid s"
  "gs_FilterCount (publish_filter_count s) = gs_FilterCount s"
  "gs_Driver (publish_filter_count s) =
     (gs_Driver s)\<lparr>dv_FilterCount := GuardianHybridGetCombinedFilterCount s\<rparr>"
  by (simp_all add: publish_filter_count_def)

lemma combined_cong:
  "gs_Hybrid s' = gs_Hybrid s \<Longrightarrow> gs_FilterCount s' = gs_FilterCount s \<Longrightarrow>
     GuardianHybridGetCombinedFilterCount s' = GuardianHybridGetCombinedFilterCount s"
  by (simp add: GuardianHybridGetCombinedFilterCount_def GuardianStateManagerFilterCount_def)

lemma combined_publish [simp]:
  "GuardianHybridGetCombinedFilterCount (publish_filter_count s) =
     GuardianHybridGetCombinedFilterCount s"
  by (rule combined_cong) simp_all

lemma publish_twice [simp]: "publish_filter_count (publish_filter_count s) = publish_filter_count s"
  using combined_publish [of s] by (simp add: publish_filter_count_def set_driver_def)

text \<open>
  What the hybrid operations leave alone: the state with their own variables, and the two fields
  of the driver state they write, blanked out.
\<close>

definition outside_hybrid :: "guardian \<Rightarrow> guardian" where
  "outside_hybrid s =
     s\<lparr>gs_Hybrid := gs_Hybrid guardian_image,
       gs_Driver := (gs_Driver s)\<lparr>dv_GuardianMode := 0, dv_FilterCount := 0\<rparr>\<rparr>"

lemma outside_steps [simp]:
  "outside_hybrid (set_hybrid f s) = outside_hybrid s"
  "outside_hybrid (publish_filter_count s) = outside_hybrid s"
  "outside_hybrid (set_driver (\<lambda>d. d\<lparr>dv_GuardianMode := m\<rparr>) s) = outside_hybrid s"
  by (simp_all add: outside_hybrid_def set_hybrid_def publish_filter_count_def set_driver_def)

lemma outside_poll [simp]:
  "outside_hybrid (snd (GuardianHybridPollNdisState ndis s)) = outside_hybrid s"
  by (simp add: GuardianHybridPollNdisState_def Let_def split: prod.splits)

lemma outside_coordinator [simp]:
  "outside_hybrid (snd (GuardianHybridCoordinatorInitialize ndis s)) = outside_hybrid s"
  "outside_hybrid (GuardianHybridCoordinatorShutdown s) = outside_hybrid s"
  by (simp_all add: GuardianHybridCoordinatorInitialize_def GuardianFiltersInitialize_def
      GuardianHybridCoordinatorShutdown_def GuardianFiltersShutdown_def Let_def)

lemma outside_set_mode [simp]:
  "outside_hybrid (snd (GuardianHybridSetMode ndis mode s)) = outside_hybrid s"
  by (simp add: GuardianHybridSetMode_def Let_def)

lemma outside_hybridD:
  assumes "outside_hybrid s' = outside_hybrid s"
  shows "gs_Policies s' = gs_Policies s" "gs_Routes s' = gs_Routes s"
    "gs_KillSwitch s' = gs_KillSwitch s" "gs_Telemetry s' = gs_Telemetry s"
    "gs_Dns s' = gs_Dns s" "gs_RecoveryGeneration s' = gs_RecoveryGeneration s"
    "gs_FilterCount s' = gs_FilterCount s" "gs_RecoveryStatus s' = gs_RecoveryStatus s"
    "gs_Callouts s' = gs_Callouts s" "gs_WdmDevice s' = gs_WdmDevice s"
    "gs_DeviceContext s' = gs_DeviceContext s"
    "gs_AllowedServicePid s' = gs_AllowedServicePid s"
    "(gs_Driver s')\<lparr>dv_GuardianMode := 0, dv_FilterCount := 0\<rparr> =
       (gs_Driver s)\<lparr>dv_GuardianMode := 0, dv_FilterCount := 0\<rparr>"
  using assms [THEN arg_cong, of gs_Policies] assms [THEN arg_cong, of gs_Routes]
    assms [THEN arg_cong, of gs_KillSwitch] assms [THEN arg_cong, of gs_Telemetry]
    assms [THEN arg_cong, of gs_Dns] assms [THEN arg_cong, of gs_RecoveryGeneration]
    assms [THEN arg_cong, of gs_FilterCount] assms [THEN arg_cong, of gs_RecoveryStatus]
    assms [THEN arg_cong, of gs_Callouts] assms [THEN arg_cong, of gs_WdmDevice]
    assms [THEN arg_cong, of gs_DeviceContext] assms [THEN arg_cong, of gs_AllowedServicePid]
    assms [THEN arg_cong, of gs_Driver]
  by (simp_all add: outside_hybrid_def)

lemma poll_hybrid:
  "gs_Hybrid (snd (GuardianHybridPollNdisState ndis s)) =
     (gs_Hybrid s)\<lparr>hy_NdisFilterCount :=
          (if NT_SUCCESS (fst (GuardianHybridPollNdisState ndis s))
           then the (snd (GuardianNdisQueryFilterCountViaIoctl ndis (Some 0)))
           else hy_NdisFilterCount (gs_Hybrid s)),
        hy_NdisPollGeneration := hy_NdisPollGeneration (gs_Hybrid s) + 1\<rparr>"
  by (simp add: GuardianHybridPollNdisState_def Let_def split: prod.splits)

lemma poll_publishes:
  "dv_FilterCount (gs_Driver (snd (GuardianHybridPollNdisState ndis s))) =
     GuardianHybridGetCombinedFilterCount (snd (GuardianHybridPollNdisState ndis s))"
  "dv_GuardianMode (gs_Driver (snd (GuardianHybridPollNdisState ndis s))) =
     dv_GuardianMode (gs_Driver s)"
  by (simp_all add: GuardianHybridPollNdisState_def Let_def split: prod.splits)

lemma set_mode_valid:
  assumes "GuardianHybridIsValidMode mode"
    and "hy_CoordinatorActive (gs_Hybrid s) \<longleftrightarrow>
       hy_GuardianMode (gs_Hybrid s) = guardian_mode_code GuardianModeHybrid"
  shows "fst (GuardianHybridSetMode ndis mode s) = STATUS_SUCCESS"
    and "hybrid_inv (snd (GuardianHybridSetMode ndis mode s))"
    and "hy_GuardianMode (gs_Hybrid (snd (GuardianHybridSetMode ndis mode s))) = mode"
  using assms
  by (auto simp: GuardianHybridSetMode_def hybrid_inv_def Let_def poll_hybrid poll_publishes
      GuardianHybridCoordinatorInitialize_def GuardianFiltersInitialize_def
      GuardianHybridCoordinatorShutdown_def GuardianFiltersShutdown_def)

lemma set_mode_invalid:
  "\<not> GuardianHybridIsValidMode mode \<Longrightarrow>
     GuardianHybridSetMode ndis mode s = (STATUS_INVALID_PARAMETER, s)"
  by (simp add: GuardianHybridSetMode_def)

lemma hybrid_inv_set_mode: "hybrid_inv s \<Longrightarrow> hybrid_inv (snd (GuardianHybridSetMode ndis mode s))"
  by (cases "GuardianHybridIsValidMode mode")
    (simp_all add: set_mode_invalid set_mode_valid hybrid_inv_def [of s])

lemma hybrid_inv_cong:
  "gs_Hybrid s' = gs_Hybrid s \<Longrightarrow> gs_FilterCount s' = gs_FilterCount s \<Longrightarrow>
     dv_GuardianMode (gs_Driver s') = dv_GuardianMode (gs_Driver s) \<Longrightarrow>
     dv_FilterCount (gs_Driver s') = dv_FilterCount (gs_Driver s) \<Longrightarrow>
     hybrid_inv s' \<longleftrightarrow> hybrid_inv s"
  using combined_cong [of s' s] by (simp add: hybrid_inv_def)

section \<open>Properties\<close>

text \<open>
  Setting the guardian mode from a consistent state succeeds exactly for the three modes;
  it then stores the mode, runs the coordinator exactly in hybrid mode, reports the mode and its
  filter count in the driver state even when the NDIS driver cannot be polled, and touches
  nothing outside the hybrid coordinator; any other mode is refused with no change.
\<close>

lemma set_mode_establishes_mode:
  assumes "hybrid_inv s"
  shows "case GuardianHybridSetMode ndis mode s of (st, s') \<Rightarrow>
    hybrid_inv s' \<and> outside_hybrid s' = outside_hybrid s \<and>
    (if mode \<le> guardian_mode_code GuardianModeHybrid
     then st = STATUS_SUCCESS \<and> GuardianHybridGetMode s' = mode \<and>
       (hy_CoordinatorActive (gs_Hybrid s') \<longleftrightarrow> mode = guardian_mode_code GuardianModeHybrid)
     else st = STATUS_INVALID_PARAMETER \<and> s' = s)"
proof (cases "GuardianHybridIsValidMode mode")
  case True
  have act: "hy_CoordinatorActive (gs_Hybrid s) \<longleftrightarrow>
      hy_GuardianMode (gs_Hybrid s) = guardian_mode_code GuardianModeHybrid"
    using assms by (simp add: hybrid_inv_def)
  show ?thesis
    using set_mode_valid [OF True act, of ndis] outside_set_mode [of ndis mode s] True
    by (auto simp: GuardianHybridGetMode_def GuardianHybridIsValidMode_def hybrid_inv_def
        simp del: guardian_mode_code.simps outside_set_mode split: prod.splits)
next
  case False
  then show ?thesis using assms set_mode_invalid [OF False, of ndis s]
    by (simp add: GuardianHybridIsValidMode_def)
qed

lemma set_mode_establishes_mode_witness:
  "GuardianHybridGetMode (snd (GuardianHybridSetMode
      \<lparr>nx_open = STATUS_NOT_FOUND, nx_ioctl = 0, nx_output = []\<rparr> 2
      (set_driver (\<lambda>d. d\<lparr>dv_GuardianMode := 0\<rparr>) guardian_image))) = 2"
proof -
  let ?s = "set_driver (\<lambda>d. d\<lparr>dv_GuardianMode := 0\<rparr>) guardian_image"
  have "hybrid_inv ?s"
    by (simp add: hybrid_inv_def GuardianHybridIsValidMode_def guardian_image_def
        zero_driver_state_def GuardianHybridGetCombinedFilterCount_def
        GuardianStateManagerFilterCount_def set_driver_def)
  from set_mode_establishes_mode [OF this, of 2 "\<lparr>nx_open = STATUS_NOT_FOUND, nx_ioctl = 0, nx_output = []\<rparr>"]
  show ?thesis by (simp split: prod.splits)
qed

end
