(* ===== verification/State_Manager.thy ===== *)
theory State_Manager
  imports Hybrid_Coordinator
begin

text \<open>
  driver/state/guardian\_state\_mgr.c and driver/recovery/recovery.c: initialisation of the tables and
  of the recovery generation, the export and import of the state blob header, and the recovery
  manager with its reconcile reply.
\<close>

section \<open>The state manager\<close>

definition GuardianStateManagerInitialize :: "guardian \<Rightarrow> ntstatus \<times> guardian" where
  "GuardianStateManagerInitialize s =
     (STATUS_SUCCESS,
      s\<lparr>gs_Policies := GuardianAppPolicyInitialize, gs_Routes := GuardianRouteInitialize,
        gs_RecoveryGeneration := 0, gs_FilterCount := 0\<rparr>)"

definition GuardianStateManagerShutdown :: "guardian \<Rightarrow> guardian" where
  "GuardianStateManagerShutdown s =
     s\<lparr>gs_Routes := GuardianRouteShutdown (gs_Routes s),
       gs_Policies := GuardianAppPolicyShutdown (gs_Policies s)\<rparr>"

definition GuardianStateManagerRecoveryGeneration :: "guardian \<Rightarrow> u32" where
  "GuardianStateManagerRecoveryGeneration s = gs_RecoveryGeneration s"

definition GuardianStateManagerSetRecoveryGeneration :: "u32 \<Rightarrow> guardian \<Rightarrow> guardian" where
  "GuardianStateManagerSetRecoveryGeneration generation s =
     set_driver (\<lambda>d. d\<lparr>dv_RecoveryGeneration := generation\<rparr>)
       (s\<lparr>gs_RecoveryGeneration := generation\<rparr>)"

definition export_header :: "guardian \<Rightarrow> GUARDIAN_STATE_BLOB_HEADER_V1" where
  "export_header s =
     \<lparr>sb_Version = GUARDIAN_STATE_BLOB_VERSION,
      sb_PolicyCount = GuardianAppPolicyActiveCount (gs_Policies s),
      sb_RouteCount = GuardianRouteActiveCount (gs_Routes s),
      sb_KillSwitchMode = GuardianKillSwitchGetMode (gs_KillSwitch s),
      sb_RecoveryGeneration = gs_RecoveryGeneration s,
      sb_Reserved = 0\<rparr>"

text \<open>
  The export writes through two pointers; \<open>buffer\<close> and \<open>bytesWritten\<close> are None when NULL and the
  memory before the call otherwise. The result is the status with both memories after it.
\<close>

definition GuardianStateManagerExport ::
  "bytes option \<Rightarrow> u32 \<Rightarrow> u32 option \<Rightarrow> guardian \<Rightarrow>
     fault + (ntstatus \<times> bytes option \<times> u32 option)" where
  "GuardianStateManagerExport buffer bufferBytes bytesWritten s =
     (case buffer of
        None \<Rightarrow> Inr (STATUS_INVALID_PARAMETER, buffer, bytesWritten)
      | Some b \<Rightarrow>
          if bytesWritten = None then Inr (STATUS_INVALID_PARAMETER, buffer, bytesWritten)
          else if unat bufferBytes < sizeof_GUARDIAN_STATE_BLOB_HEADER_V1
          then Inr (STATUS_BUFFER_TOO_SMALL, buffer, bytesWritten)
          else bind_fault (write_mem (enc_state_blob (export_header s)) b)
                 (\<lambda>b'. Inr (STATUS_SUCCESS, Some b',
                           Some (of_nat sizeof_GUARDIAN_STATE_BLOB_HEADER_V1))))"

text \<open>The import reads the header at the front of the buffer.\<close>

definition GuardianStateManagerImport ::
  "bytes option \<Rightarrow> u32 \<Rightarrow> guardian \<Rightarrow> fault + (ntstatus \<times> guardian)" where
  "GuardianStateManagerImport buffer bufferBytes s =
     (case buffer of
        None \<Rightarrow> Inr (STATUS_INVALID_PARAMETER, s)
      | Some b \<Rightarrow>
          if unat bufferBytes < sizeof_GUARDIAN_STATE_BLOB_HEADER_V1
          then Inr (STATUS_INVALID_PARAMETER, s)
          else (case rd_state_blob b of
                  None \<Rightarrow> Inl OutOfBounds
                | Some (header, _) \<Rightarrow>
                    if sb_Version header \<noteq> GUARDIAN_STATE_BLOB_VERSION
                    then Inr (STATUS_INVALID_PARAMETER, s)
                    else
                      let s1 = s\<lparr>gs_RecoveryGeneration := sb_RecoveryGeneration header\<rparr>;
                          s2 = set_driver
                                 (\<lambda>d. d\<lparr>dv_RecoveryGeneration := gs_RecoveryGeneration s1\<rparr>) s1;
                          s3 = set_driver
                                 (\<lambda>d. d\<lparr>dv_KillSwitchMode := sb_KillSwitchMode header\<rparr>) s2
                      in Inr (STATUS_SUCCESS, s3)))"

section \<open>The recovery manager\<close>

text \<open>The registry path argument is not used.\<close>

definition GuardianRecoveryManagerInitialize ::
  "registry option \<Rightarrow> guardian \<Rightarrow> ntstatus \<times> guardian" where
  "GuardianRecoveryManagerInitialize RegistryPath s =
     (STATUS_SUCCESS, s\<lparr>gs_RecoveryStatus := GUARDIAN_RECOVERY_STATUS_OK\<rparr>)"

definition GuardianRecoveryManagerBegin :: "guardian \<Rightarrow> ntstatus \<times> guardian" where
  "GuardianRecoveryManagerBegin s =
     (let generation = GuardianStateManagerRecoveryGeneration s + 1;
          s1 = GuardianStateManagerSetRecoveryGeneration generation s;
          s2 = set_driver (\<lambda>d. d\<lparr>dv_RecoveryGeneration := generation\<rparr>) s1
      in (STATUS_SUCCESS, s2\<lparr>gs_RecoveryStatus := GUARDIAN_RECOVERY_STATUS_OK\<rparr>))"

text \<open>
  The reply of a reconcile; \<open>response\<close> is None when NULL. The ids are a pointer (an offset in the
  request buffer, None for NULL) that the code, like their count, does not use.
\<close>

definition GuardianRecoveryReconcile ::
  "nat option \<Rightarrow> u32 \<Rightarrow> GUARDIAN_RECONCILE_RESPONSE_V1 option \<Rightarrow> guardian \<Rightarrow>
     ntstatus \<times> GUARDIAN_RECONCILE_RESPONSE_V1 option" where
  "GuardianRecoveryReconcile knownFilterIds knownCount response s =
     (case response of
        None \<Rightarrow> (STATUS_INVALID_PARAMETER, None)
      | Some _ \<Rightarrow>
          (STATUS_SUCCESS,
           Some \<lparr>rr_Version = 1, rr_RemovedOrphans = 0,
                 rr_RecoveryGeneration = GuardianStateManagerRecoveryGeneration s,
                 rr_RecoveryStatus = gs_RecoveryStatus s\<rparr>))"

section \<open>Lemmas\<close>

text \<open>The generation that the driver state reports is the state manager's.\<close>

definition generation_inv :: "guardian \<Rightarrow> bool" where
  "generation_inv s \<longleftrightarrow> dv_RecoveryGeneration (gs_Driver s) = gs_RecoveryGeneration s"

lemma import_cases:
  assumes "GuardianStateManagerImport buffer n s = Inr (st, s')"
  obtains (reject) "st = STATUS_INVALID_PARAMETER" and "s' = s"
  | (accept) b h r where "buffer = Some b" and "rd_state_blob b = Some (h, r)"
      and "sb_Version h = GUARDIAN_STATE_BLOB_VERSION" and "st = STATUS_SUCCESS"
      and "s' = set_driver (\<lambda>d. d\<lparr>dv_RecoveryGeneration := sb_RecoveryGeneration h,
                                      dv_KillSwitchMode := sb_KillSwitchMode h\<rparr>)
                  (s\<lparr>gs_RecoveryGeneration := sb_RecoveryGeneration h\<rparr>)"
proof -
  consider "st = STATUS_INVALID_PARAMETER" "s' = s"
    | b h r where "buffer = Some b" "rd_state_blob b = Some (h, r)"
        "sb_Version h = GUARDIAN_STATE_BLOB_VERSION" "st = STATUS_SUCCESS"
        "s' = set_driver (\<lambda>d. d\<lparr>dv_KillSwitchMode := sb_KillSwitchMode h\<rparr>)
           (set_driver (\<lambda>d. d\<lparr>dv_RecoveryGeneration := sb_RecoveryGeneration h\<rparr>)
              (s\<lparr>gs_RecoveryGeneration := sb_RecoveryGeneration h\<rparr>))"
    using assms by (auto simp: GuardianStateManagerImport_def Let_def
        split: option.splits if_splits prod.splits)
  then show thesis
    by cases (use reject accept in \<open>auto simp: set_driver_def\<close>)
qed

lemma import_generation_inv:
  "GuardianStateManagerImport buffer n s = Inr (st, s') \<Longrightarrow> generation_inv s \<Longrightarrow> generation_inv s'"
  by (erule import_cases) (auto simp: generation_inv_def)

lemma import_no_fault:
  assumes "\<And>b. buffer = Some b \<Longrightarrow> unat n \<le> length b"
  shows "\<exists>r. GuardianStateManagerImport buffer n s = Inr r"
proof (cases buffer)
  case None
  then show ?thesis by (simp add: GuardianStateManagerImport_def)
next
  case (Some b)
  have "unat n < sizeof_GUARDIAN_STATE_BLOB_HEADER_V1 \<or> rd_state_blob b \<noteq> None"
    using assms [OF Some] state_blob_layout.rd_none [of b] by (meson le_less_trans not_less)
  with Some show ?thesis
    by (auto simp: GuardianStateManagerImport_def Let_def split: option.splits)
qed

section \<open>Properties\<close>

text \<open>
  C33: Exporting into a buffer of at least 24 bytes succeeds, writes exactly the first 24 bytes,
  and importing that buffer into any driver state succeeds there too: it restores the recovery
  generation and the reported kill switch mode of the exporting driver, and no policy, no route
  and no enforced kill switch mode.
\<close>

theorem export_import_roundtrip:
  assumes "24 \<le> unat n" and "unat n \<le> length b"
  shows "\<exists>b'. GuardianStateManagerExport (Some b) n (Some x) s = Inr (STATUS_SUCCESS, Some b', Some 24) \<and>
    length b' = length b \<and> drop 24 b' = drop 24 b \<and>
    (case GuardianStateManagerImport (Some b') n s2 of
       Inl f \<Rightarrow> False
     | Inr (st, s3) \<Rightarrow> st = STATUS_SUCCESS \<and>
         GuardianStateManagerRecoveryGeneration s3 = GuardianStateManagerRecoveryGeneration s \<and>
         dv_RecoveryGeneration (gs_Driver s3) = GuardianStateManagerRecoveryGeneration s \<and>
         dv_KillSwitchMode (gs_Driver s3) = GuardianKillSwitchGetMode (gs_KillSwitch s) \<and>
         gs_Policies s3 = gs_Policies s2 \<and> gs_Routes s3 = gs_Routes s2 \<and>
         gs_KillSwitch s3 = gs_KillSwitch s2)"
proof -
  have wf: "wf_state_blob (export_header s)" by (simp add: wf_state_blob_def)
  have size: "sizeof_GUARDIAN_STATE_BLOB_HEADER_V1 = 24"
    by (simp add: sizeof_GUARDIAN_STATE_BLOB_HEADER_V1_def)
  have len: "length (enc_state_blob (export_header s)) = 24"
    using state_blob_layout.enc_length [OF wf] by (simp add: size)
  let ?b = "enc_state_blob (export_header s) @ drop 24 b"
  have "GuardianStateManagerExport (Some b) n (Some x) s = Inr (STATUS_SUCCESS, Some ?b, Some 24)"
    using assms len by (simp add: GuardianStateManagerExport_def size write_mem_def)
  moreover have "rd_state_blob ?b = Some (export_header s, drop 24 b)"
    by (rule state_blob_layout.rd_enc [OF wf])
  ultimately show ?thesis using assms len
    by (intro exI [of _ ?b])
      (simp add: GuardianStateManagerImport_def size export_header_def Let_def
        GuardianStateManagerRecoveryGeneration_def)
qed

theorem export_import_roundtrip_witness:
  "\<exists>b'. GuardianStateManagerExport (Some (replicate 32 0)) 32 (Some 0) guardian_image =
     Inr (STATUS_SUCCESS, Some b', Some 24)"
  using export_import_roundtrip [of 32 "replicate 32 0" 0 guardian_image guardian_image] by auto

text \<open>
  C32: Importing a state blob with a current version succeeds and makes the driver state report
  the blob's kill switch mode, but the kill switch itself keeps its mode: every connection on
  every interface is evaluated as before the import.
\<close>

theorem import_does_not_enforce_kill_switch:
  assumes "rd_state_blob b = Some (h, r)" and "sb_Version h = GUARDIAN_STATE_BLOB_VERSION"
    and "24 \<le> unat n"
  shows "\<exists>s'. GuardianStateManagerImport (Some b) n s = Inr (STATUS_SUCCESS, s') \<and>
    dv_KillSwitchMode (gs_Driver s') = sb_KillSwitchMode h \<and>
    GuardianKillSwitchGetMode (gs_KillSwitch s') = GuardianKillSwitchGetMode (gs_KillSwitch s) \<and>
    (\<forall>l. GuardianKillSwitchEvaluate l (gs_KillSwitch s') =
      GuardianKillSwitchEvaluate l (gs_KillSwitch s))"
  using assms
  by (simp add: GuardianStateManagerImport_def sizeof_GUARDIAN_STATE_BLOB_HEADER_V1_def Let_def)

definition block_all_blob :: GUARDIAN_STATE_BLOB_HEADER_V1 where
  "block_all_blob = \<lparr>sb_Version = 1, sb_PolicyCount = 0, sb_RouteCount = 0,
     sb_KillSwitchMode = ks_mode_code GuardianKsBlockAll, sb_RecoveryGeneration = 5,
     sb_Reserved = 0\<rparr>"

theorem import_does_not_enforce_kill_switch_witness:
  "\<exists>s'. GuardianStateManagerImport (Some (enc_state_blob block_all_blob)) 24 guardian_image =
      Inr (STATUS_SUCCESS, s') \<and>
    dv_KillSwitchMode (gs_Driver s') = ks_mode_code GuardianKsBlockAll \<and>
    GuardianKillSwitchEvaluate 0 (gs_KillSwitch s') = None"
proof -
  have "rd_state_blob (enc_state_blob block_all_blob) = Some (block_all_blob, [])"
    by (rule state_blob_layout.rd_enc_all) (simp add: wf_state_blob_def)
  from import_does_not_enforce_kill_switch [OF this, of 24 guardian_image]
  obtain s' where "GuardianStateManagerImport (Some (enc_state_blob block_all_blob)) 24 guardian_image =
      Inr (STATUS_SUCCESS, s')"
    and "dv_KillSwitchMode (gs_Driver s') = ks_mode_code GuardianKsBlockAll"
    and "GuardianKillSwitchEvaluate 0 (gs_KillSwitch s') =
      GuardianKillSwitchEvaluate 0 (gs_KillSwitch guardian_image)"
    by (auto simp: block_all_blob_def GUARDIAN_STATE_BLOB_VERSION_def)
  moreover have "GuardianKillSwitchEvaluate 0 (gs_KillSwitch guardian_image) = None"
    by (rule ks_evaluate_simps(1)) (simp add: guardian_image_def)
  ultimately show ?thesis by auto
qed

end
