(* ===== verification/Driver.thy ===== *)
theory Driver
  imports Callout_Manager State_Manager
begin

text \<open>
  driver/guardian/driver.c and device.c: the start of the driver (the driver state block, the
  registry mode, the subsystems, the control device, the callouts, the mode, recovery) and its
  unload. The calls into the framework, the filter engine and the NDIS driver are parameters that
  say what each call returned.
\<close>

section \<open>What the system answers\<close>

record device_env =
  de_InitAllocated :: bool
  de_AssignName :: ntstatus
  de_DeviceCreate :: ntstatus
  de_SymbolicLink :: ntstatus
  de_QueueCreate :: ntstatus
  de_Device :: u64
  de_Queue :: u64
  de_WdmDevice :: u64

record driver_env =
  drv_DriverCreate :: ntstatus
  drv_Device :: device_env
  drv_Fwps :: "GUID \<Rightarrow> ntstatus"
  drv_Ndis :: ndis_device

section \<open>device.c\<close>

text \<open>
  The context of a created device is zeroed and holds the device, later the queue; the WDM device
  object is published once the queue exists.
\<close>

definition GuardianCreateDevice :: "device_env \<Rightarrow> guardian \<Rightarrow> ntstatus \<times> guardian" where
  "GuardianCreateDevice env s =
     (if \<not> de_InitAllocated env then (STATUS_INSUFFICIENT_RESOURCES, s)
      else if \<not> NT_SUCCESS (de_AssignName env) then (de_AssignName env, s)
      else if \<not> NT_SUCCESS (de_DeviceCreate env) then (de_DeviceCreate env, s)
      else
        let deviceContext = \<lparr>dx_Device = 0, dx_IoctlQueue = 0, dx_DeferredQueue = 0\<rparr>;
            s1 = s\<lparr>gs_DeviceContext := Some (deviceContext\<lparr>dx_Device := de_Device env\<rparr>)\<rparr>
        in if \<not> NT_SUCCESS (de_SymbolicLink env) then (de_SymbolicLink env, s1)
           else if \<not> NT_SUCCESS (de_QueueCreate env) then (de_QueueCreate env, s1)
           else
             let s2 = s1\<lparr>gs_DeviceContext :=
                   map_option (\<lambda>x. x\<lparr>dx_IoctlQueue := de_Queue env\<rparr>) (gs_DeviceContext s1)\<rparr>
             in (STATUS_SUCCESS, s2\<lparr>gs_WdmDevice := de_WdmDevice env\<rparr>))"

section \<open>driver.c\<close>

definition GuardianInitializeDriverState :: "guardian \<Rightarrow> guardian" where
  "GuardianInitializeDriverState s =
     s\<lparr>gs_Driver := zero_driver_state
         \<lparr>dv_Version := GUARDIAN_DRIVER_STATE_VERSION,
          dv_VersionMajor := GUARDIAN_DRIVER_VERSION_MAJOR,
          dv_VersionMinor := GUARDIAN_DRIVER_VERSION_MINOR,
          dv_VersionPatch := GUARDIAN_DRIVER_VERSION_PATCH,
          dv_BuildStamp := GUARDIAN_DRIVER_BUILD_STAMP,
          dv_LifecycleState := lifecycle_code GuardianLifecycleStarting,
          dv_GuardianMode := guardian_mode_code GuardianModeWfp\<rparr>\<rparr>"

definition GuardianReadRegistryGuardianMode :: "registry option \<Rightarrow> u32" where
  "GuardianReadRegistryGuardianMode RegistryPath =
     (case RegistryPath of
        None \<Rightarrow> guardian_mode_code GuardianModeWfp
      | Some r \<Rightarrow>
          if \<not> NT_SUCCESS (reg_open r) then guardian_mode_code GuardianModeWfp
          else let mode = query_ulong r RegGuardianMode (guardian_mode_code GuardianModeWfp)
               in if guardian_mode_code GuardianModeHybrid < mode
                  then guardian_mode_code GuardianModeWfp else mode)"

text \<open>What every failing path of DriverEntry records before it returns the status.\<close>

definition entry_failed :: "ntstatus \<Rightarrow> guardian \<Rightarrow> ntstatus \<times> guardian" where
  "entry_failed status s =
     (status, set_driver (\<lambda>d. d\<lparr>dv_LastError := status,
                                dv_LifecycleState := lifecycle_code GuardianLifecycleFailed\<rparr>) s)"

definition entry_subsystems :: "registry option \<Rightarrow> guardian \<Rightarrow> guardian" where
  "entry_subsystems RegistryPath s =
     (let s1 = GuardianInitializeDriverState s;
          s2 = set_driver
                 (\<lambda>d. d\<lparr>dv_GuardianMode := GuardianReadRegistryGuardianMode RegistryPath\<rparr>) s1;
          s3 = s2\<lparr>gs_Telemetry := GuardianTelemetryInitialize\<rparr>;
          s4 = snd (GuardianStateManagerInitialize s3);
          s5 = s4\<lparr>gs_KillSwitch := snd (GuardianKillSwitchInitialize RegistryPath)\<rparr>
      in snd (GuardianRecoveryManagerInitialize RegistryPath s5))"

definition DriverEntry ::
  "driver_env \<Rightarrow> registry option \<Rightarrow> guardian \<Rightarrow> ntstatus \<times> guardian" where
  "DriverEntry env RegistryPath s =
     (let s6 = entry_subsystems RegistryPath s in
      if \<not> NT_SUCCESS (drv_DriverCreate env) then entry_failed (drv_DriverCreate env) s6
      else case GuardianCreateDevice (drv_Device env) s6 of (status, s7) \<Rightarrow>
      if \<not> NT_SUCCESS status then entry_failed status s7
      else case GuardianCalloutManagerRegister (drv_Fwps env) s7 of (status, s8) \<Rightarrow>
      if \<not> NT_SUCCESS status then entry_failed status s8
      else
        let s9 = set_driver (\<lambda>d. d\<lparr>dv_CalloutsRegistered := GuardianCalloutManagerRegisteredCount s8,
                   dv_LifecycleState := lifecycle_code GuardianLifecycleRecovering\<rparr>) s8
        in case GuardianHybridSetMode (drv_Ndis env) (dv_GuardianMode (gs_Driver s9)) s9 of
             (status, s10) \<Rightarrow>
      if \<not> NT_SUCCESS status then entry_failed status s10
      else case GuardianRecoveryManagerBegin s10 of (status, s11) \<Rightarrow>
      if \<not> NT_SUCCESS status then entry_failed status s11
      else (STATUS_SUCCESS,
            set_driver (\<lambda>d. d\<lparr>dv_LifecycleState := lifecycle_code GuardianLifecycleRunning,
                              dv_LastError := STATUS_SUCCESS\<rparr>) s11))"

definition GuardianEvtDriverUnload :: "(GUID \<Rightarrow> ntstatus) \<Rightarrow> guardian \<Rightarrow> guardian" where
  "GuardianEvtDriverUnload unregister s =
     (let s1 = set_driver
                 (\<lambda>d. d\<lparr>dv_LifecycleState := lifecycle_code GuardianLifecycleStopped\<rparr>) s;
          s2 = GuardianHybridCoordinatorShutdown s1;
          s3 = GuardianCalloutManagerUnregister unregister s2;
          s4 = GuardianStateManagerShutdown s3
      in s4\<lparr>gs_Telemetry := GuardianTelemetryShutdown (gs_Telemetry s4)\<rparr>)"

section \<open>Lemmas\<close>

text \<open>Every call that can fail succeeds.\<close>

definition device_ok :: "device_env \<Rightarrow> bool" where
  "device_ok e \<longleftrightarrow> de_InitAllocated e \<and> NT_SUCCESS (de_AssignName e) \<and>
     NT_SUCCESS (de_DeviceCreate e) \<and> NT_SUCCESS (de_SymbolicLink e) \<and> NT_SUCCESS (de_QueueCreate e)"

definition start_ok :: "driver_env \<Rightarrow> bool" where
  "start_ok env \<longleftrightarrow> NT_SUCCESS (drv_DriverCreate env) \<and> device_ok (drv_Device env) \<and>
     de_WdmDevice (drv_Device env) \<noteq> 0 \<and>
     list_all (\<lambda>d. NT_SUCCESS (drv_Fwps env (cd_calloutKey d))) callout_descriptors"

lemma create_device_success:
  "NT_SUCCESS (fst (GuardianCreateDevice e s)) \<longleftrightarrow> device_ok e"
  by (auto simp: GuardianCreateDevice_def device_ok_def Let_def)

lemma create_device_state:
  "device_ok e \<Longrightarrow> GuardianCreateDevice e s =
     (STATUS_SUCCESS,
      s\<lparr>gs_DeviceContext := Some \<lparr>dx_Device = de_Device e, dx_IoctlQueue = de_Queue e,
                                   dx_DeferredQueue = 0\<rparr>,
        gs_WdmDevice := de_WdmDevice e\<rparr>)"
  by (simp add: GuardianCreateDevice_def device_ok_def Let_def)

lemma create_device_frame:
  "gs_Callouts (snd (GuardianCreateDevice e s)) = gs_Callouts s"
  by (simp add: GuardianCreateDevice_def Let_def)

lemma entry_subsystems_fields:
  "gs_Policies (entry_subsystems r s) = GuardianAppPolicyInitialize"
  "gs_Routes (entry_subsystems r s) = GuardianRouteInitialize"
  "gs_KillSwitch (entry_subsystems r s) = snd (GuardianKillSwitchInitialize r)"
  "gs_Telemetry (entry_subsystems r s) = GuardianTelemetryInitialize"
  "gs_RecoveryGeneration (entry_subsystems r s) = 0"
  "gs_FilterCount (entry_subsystems r s) = 0"
  "gs_Hybrid (entry_subsystems r s) = gs_Hybrid s"
  "gs_Callouts (entry_subsystems r s) = gs_Callouts s"
  "gs_AllowedServicePid (entry_subsystems r s) = gs_AllowedServicePid s"
  "dv_GuardianMode (gs_Driver (entry_subsystems r s)) = GuardianReadRegistryGuardianMode r"
  "wf_driver_state (gs_Driver (entry_subsystems r s))"
  "dv_KillSwitchMode (gs_Driver (entry_subsystems r s)) = 0"
  "dv_Version (gs_Driver (entry_subsystems r s)) = GUARDIAN_DRIVER_STATE_VERSION"
  by (simp_all add: entry_subsystems_def GuardianInitializeDriverState_def
      GuardianStateManagerInitialize_def GuardianRecoveryManagerInitialize_def Let_def
      wf_driver_state_def zero_driver_state_def)

lemma registry_mode_valid: "GuardianHybridIsValidMode (GuardianReadRegistryGuardianMode r)"
  by (auto simp: GuardianReadRegistryGuardianMode_def GuardianHybridIsValidMode_def Let_def not_less
      split: option.splits)

lemma register_callouts_descriptors:
  "register_callouts fwps ds c = (st, c') \<Longrightarrow> co_Descriptors c' = co_Descriptors c"
  by (induction fwps ds c rule: register_callouts.induct) (auto simp: Let_def split: if_splits)

lemma register_success:
  assumes "\<not> co_CalloutsRegistered (gs_Callouts s)" and "gs_WdmDevice s \<noteq> 0"
  shows "NT_SUCCESS (fst (GuardianCalloutManagerRegister fwps s)) \<longleftrightarrow>
    list_all (\<lambda>d. NT_SUCCESS (fwps (cd_calloutKey d))) callout_descriptors"
proof -
  obtain st c where run: "register_callouts fwps callout_descriptors
      (gs_Callouts (GuardianInitializeCalloutDescriptors s)) = (st, c)" by fastforce
  then show ?thesis using assms register_callouts_success(1) [OF run]
    by (simp add: GuardianCalloutManagerRegister_def GuardianInitializeCalloutDescriptors_def
        Let_def list_all_iff)
qed

lemma register_state:
  assumes "\<not> co_CalloutsRegistered (gs_Callouts s)" and "gs_WdmDevice s \<noteq> 0"
    and "NT_SUCCESS (fst (GuardianCalloutManagerRegister fwps s))"
  shows "GuardianCalloutManagerRegister fwps s =
    (STATUS_SUCCESS,
     s\<lparr>gs_Dns := snd GuardianDnsLayerInitialize,
       gs_Callouts := \<lparr>co_CalloutsRegistered = True,
         co_RegisteredCalloutCount = co_RegisteredCalloutCount (gs_Callouts s) + 4,
         co_Descriptors = callout_descriptors,
         co_EngineKeys = co_EngineKeys (gs_Callouts s) @ map cd_calloutKey callout_descriptors\<rparr>\<rparr>)"
proof -
  obtain st c where run: "register_callouts fwps callout_descriptors
      (gs_Callouts (GuardianInitializeCalloutDescriptors s)) = (st, c)" by fastforce
  then have reg: "GuardianCalloutManagerRegister fwps s =
      (st, (GuardianInitializeCalloutDescriptors s)
             \<lparr>gs_Dns := snd GuardianDnsLayerInitialize, gs_Callouts := c\<rparr>)"
    using assms(1,2)
    by (simp add: GuardianCalloutManagerRegister_def GuardianInitializeCalloutDescriptors_def Let_def)
  then have ok: "NT_SUCCESS st" using assms(3) by simp
  have desc: "co_Descriptors c = callout_descriptors"
    using register_callouts_descriptors [OF run] by (simp add: GuardianInitializeCalloutDescriptors_def)
  have "length callout_descriptors = 4" by (simp add: callout_descriptors_def)
  then have "c = \<lparr>co_CalloutsRegistered = True,
         co_RegisteredCalloutCount = co_RegisteredCalloutCount (gs_Callouts s) + 4,
         co_Descriptors = callout_descriptors,
         co_EngineKeys = co_EngineKeys (gs_Callouts s) @ map cd_calloutKey callout_descriptors\<rparr>"
    using register_callouts_success(2) [OF run ok] desc
    by (cases c) (simp add: GuardianInitializeCalloutDescriptors_def)
  then show ?thesis using reg register_callouts_success(2) [OF run ok]
    by (simp add: GuardianInitializeCalloutDescriptors_def set_callouts_def)
qed

text \<open>The state DriverEntry hands to the mode change, and what it leaves when every call succeeds.\<close>

definition entry_registered :: "driver_env \<Rightarrow> registry option \<Rightarrow> guardian \<Rightarrow> guardian" where
  "entry_registered env r s =
     set_driver (\<lambda>d. d\<lparr>dv_CalloutsRegistered := 4,
                       dv_LifecycleState := lifecycle_code GuardianLifecycleRecovering\<rparr>)
       ((entry_subsystems r s)
          \<lparr>gs_DeviceContext := Some \<lparr>dx_Device = de_Device (drv_Device env),
                                     dx_IoctlQueue = de_Queue (drv_Device env),
                                     dx_DeferredQueue = 0\<rparr>,
           gs_WdmDevice := de_WdmDevice (drv_Device env),
           gs_Dns := snd GuardianDnsLayerInitialize,
           gs_Callouts := \<lparr>co_CalloutsRegistered = True, co_RegisteredCalloutCount = 4,
             co_Descriptors = callout_descriptors,
             co_EngineKeys = map cd_calloutKey callout_descriptors\<rparr>\<rparr>)"

definition entry_running :: "driver_env \<Rightarrow> registry option \<Rightarrow> guardian" where
  "entry_running env r =
     set_driver (\<lambda>d. d\<lparr>dv_LifecycleState := lifecycle_code GuardianLifecycleRunning,
                       dv_LastError := STATUS_SUCCESS\<rparr>)
       (snd (GuardianRecoveryManagerBegin
          (snd (GuardianHybridSetMode (drv_Ndis env) (GuardianReadRegistryGuardianMode r)
             (entry_registered env r guardian_image)))))"

lemma image_callouts [simp]:
  "gs_Callouts guardian_image = \<lparr>co_CalloutsRegistered = False, co_RegisteredCalloutCount = 0,
     co_Descriptors = [], co_EngineKeys = []\<rparr>"
  "gs_Hybrid guardian_image = \<lparr>hy_GuardianMode = guardian_mode_code GuardianModeWfp,
     hy_NdisFilterCount = 0, hy_NdisPollGeneration = 0, hy_CoordinatorActive = False\<rparr>"
  by (simp_all add: guardian_image_def)

lemma entry_mode_change:
  fixes env r
  defines "s \<equiv> snd (GuardianHybridSetMode (drv_Ndis env) (GuardianReadRegistryGuardianMode r)
      (entry_registered env r guardian_image))"
  shows "fst (GuardianHybridSetMode (drv_Ndis env) (GuardianReadRegistryGuardianMode r)
      (entry_registered env r guardian_image)) = STATUS_SUCCESS"
    and "hybrid_inv s" and "hy_GuardianMode (gs_Hybrid s) = GuardianReadRegistryGuardianMode r"
    and "outside_hybrid s = outside_hybrid (entry_registered env r guardian_image)"
proof -
  have "hy_CoordinatorActive (gs_Hybrid (entry_registered env r guardian_image)) \<longleftrightarrow>
      hy_GuardianMode (gs_Hybrid (entry_registered env r guardian_image)) =
        guardian_mode_code GuardianModeHybrid"
    by (simp add: entry_registered_def entry_subsystems_fields)
  note v = set_mode_valid [OF registry_mode_valid this, of "drv_Ndis env"]
  show "fst (GuardianHybridSetMode (drv_Ndis env) (GuardianReadRegistryGuardianMode r)
      (entry_registered env r guardian_image)) = STATUS_SUCCESS"
    and "hybrid_inv s" and "hy_GuardianMode (gs_Hybrid s) = GuardianReadRegistryGuardianMode r"
    and "outside_hybrid s = outside_hybrid (entry_registered env r guardian_image)"
    unfolding s_def by (rule v(1), rule v(2), rule v(3), rule outside_set_mode)
qed

lemma entry_success:
  assumes "start_ok env"
  shows "DriverEntry env r guardian_image = (STATUS_SUCCESS, entry_running env r)"
proof -
  let ?s6 = "entry_subsystems r guardian_image"
  let ?s7 = "?s6\<lparr>gs_DeviceContext := Some \<lparr>dx_Device = de_Device (drv_Device env),
      dx_IoctlQueue = de_Queue (drv_Device env), dx_DeferredQueue = 0\<rparr>,
      gs_WdmDevice := de_WdmDevice (drv_Device env)\<rparr>"
  have create: "GuardianCreateDevice (drv_Device env) ?s6 = (STATUS_SUCCESS, ?s7)"
    using assms by (intro create_device_state) (simp add: start_ok_def)
  have pre: "\<not> co_CalloutsRegistered (gs_Callouts ?s7)" "gs_WdmDevice ?s7 \<noteq> 0"
    using assms by (simp_all add: entry_subsystems_fields start_ok_def)
  have "NT_SUCCESS (fst (GuardianCalloutManagerRegister (drv_Fwps env) ?s7))"
    using register_success [OF pre] assms by (simp add: start_ok_def)
  note reg = register_state [OF pre this]
  obtain s10 where mode: "GuardianHybridSetMode (drv_Ndis env) (GuardianReadRegistryGuardianMode r)
      (entry_registered env r guardian_image) = (STATUS_SUCCESS, s10)"
    using entry_mode_change(1) [of env r] by (metis prod.collapse)
  have "DriverEntry env r guardian_image =
      (case GuardianHybridSetMode (drv_Ndis env) (GuardianReadRegistryGuardianMode r)
              (entry_registered env r guardian_image) of
         (status, s10) \<Rightarrow> if \<not> NT_SUCCESS status then entry_failed status s10
           else case GuardianRecoveryManagerBegin s10 of (status, s11) \<Rightarrow>
             if \<not> NT_SUCCESS status then entry_failed status s11
             else (STATUS_SUCCESS,
               set_driver (\<lambda>d. d\<lparr>dv_LifecycleState := lifecycle_code GuardianLifecycleRunning,
                                 dv_LastError := STATUS_SUCCESS\<rparr>) s11))"
    using assms create reg
    by (simp add: DriverEntry_def Let_def start_ok_def entry_registered_def entry_subsystems_fields
        GuardianCalloutManagerRegisteredCount_def set_driver_def)
  then show ?thesis
    unfolding mode by (simp add: entry_running_def mode GuardianRecoveryManagerBegin_def Let_def)
qed

lemma entry_failure:
  assumes "\<not> start_ok env"
  shows "\<exists>st s. \<not> NT_SUCCESS st \<and> DriverEntry env r guardian_image = entry_failed st s"
proof (cases "NT_SUCCESS (drv_DriverCreate env)")
  case False
  then show ?thesis by (auto simp: DriverEntry_def Let_def)
next
  case drv: True
  let ?s6 = "entry_subsystems r guardian_image"
  obtain st s7 where create: "GuardianCreateDevice (drv_Device env) ?s6 = (st, s7)" by fastforce
  show ?thesis
  proof (cases "device_ok (drv_Device env)")
    case False
    then have "\<not> NT_SUCCESS st"
      using create_device_success [of "drv_Device env" ?s6] create by simp
    then show ?thesis using drv create by (auto simp: DriverEntry_def Let_def)
  next
    case True
    then have s7: "s7 = ?s6\<lparr>gs_DeviceContext := Some \<lparr>dx_Device = de_Device (drv_Device env),
        dx_IoctlQueue = de_Queue (drv_Device env), dx_DeferredQueue = 0\<rparr>,
        gs_WdmDevice := de_WdmDevice (drv_Device env)\<rparr>" and st: "st = STATUS_SUCCESS"
      using create_device_state [OF True, of ?s6] create by simp_all
    have unreg: "\<not> co_CalloutsRegistered (gs_Callouts s7)"
      by (simp add: s7 entry_subsystems_fields)
    have "\<not> NT_SUCCESS (fst (GuardianCalloutManagerRegister (drv_Fwps env) s7))"
    proof (cases "gs_WdmDevice s7 = 0")
      case True
      then show ?thesis using unreg
        by (simp add: GuardianCalloutManagerRegister_def GuardianInitializeCalloutDescriptors_def
            Let_def)
    next
      case False
      then show ?thesis using register_success [OF unreg False] assms drv True
        by (simp add: start_ok_def s7)
    qed
    then show ?thesis using drv create st by (auto simp: DriverEntry_def Let_def split: prod.splits)
  qed
qed

lemma entry_running_fields:
  fixes env r
  defines "s \<equiv> entry_running env r"
  shows "gs_Policies s = GuardianAppPolicyInitialize" "gs_Routes s = GuardianRouteInitialize"
    "gs_KillSwitch s = snd (GuardianKillSwitchInitialize r)"
    "gs_Telemetry s = GuardianTelemetryInitialize" "gs_Dns s = snd GuardianDnsLayerInitialize"
    "gs_RecoveryGeneration s = 1" "gs_FilterCount s = 0" "gs_AllowedServicePid s = 0"
    "gs_Callouts s = \<lparr>co_CalloutsRegistered = True, co_RegisteredCalloutCount = 4,
       co_Descriptors = callout_descriptors,
       co_EngineKeys = map cd_calloutKey callout_descriptors\<rparr>"
    "hybrid_inv s" "hy_GuardianMode (gs_Hybrid s) = GuardianReadRegistryGuardianMode r"
    "dv_RecoveryGeneration (gs_Driver s) = 1" "wf_driver_state (gs_Driver s)"
    "dv_LifecycleState (gs_Driver s) = lifecycle_code GuardianLifecycleRunning"
    "dv_LastError (gs_Driver s) = STATUS_SUCCESS" "dv_CalloutsRegistered (gs_Driver s) = 4"
    "dv_KillSwitchMode (gs_Driver s) = 0"
    "dv_Version (gs_Driver s) = GUARDIAN_DRIVER_STATE_VERSION"
proof -
  let ?t = "snd (GuardianHybridSetMode (drv_Ndis env) (GuardianReadRegistryGuardianMode r)
      (entry_registered env r guardian_image))"
  note m = entry_mode_change [of env r]
  note o = outside_hybridD [OF m(4)]
  have driver: "f (gs_Driver ?t) = f (gs_Driver (entry_registered env r guardian_image))"
    if "\<And>d. f (d\<lparr>dv_GuardianMode := 0, dv_FilterCount := 0\<rparr>) = f d" for f :: "_ \<Rightarrow> 'b"
  proof -
    have "f (gs_Driver ?t) = f ((gs_Driver ?t)\<lparr>dv_GuardianMode := 0, dv_FilterCount := 0\<rparr>)"
      by (rule that [symmetric])
    also have "\<dots> = f ((gs_Driver (entry_registered env r guardian_image))
        \<lparr>dv_GuardianMode := 0, dv_FilterCount := 0\<rparr>)" by (simp only: o(13))
    also have "\<dots> = f (gs_Driver (entry_registered env r guardian_image))" by (rule that)
    finally show ?thesis .
  qed
  have wf: "wf_driver_state (gs_Driver ?t)"
    using entry_subsystems_fields(11) [of r guardian_image]
    by (simp add: driver [of dv_Reserved] wf_driver_state_def) (simp add: entry_registered_def)
  have called: "dv_CalloutsRegistered (gs_Driver ?t) = 4" "dv_KillSwitchMode (gs_Driver ?t) = 0"
    "dv_Version (gs_Driver ?t) = GUARDIAN_DRIVER_STATE_VERSION"
    by (simp_all add: driver [of dv_CalloutsRegistered] driver [of dv_KillSwitchMode]
        driver [of dv_Version])
      (simp_all add: entry_registered_def entry_subsystems_fields)
  note defs = s_def entry_running_def GuardianRecoveryManagerBegin_def Let_def
    GuardianStateManagerSetRecoveryGeneration_def GuardianStateManagerRecoveryGeneration_def
  show "gs_Policies s = GuardianAppPolicyInitialize" "gs_Routes s = GuardianRouteInitialize"
    "gs_KillSwitch s = snd (GuardianKillSwitchInitialize r)"
    "gs_Telemetry s = GuardianTelemetryInitialize" "gs_Dns s = snd GuardianDnsLayerInitialize"
    "gs_RecoveryGeneration s = 1" "gs_FilterCount s = 0" "gs_AllowedServicePid s = 0"
    "gs_Callouts s = \<lparr>co_CalloutsRegistered = True, co_RegisteredCalloutCount = 4,
       co_Descriptors = callout_descriptors,
       co_EngineKeys = map cd_calloutKey callout_descriptors\<rparr>"
    "hy_GuardianMode (gs_Hybrid s) = GuardianReadRegistryGuardianMode r"
    "dv_RecoveryGeneration (gs_Driver s) = 1"
    "dv_LifecycleState (gs_Driver s) = lifecycle_code GuardianLifecycleRunning"
    "dv_LastError (gs_Driver s) = STATUS_SUCCESS" "dv_CalloutsRegistered (gs_Driver s) = 4"
    "dv_KillSwitchMode (gs_Driver s) = 0"
    "dv_Version (gs_Driver s) = GUARDIAN_DRIVER_STATE_VERSION"
    using o m(3) called
    by (simp_all add: defs entry_registered_def entry_subsystems_fields, simp add: guardian_image_def)
  show "hybrid_inv s" using m(2) by (subst hybrid_inv_cong [of _ ?t]) (simp_all add: defs)
  show "wf_driver_state (gs_Driver s)" using wf by (simp add: defs wf_driver_state_def)
qed

section \<open>Properties\<close>

text \<open>
  C24: DriverEntry succeeds exactly when creating the driver and the device, publishing the
  device object and registering all four callouts succeed. Then the driver state says Running
  with no error, four callouts are registered with the engine, the mode is the one read from the
  registry with the coordinator consistent with it, and the recovery generation is 1. On any
  failure the driver state says Failed with the returned status as last error.
\<close>

theorem driver_entry_outcome:
  "case DriverEntry env r guardian_image of (st, s) \<Rightarrow>
     (NT_SUCCESS st \<longleftrightarrow> start_ok env) \<and>
     (if start_ok env
      then st = STATUS_SUCCESS \<and> dv_LastError (gs_Driver s) = STATUS_SUCCESS \<and>
        dv_LifecycleState (gs_Driver s) = lifecycle_code GuardianLifecycleRunning \<and>
        dv_CalloutsRegistered (gs_Driver s) = 4 \<and> GuardianCalloutsAreRegistered s \<and>
        co_EngineKeys (gs_Callouts s) = map cd_calloutKey callout_descriptors \<and>
        GuardianHybridGetMode s = GuardianReadRegistryGuardianMode r \<and> hybrid_inv s \<and>
        dv_RecoveryGeneration (gs_Driver s) = 1 \<and> GuardianStateManagerRecoveryGeneration s = 1
      else dv_LastError (gs_Driver s) = st \<and>
        dv_LifecycleState (gs_Driver s) = lifecycle_code GuardianLifecycleFailed)"
proof (cases "start_ok env")
  case True
  then show ?thesis using entry_success [OF True, of r] entry_running_fields [of env r]
    by (simp add: GuardianCalloutsAreRegistered_def GuardianHybridGetMode_def
        GuardianStateManagerRecoveryGeneration_def del: lifecycle_code.simps)
next
  case False
  then show ?thesis using entry_failure [OF False, of r]
    by (auto simp: entry_failed_def simp del: lifecycle_code.simps)
qed

text \<open>
  C34: With any registry that writes no data into a buffer shorter than the 12-byte header,
  whatever statuses it answers and whichever values exist, DriverEntry with a registry path does
  the same as without one: the persisted kill switch mode and guardian mode are never applied,
  because both queries pass a 4-byte buffer.
\<close>

theorem registry_values_are_ignored:
  assumes "query_documented r"
  shows "DriverEntry env (Some r) s = DriverEntry env None s"
proof -
  have "GuardianReadRegistryGuardianMode (Some r) = GuardianReadRegistryGuardianMode None"
    using assms by (simp add: GuardianReadRegistryGuardianMode_def Let_def)
  moreover have "GuardianKillSwitchInitialize (Some r) = GuardianKillSwitchInitialize None"
    using assms by (simp add: GuardianKillSwitchInitialize_def Let_def)
  ultimately have "entry_subsystems (Some r) s = entry_subsystems None s"
    by (simp add: entry_subsystems_def GuardianRecoveryManagerInitialize_def)
  then show ?thesis by (simp add: DriverEntry_def)
qed

text \<open>A system in which every call of the start succeeds and no NDIS driver is loaded.\<close>

definition sample_system :: driver_env where
  "sample_system = \<lparr>drv_DriverCreate = STATUS_SUCCESS,
     drv_Device = \<lparr>de_InitAllocated = True, de_AssignName = STATUS_SUCCESS,
       de_DeviceCreate = STATUS_SUCCESS, de_SymbolicLink = STATUS_SUCCESS,
       de_QueueCreate = STATUS_SUCCESS, de_Device = 1, de_Queue = 2, de_WdmDevice = 3\<rparr>,
     drv_Fwps = (\<lambda>_. STATUS_SUCCESS),
     drv_Ndis = \<lparr>nx_open = STATUS_NOT_FOUND, nx_ioctl = 0, nx_output = []\<rparr>\<rparr>"

lemma sample_system_starts: "start_ok sample_system"
  by (simp add: start_ok_def device_ok_def sample_system_def list_all_iff)

theorem registry_values_are_ignored_witness:
  "snd (reg_query block_all_registry RegKillSwitchMode 16) =
     [0, 0, 0, 0, 4, 0, 0, 0, 4, 0, 0, 0, 1, 0, 0, 0] \<and>
   DriverEntry sample_system (Some block_all_registry) guardian_image =
     DriverEntry sample_system None guardian_image"
  using registry_values_are_ignored [OF block_all_registry_documented,
      of sample_system guardian_image]
  by (simp add: block_all_registry_def numeral_eq_Suc)

text \<open>
  C35: Unloading from any state marks the driver stopped, empties both tables with their
  counters, stops the coordinator, and, when the callouts are registered, removes from the
  engine exactly those of the keys of the driver whose unregistration the engine grants; the
  answers of the engine are ignored.
\<close>

theorem unload_releases_everything:
  "case GuardianEvtDriverUnload unregister s of s' \<Rightarrow>
     dv_LifecycleState (gs_Driver s') = lifecycle_code GuardianLifecycleStopped \<and>
     pt_list (gs_Policies s') = [] \<and> GuardianAppPolicyActiveCount (gs_Policies s') = 0 \<and>
     rt_list (gs_Routes s') = [] \<and> GuardianRouteActiveCount (gs_Routes s') = 0 \<and>
     \<not> hy_CoordinatorActive (gs_Hybrid s') \<and> \<not> GuardianCalloutsAreRegistered s' \<and>
     co_EngineKeys (gs_Callouts s') =
       (if GuardianCalloutsAreRegistered s
        then filter (\<lambda>k. \<not> (k \<in> cd_calloutKey ` set callout_descriptors \<and> NT_SUCCESS (unregister k)))
               (co_EngineKeys (gs_Callouts s))
        else co_EngineKeys (gs_Callouts s))"
proof -
  have keys: "cd_calloutKey ` set callout_descriptors =
      {GUARDIAN_CALLOUT_AUTH_CONNECT_V4_GUID, GUARDIAN_CALLOUT_AUTH_CONNECT_V6_GUID,
       GUARDIAN_CALLOUT_FLOW_ESTABLISHED_V4_GUID, GUARDIAN_CALLOUT_FLOW_ESTABLISHED_V6_GUID}"
    using arg_cong [OF callout_keys, of set] by simp
  have remove: "unregister_key unregister x xs = filter (\<lambda>y. \<not> (y = x \<and> NT_SUCCESS (unregister y))) xs"
    for x xs
    by (auto simp: unregister_key_def removeAll_filter_not_eq intro!: filter_cong)
  have split: "filter (\<lambda>y. \<not> (y \<in> {a, b, c, d} \<and> P y)) xs = filter (\<lambda>y. \<not> (y = d \<and> P y))
      (filter (\<lambda>y. \<not> (y = c \<and> P y)) (filter (\<lambda>y. \<not> (y = b \<and> P y)) (filter (\<lambda>y. \<not> (y = a \<and> P y)) xs)))"
    for a b c d :: GUID and P and xs by (auto simp: filter_filter intro!: filter_cong)
  show ?thesis
    unfolding keys split
    by (simp add: GuardianEvtDriverUnload_def GuardianHybridCoordinatorShutdown_def
        GuardianFiltersShutdown_def GuardianCalloutManagerUnregister_def
        GuardianStateManagerShutdown_def GuardianAppPolicyShutdown_def GuardianRouteShutdown_def
        GuardianAppPolicyActiveCount_def GuardianRouteActiveCount_def GuardianTelemetryShutdown_def
        GuardianCalloutsAreRegistered_def Let_def remove)
qed

end
