(* ===== verification/Caller_Check.thy ===== *)
theory Caller_Check
  imports Prelude
begin

text \<open>
  driver/ipc/security.c: the check of the process behind a request. The first caller's process id
  is pinned; later requests must come from that process or from a process in its session.
\<close>

text \<open>
  The origin of a request: whether WdfRequestWdmGetIrp returns an IRP, and the requestor's process
  id. The process table is outside the program: \<open>sessions pid\<close> is the session of the process with
  that id, None when PsLookupProcessByProcessId fails.
\<close>

record request_origin =
  ro_Irp :: bool
  ro_RequestorProcessId :: u32

type_synonym process_table = "u64 \<Rightarrow> u32 option"

text \<open>\<open>allowed\<close> is g_GuardianAllowedServicePid, 0 for NULL; the result carries its new value.\<close>

definition GuardianSecurityPolicyVerifyCaller ::
  "request_origin option \<Rightarrow> process_table \<Rightarrow> u64 \<Rightarrow> ntstatus \<times> u64" where
  "GuardianSecurityPolicyVerifyCaller Request sessions allowed =
     (case Request of
        None \<Rightarrow> (STATUS_SUCCESS, allowed)
      | Some r \<Rightarrow>
          if \<not> ro_Irp r then (STATUS_ACCESS_DENIED, allowed)
          else let callerPid = ucast (ro_RequestorProcessId r) :: u64
               in if callerPid = 0 then (STATUS_ACCESS_DENIED, allowed)
                  else (case sessions callerPid of
                          None \<Rightarrow> (STATUS_ACCESS_DENIED, allowed)
                        | Some callerSession \<Rightarrow>
                            if allowed = 0 then (STATUS_SUCCESS, callerPid)
                            else if callerPid = allowed then (STATUS_SUCCESS, allowed)
                            else (case sessions allowed of
                                    None \<Rightarrow> (STATUS_ACCESS_DENIED, allowed)
                                  | Some serviceSession \<Rightarrow>
                                      if callerSession = serviceSession
                                      then (STATUS_SUCCESS, allowed)
                                      else (STATUS_ACCESS_DENIED, allowed))))"

section \<open>Lemmas\<close>

lemma verify_pin:
  "snd (GuardianSecurityPolicyVerifyCaller req sessions allowed) =
     (if allowed = 0 \<and> NT_SUCCESS (fst (GuardianSecurityPolicyVerifyCaller req sessions allowed))
      then (case req of None \<Rightarrow> 0 | Some r \<Rightarrow> ucast (ro_RequestorProcessId r)) else allowed)"
  by (auto simp: GuardianSecurityPolicyVerifyCaller_def Let_def split: option.splits)

lemma verify_pinned_stays:
  "allowed \<noteq> 0 \<Longrightarrow> snd (GuardianSecurityPolicyVerifyCaller req sessions allowed) = allowed"
  by (simp add: verify_pin)

lemma pid_handle_eq_0 [simp]: "(ucast (pid :: u32) :: u64) = 0 \<longleftrightarrow> pid = 0"
proof -
  have "n < 32 \<and> n < 64" if "bit pid n" for n using bit_imp_le_length [OF that] by simp
  then show ?thesis by (simp add: bit_eq_iff bit_ucast_iff) blast
qed

lemma verify_accepts_iff:
  "NT_SUCCESS (fst (GuardianSecurityPolicyVerifyCaller (Some r) sessions allowed)) \<longleftrightarrow>
     ro_Irp r \<and> ro_RequestorProcessId r \<noteq> 0 \<and>
     (\<exists>cs. sessions (ucast (ro_RequestorProcessId r)) = Some cs \<and>
        (allowed = 0 \<or> allowed = ucast (ro_RequestorProcessId r) \<or> sessions allowed = Some cs))"
  by (auto simp: GuardianSecurityPolicyVerifyCaller_def Let_def split: option.splits)

lemma verify_status:
  "fst (GuardianSecurityPolicyVerifyCaller req sessions allowed) =
     STATUS_SUCCESS \<or>
   fst (GuardianSecurityPolicyVerifyCaller req sessions allowed) = STATUS_ACCESS_DENIED"
  by (auto simp: GuardianSecurityPolicyVerifyCaller_def Let_def split: option.splits)

text \<open>A sequence of checks from one value of the pin: the requests that pass, and the last pin.\<close>

fun verify_run ::
  "(request_origin \<times> process_table) list \<Rightarrow> u64 \<Rightarrow> bool list \<times> u64" where
  "verify_run [] allowed = ([], allowed)"
| "verify_run ((r, sessions) # qs) allowed =
     (let (st, allowed') = GuardianSecurityPolicyVerifyCaller (Some r) sessions allowed;
          (oks, final) = verify_run qs allowed'
      in (NT_SUCCESS st # oks, final))"

section \<open>Properties\<close>

lemma caller_accepted_iff:
  "case GuardianSecurityPolicyVerifyCaller (Some r) sessions allowed of (st, pin) \<Rightarrow>
     (st = STATUS_SUCCESS \<or> st = STATUS_ACCESS_DENIED) \<and>
     (st = STATUS_SUCCESS \<longleftrightarrow>
        ro_Irp r \<and> ro_RequestorProcessId r \<noteq> 0 \<and>
        (\<exists>cs. sessions (ucast (ro_RequestorProcessId r)) = Some cs \<and>
           (allowed = 0 \<or> allowed = ucast (ro_RequestorProcessId r) \<or>
            sessions allowed = Some cs))) \<and>
     pin = (if allowed = 0 \<and> st = STATUS_SUCCESS then ucast (ro_RequestorProcessId r)
            else allowed)"
  by (auto simp: GuardianSecurityPolicyVerifyCaller_def Let_def split: option.splits)

definition may_pin :: "request_origin \<times> process_table \<Rightarrow> bool" where
  "may_pin q \<longleftrightarrow> ro_Irp (fst q) \<and> ro_RequestorProcessId (fst q) \<noteq> 0 \<and>
     snd q (ucast (ro_RequestorProcessId (fst q))) \<noteq> None"

lemma verify_run_pinned: "allowed \<noteq> 0 \<Longrightarrow> snd (verify_run qs allowed) = allowed"
  by (induction qs allowed rule: verify_run.induct)
    (auto simp: verify_pinned_stays Let_def split: prod.splits, metis snd_conv verify_pinned_stays)

lemma first_caller_stays_pinned:
  "snd (verify_run qs 0) =
     (case List.find may_pin qs of
        None \<Rightarrow> 0 | Some (r, sessions) \<Rightarrow> ucast (ro_RequestorProcessId r))"
proof (induction qs)
  case (Cons q qs)
  obtain r sessions where q: "q = (r, sessions)" by fastforce
  obtain st pin where v: "GuardianSecurityPolicyVerifyCaller (Some r) sessions 0 = (st, pin)"
    by fastforce
  show ?case
  proof (cases "may_pin q")
    case True
    then have "pin = ucast (ro_RequestorProcessId r)" and "pin \<noteq> 0"
      using v verify_pin [of "Some r" sessions 0] verify_accepts_iff [of r sessions 0]
      by (auto simp: may_pin_def q)
    then show ?thesis using verify_run_pinned [of pin qs] v True
      by (auto simp: q Let_def split: prod.splits)
  next
    case False
    then have "pin = 0" using v verify_pin [of "Some r" sessions 0] verify_accepts_iff [of r sessions 0]
      by (auto simp: may_pin_def q)
    then show ?thesis using Cons v False by (auto simp: q Let_def split: prod.splits)
  qed
qed simp

text \<open>
  C31: When the pinned service process has exited, so that its id is not found any more, every
  request from any other process is refused, for ever: in a sequence of such requests all are
  denied and the pin stays, so a restarted service with a new process id cannot control the
  driver.
\<close>

theorem restarted_service_locked_out:
  assumes "allowed \<noteq> 0"
    and "\<And>r sessions. (r, sessions) \<in> set qs \<Longrightarrow>
      sessions allowed = None \<and> ucast (ro_RequestorProcessId r) \<noteq> allowed"
  shows "verify_run qs allowed = (replicate (length qs) False, allowed)"
  using assms
proof (induction qs)
  case (Cons q qs)
  obtain r sessions where q: "q = (r, sessions)" by fastforce
  have "sessions allowed = None" and "ucast (ro_RequestorProcessId r) \<noteq> allowed"
    using Cons.prems(2) [of r sessions] by (simp_all add: q)
  then have "\<not> NT_SUCCESS (fst (GuardianSecurityPolicyVerifyCaller (Some r) sessions allowed))"
    using Cons.prems(1) by (auto simp: verify_accepts_iff)
  moreover have "snd (GuardianSecurityPolicyVerifyCaller (Some r) sessions allowed) = allowed"
    using Cons.prems(1) by (rule verify_pinned_stays)
  moreover have "verify_run qs allowed = (replicate (length qs) False, allowed)"
    by (rule Cons.IH [OF Cons.prems(1)]) (use Cons.prems(2) in \<open>auto simp: q\<close>)
  ultimately show ?case by (auto simp: q Let_def split: prod.splits)
qed simp

theorem restarted_service_locked_out_witness:
  "verify_run [(\<lparr>ro_Irp = True, ro_RequestorProcessId = 8\<rparr>, [8 \<mapsto> 0])] 4 = ([False], 4)"
  using restarted_service_locked_out
    [of 4 "[(\<lparr>ro_Irp = True, ro_RequestorProcessId = 8\<rparr>, [8 \<mapsto> 0])]"]
  by simp

end
