(* ===== verification/Ioctl_Codes.thy ===== *)
theory Ioctl_Codes
  imports Structures
begin

text \<open>
  shared/protocol/guardian\_ioctl.h: the control codes. CTL\_CODE packs the device type, the required
  access, the function number and the transfer method into 32 bits; the access and method numbers
  are the platform's.
\<close>

definition METHOD_BUFFERED :: u32 where "METHOD_BUFFERED = 0"
definition FILE_READ_DATA :: u32 where "FILE_READ_DATA = 1"
definition FILE_WRITE_DATA :: u32 where "FILE_WRITE_DATA = 2"

definition CTL_CODE :: "u32 \<Rightarrow> u32 \<Rightarrow> u32 \<Rightarrow> u32 \<Rightarrow> u32" where
  "CTL_CODE device func meth access =
     push_bit 16 device OR push_bit 14 access OR push_bit 2 func OR meth"

definition GUARDIAN_IOCTL_DEVICE_TYPE :: u32 where "GUARDIAN_IOCTL_DEVICE_TYPE = 0x8010"

datatype GUARDIAN_IOCTL =
  IOCTL_GUARDIAN_GET_DRIVER_STATE | IOCTL_GUARDIAN_SET_APP_POLICY | IOCTL_GUARDIAN_SYNC_POLICIES
| IOCTL_GUARDIAN_SET_ROUTE | IOCTL_GUARDIAN_CLEAR_ROUTE | IOCTL_GUARDIAN_SYNC_ROUTES
| IOCTL_GUARDIAN_SET_KILL_SWITCH | IOCTL_GUARDIAN_GET_TELEMETRY | IOCTL_GUARDIAN_EXPORT_STATE
| IOCTL_GUARDIAN_IMPORT_STATE | IOCTL_GUARDIAN_RECONCILE | IOCTL_GUARDIAN_DNS_SET_CONFIG
| IOCTL_GUARDIAN_GET_PERF_STATS | IOCTL_GUARDIAN_GET_DNS_STATS | IOCTL_GUARDIAN_SET_GUARDIAN_MODE

fun ioctl_code :: "GUARDIAN_IOCTL \<Rightarrow> u32" where
  "ioctl_code IOCTL_GUARDIAN_GET_DRIVER_STATE =
     CTL_CODE GUARDIAN_IOCTL_DEVICE_TYPE 0x800 METHOD_BUFFERED FILE_READ_DATA"
| "ioctl_code IOCTL_GUARDIAN_SET_APP_POLICY =
     CTL_CODE GUARDIAN_IOCTL_DEVICE_TYPE 0x801 METHOD_BUFFERED FILE_WRITE_DATA"
| "ioctl_code IOCTL_GUARDIAN_SYNC_POLICIES =
     CTL_CODE GUARDIAN_IOCTL_DEVICE_TYPE 0x802 METHOD_BUFFERED FILE_WRITE_DATA"
| "ioctl_code IOCTL_GUARDIAN_SET_ROUTE =
     CTL_CODE GUARDIAN_IOCTL_DEVICE_TYPE 0x803 METHOD_BUFFERED FILE_WRITE_DATA"
| "ioctl_code IOCTL_GUARDIAN_CLEAR_ROUTE =
     CTL_CODE GUARDIAN_IOCTL_DEVICE_TYPE 0x804 METHOD_BUFFERED FILE_WRITE_DATA"
| "ioctl_code IOCTL_GUARDIAN_SYNC_ROUTES =
     CTL_CODE GUARDIAN_IOCTL_DEVICE_TYPE 0x805 METHOD_BUFFERED FILE_WRITE_DATA"
| "ioctl_code IOCTL_GUARDIAN_SET_KILL_SWITCH =
     CTL_CODE GUARDIAN_IOCTL_DEVICE_TYPE 0x806 METHOD_BUFFERED FILE_WRITE_DATA"
| "ioctl_code IOCTL_GUARDIAN_GET_TELEMETRY =
     CTL_CODE GUARDIAN_IOCTL_DEVICE_TYPE 0x807 METHOD_BUFFERED FILE_READ_DATA"
| "ioctl_code IOCTL_GUARDIAN_EXPORT_STATE =
     CTL_CODE GUARDIAN_IOCTL_DEVICE_TYPE 0x808 METHOD_BUFFERED FILE_READ_DATA"
| "ioctl_code IOCTL_GUARDIAN_IMPORT_STATE =
     CTL_CODE GUARDIAN_IOCTL_DEVICE_TYPE 0x809 METHOD_BUFFERED FILE_WRITE_DATA"
| "ioctl_code IOCTL_GUARDIAN_RECONCILE =
     CTL_CODE GUARDIAN_IOCTL_DEVICE_TYPE 0x80A METHOD_BUFFERED FILE_WRITE_DATA"
| "ioctl_code IOCTL_GUARDIAN_DNS_SET_CONFIG =
     CTL_CODE GUARDIAN_IOCTL_DEVICE_TYPE 0x80B METHOD_BUFFERED FILE_WRITE_DATA"
| "ioctl_code IOCTL_GUARDIAN_GET_PERF_STATS =
     CTL_CODE GUARDIAN_IOCTL_DEVICE_TYPE 0x80C METHOD_BUFFERED FILE_READ_DATA"
| "ioctl_code IOCTL_GUARDIAN_GET_DNS_STATS =
     CTL_CODE GUARDIAN_IOCTL_DEVICE_TYPE 0x80D METHOD_BUFFERED FILE_READ_DATA"
| "ioctl_code IOCTL_GUARDIAN_SET_GUARDIAN_MODE =
     CTL_CODE GUARDIAN_IOCTL_DEVICE_TYPE 0x80E METHOD_BUFFERED FILE_WRITE_DATA"

definition guardian_ioctls :: "GUARDIAN_IOCTL list" where
  "guardian_ioctls =
     [IOCTL_GUARDIAN_GET_DRIVER_STATE, IOCTL_GUARDIAN_SET_APP_POLICY, IOCTL_GUARDIAN_SYNC_POLICIES,
      IOCTL_GUARDIAN_SET_ROUTE, IOCTL_GUARDIAN_CLEAR_ROUTE, IOCTL_GUARDIAN_SYNC_ROUTES,
      IOCTL_GUARDIAN_SET_KILL_SWITCH, IOCTL_GUARDIAN_GET_TELEMETRY, IOCTL_GUARDIAN_EXPORT_STATE,
      IOCTL_GUARDIAN_IMPORT_STATE, IOCTL_GUARDIAN_RECONCILE, IOCTL_GUARDIAN_DNS_SET_CONFIG,
      IOCTL_GUARDIAN_GET_PERF_STATS, IOCTL_GUARDIAN_GET_DNS_STATS,
      IOCTL_GUARDIAN_SET_GUARDIAN_MODE]"

definition GUARDIAN_MAX_IOCTL_BUFFER :: nat where
  "GUARDIAN_MAX_IOCTL_BUFFER = GUARDIAN_MAX_EXPORT_BYTES + sizeof_GUARDIAN_MESSAGE_HEADER"

lemmas ctl_code_defs = CTL_CODE_def GUARDIAN_IOCTL_DEVICE_TYPE_def METHOD_BUFFERED_def
  FILE_READ_DATA_def FILE_WRITE_DATA_def

lemma ioctl_code_values:
  "map ioctl_code guardian_ioctls =
     [0x80106000, 0x8010A004, 0x8010A008, 0x8010A00C, 0x8010A010, 0x8010A014, 0x8010A018,
      0x8010601C, 0x80106020, 0x8010A024, 0x8010A028, 0x8010A02C, 0x80106030, 0x80106034,
      0x8010A038]"
  by (simp add: guardian_ioctls_def ctl_code_defs)

lemma distinct_ioctl_codes: "distinct (map ioctl_code guardian_ioctls)"
  unfolding ioctl_code_values by simp

interpretation guardian_ioctl: c_enum guardian_ioctls ioctl_code
proof
  show listed: "x \<in> set guardian_ioctls" for x
    by (cases x) (simp_all add: guardian_ioctls_def)
  show "ioctl_code x = ioctl_code y \<Longrightarrow> x = y" for x y
    using distinct_ioctl_codes listed [of x] listed [of y]
    by (auto simp: distinct_map inj_on_def)
qed

section \<open>Properties\<close>

definition reads_only :: "GUARDIAN_IOCTL \<Rightarrow> bool" where
  "reads_only x \<longleftrightarrow> x \<in> {IOCTL_GUARDIAN_GET_DRIVER_STATE, IOCTL_GUARDIAN_GET_TELEMETRY,
     IOCTL_GUARDIAN_EXPORT_STATE, IOCTL_GUARDIAN_GET_PERF_STATS, IOCTL_GUARDIAN_GET_DNS_STATS}"

lemma control_codes_decode:
  "(enum_of guardian_ioctls ioctl_code w = Some x \<longleftrightarrow> w = ioctl_code x) \<and>
   drop_bit 16 (ioctl_code x) = GUARDIAN_IOCTL_DEVICE_TYPE \<and>
   drop_bit 14 (ioctl_code x) AND 3 = (if reads_only x then FILE_READ_DATA else FILE_WRITE_DATA) \<and>
   drop_bit 2 (ioctl_code x) AND 0xFFF \<in> {0x800 .. 0x80E} \<and>
   ioctl_code x AND 3 = METHOD_BUFFERED"
  unfolding guardian_ioctl.enum_of_iff
  by (cases x) (simp_all add: ctl_code_defs reads_only_def)

end
