(* ===== verification/Ioctl_Dispatch.thy ===== *)
theory Ioctl_Dispatch
  imports State_Manager Caller_Check Ioctl_Codes
begin

text \<open>
  driver/ipc/ioctl\_dispatch.c: the validation of a control request and the handler that checks the
  caller, fetches the buffers, validates, dispatches on the control code and completes the request.

  With METHOD\_BUFFERED the input and the output buffer are one system buffer, as long as the longer
  of the two, that holds the input when the handler is called. A read or write past that buffer is
  the value Inl OutOfBounds.
\<close>

section \<open>Requests and their environment\<close>

record ioctl_request =
  rq_IoControlCode :: u32
  rq_InputBufferLength :: nat
  rq_OutputBufferLength :: nat
  rq_SystemBuffer :: bytes

definition wf_request :: "ioctl_request \<Rightarrow> bool" where
  "wf_request q \<longleftrightarrow>
     length (rq_SystemBuffer q) = max (rq_InputBufferLength q) (rq_OutputBufferLength q)"

text \<open>
  What the handler asks of the system: the origin of the request and the process table, the status
  of the two buffer retrievals, the outcome of each pool allocation, the two readings of the
  performance counter, and the NDIS driver.
\<close>

record ioctl_env =
  en_Origin :: request_origin
  en_Sessions :: process_table
  en_InputStatus :: ntstatus
  en_OutputStatus :: ntstatus
  en_Alloc :: "nat \<Rightarrow> bool"
  en_Start :: u64
  en_End :: u64
  en_Ndis :: ndis_device

text \<open>What WdfRequestCompleteWithInformation is called with, and the system buffer at that time.\<close>

record ioctl_completion =
  cp_Status :: ntstatus
  cp_Information :: nat
  cp_SystemBuffer :: bytes

section \<open>Validation\<close>

text \<open>
  A structure that must be present and at least as long as n bytes. Count fields are read at
  offset 4 of the sync structures.
\<close>

definition check_input :: "bytes option \<Rightarrow> nat \<Rightarrow> nat \<Rightarrow> nat option \<Rightarrow> ntstatus \<times> nat option" where
  "check_input inputBuffer inputLength n requiredOutput =
     (if inputBuffer = None \<or> inputLength < n then (STATUS_INVALID_PARAMETER, requiredOutput)
      else (STATUS_SUCCESS, Some 0))"

definition check_sync ::
  "bytes option \<Rightarrow> nat \<Rightarrow> u32 \<Rightarrow> nat option \<Rightarrow> fault + (ntstatus \<times> nat option)" where
  "check_sync inputBuffer inputLength limit requiredOutput =
     (case inputBuffer of
        None \<Rightarrow> Inr (STATUS_INVALID_PARAMETER, requiredOutput)
      | Some sync \<Rightarrow>
          if inputLength < 4 * 2 then Inr (STATUS_INVALID_PARAMETER, requiredOutput)
          else bind_fault (read_mem (rd_u32 (drop 4 sync)))
                 (\<lambda>count. if limit < count then Inr (STATUS_INVALID_PARAMETER, requiredOutput)
                          else Inr (STATUS_SUCCESS, Some 0)))"

text \<open>\<open>requiredOutput\<close> is None for a NULL pointer and otherwise what it points to.\<close>

definition GuardianValidateIoctlBuffer ::
  "u32 \<Rightarrow> nat \<Rightarrow> nat \<Rightarrow> bytes option \<Rightarrow> nat option \<Rightarrow> fault + (ntstatus \<times> nat option)" where
  "GuardianValidateIoctlBuffer ioControlCode inputLength outputLength inputBuffer requiredOutput =
     (if requiredOutput = None then Inr (STATUS_INVALID_PARAMETER, None)
      else if GUARDIAN_MAX_IOCTL_BUFFER < inputLength \<or> GUARDIAN_MAX_IOCTL_BUFFER < outputLength
      then Inr (STATUS_INVALID_BUFFER_SIZE, requiredOutput)
      else case enum_of guardian_ioctls ioctl_code ioControlCode of
        Some IOCTL_GUARDIAN_GET_DRIVER_STATE \<Rightarrow>
          Inr (STATUS_SUCCESS, Some sizeof_GUARDIAN_DRIVER_STATE_V1)
      | Some IOCTL_GUARDIAN_SET_APP_POLICY \<Rightarrow>
          Inr (check_input inputBuffer inputLength sizeof_GUARDIAN_APP_POLICY_V1 requiredOutput)
      | Some IOCTL_GUARDIAN_SYNC_POLICIES \<Rightarrow>
          check_sync inputBuffer inputLength GUARDIAN_MAX_SYNC_POLICIES requiredOutput
      | Some IOCTL_GUARDIAN_SET_ROUTE \<Rightarrow>
          Inr (check_input inputBuffer inputLength sizeof_GUARDIAN_ROUTE_ASSIGNMENT_V1
                 requiredOutput)
      | Some IOCTL_GUARDIAN_CLEAR_ROUTE \<Rightarrow>
          Inr (check_input inputBuffer inputLength 16 requiredOutput)
      | Some IOCTL_GUARDIAN_SYNC_ROUTES \<Rightarrow>
          check_sync inputBuffer inputLength GUARDIAN_MAX_SYNC_ROUTES requiredOutput
      | Some IOCTL_GUARDIAN_SET_KILL_SWITCH \<Rightarrow>
          Inr (check_input inputBuffer inputLength sizeof_GUARDIAN_KILL_SWITCH_V1 requiredOutput)
      | Some IOCTL_GUARDIAN_GET_TELEMETRY \<Rightarrow>
          Inr (STATUS_SUCCESS, Some sizeof_GUARDIAN_TELEMETRY_V1)
      | Some IOCTL_GUARDIAN_EXPORT_STATE \<Rightarrow>
          Inr (STATUS_SUCCESS, Some sizeof_GUARDIAN_STATE_BLOB_HEADER_V1)
      | Some IOCTL_GUARDIAN_IMPORT_STATE \<Rightarrow>
          Inr (check_input inputBuffer inputLength sizeof_GUARDIAN_STATE_BLOB_HEADER_V1
                 requiredOutput)
      | Some IOCTL_GUARDIAN_RECONCILE \<Rightarrow>
          if outputLength < sizeof_GUARDIAN_RECONCILE_RESPONSE_V1
          then Inr (STATUS_BUFFER_TOO_SMALL, requiredOutput)
          else Inr (STATUS_SUCCESS, Some sizeof_GUARDIAN_RECONCILE_RESPONSE_V1)
      | Some IOCTL_GUARDIAN_DNS_SET_CONFIG \<Rightarrow>
          Inr (check_input inputBuffer inputLength sizeof_GUARDIAN_DNS_CONFIG_V1 requiredOutput)
      | Some IOCTL_GUARDIAN_GET_PERF_STATS \<Rightarrow>
          Inr (STATUS_SUCCESS, Some sizeof_GUARDIAN_PERF_STATS_V1)
      | Some IOCTL_GUARDIAN_GET_DNS_STATS \<Rightarrow>
          Inr (STATUS_SUCCESS, Some sizeof_GUARDIAN_DNS_STATS_V1)
      | Some IOCTL_GUARDIAN_SET_GUARDIAN_MODE \<Rightarrow>
          Inr (check_input inputBuffer inputLength 4 requiredOutput)
      | None \<Rightarrow> Inr (STATUS_INVALID_DEVICE_REQUEST, requiredOutput))"

section \<open>Dispatch\<close>

text \<open>
  Reading through the input pointer and writing through the output pointer: a NULL pointer faults
  like an access past the buffer.
\<close>

definition read_in :: "(bytes \<Rightarrow> ('a \<times> bytes) option) \<Rightarrow> bytes option \<Rightarrow> fault + 'a" where
  "read_in rd inputBuffer = read_mem (Option.bind inputBuffer rd)"

definition write_out :: "bytes \<Rightarrow> bytes option \<Rightarrow> fault + bytes" where
  "write_out new outputBuffer =
     (case outputBuffer of None \<Rightarrow> Inl OutOfBounds | Some old \<Rightarrow> write_mem new old)"

text \<open>
  The array behind the count of a sync structure: element i is \<open>sz\<close> bytes long and starts at
  offset 8 + sz * i, inside the system buffer or not, with its version first.
\<close>

definition array_in :: "(bytes \<Rightarrow> ('a \<times> bytes) option) \<Rightarrow> nat \<Rightarrow> bytes \<Rightarrow> nat \<Rightarrow> 'a cell" where
  "array_in rd sz b i =
     (case rd (drop (8 + sz * i) b) of
        Some (x, _) \<Rightarrow> Readable x
      | None \<Rightarrow> Truncated (map_option fst (rd_u32 (drop (8 + sz * i) b))))"

text \<open>
  One branch of the switch: the status, the byte count for the completion, the system buffer and
  the state after it. \<open>b\<close> is the system buffer before.
\<close>

type_synonym branch_result = "fault + (ntstatus \<times> nat \<times> bytes \<times> guardian)"

definition reply :: "bytes \<Rightarrow> nat \<Rightarrow> bytes option \<Rightarrow> guardian \<Rightarrow> branch_result" where
  "reply new n outputBuffer s =
     bind_fault (write_out new outputBuffer) (\<lambda>b'. Inr (STATUS_SUCCESS, n, b', s))"

definition dispatch_sync_policies ::
  "(nat \<Rightarrow> bool) \<Rightarrow> bytes option \<Rightarrow> bytes \<Rightarrow> guardian \<Rightarrow> branch_result" where
  "dispatch_sync_policies alloc inputBuffer b s =
     bind_fault (read_in (\<lambda>m. rd_u32 (drop 4 m)) inputBuffer) (\<lambda>count.
       bind_fault (GuardianAppPolicySync alloc
                     (map_option (array_in rd_app_policy sizeof_GUARDIAN_APP_POLICY_V1) inputBuffer)
                     count (gs_Policies s))
         (\<lambda>(status, t). Inr (status, 0, b, s\<lparr>gs_Policies := t\<rparr>)))"

definition dispatch_sync_routes ::
  "(nat \<Rightarrow> bool) \<Rightarrow> bytes option \<Rightarrow> bytes \<Rightarrow> guardian \<Rightarrow> branch_result" where
  "dispatch_sync_routes alloc inputBuffer b s =
     bind_fault (read_in (\<lambda>m. rd_u32 (drop 4 m)) inputBuffer) (\<lambda>count.
       bind_fault (GuardianRouteSync alloc
                     (map_option (array_in rd_route sizeof_GUARDIAN_ROUTE_ASSIGNMENT_V1) inputBuffer)
                     count (gs_Routes s))
         (\<lambda>(status, t). Inr (status, 0, b, s\<lparr>gs_Routes := t\<rparr>)))"

definition dispatch_set_kill_switch :: "bytes option \<Rightarrow> bytes \<Rightarrow> guardian \<Rightarrow> branch_result" where
  "dispatch_set_kill_switch inputBuffer b s =
     bind_fault (read_in rd_kill_switch inputBuffer) (\<lambda>config.
       case GuardianKillSwitchSet (Some config) (gs_KillSwitch s) of (status, k) \<Rightarrow>
         let s1 = s\<lparr>gs_KillSwitch := k\<rparr>;
             s2 = (if NT_SUCCESS status
                   then set_driver
                          (\<lambda>d. d\<lparr>dv_KillSwitchMode := GuardianKillSwitchGetMode (gs_KillSwitch s1)\<rparr>)
                          s1
                   else s1)
         in Inr (status, 0, b, s2))"

definition dispatch_reconcile ::
  "bytes option \<Rightarrow> bytes option \<Rightarrow> bytes \<Rightarrow> guardian \<Rightarrow> branch_result" where
  "dispatch_reconcile inputBuffer outputBuffer b s =
     bind_fault (case inputBuffer of
                   None \<Rightarrow> Inr (None, 0)
                 | Some req \<Rightarrow>
                     bind_fault (read_mem (rd_u32 (drop 4 req))) (\<lambda>count. Inr (Some 8, count)))
       (\<lambda>(ids, count).
         case GuardianRecoveryReconcile ids count
                (map_option (\<lambda>_. \<lparr>rr_Version = 0, rr_RemovedOrphans = 0, rr_RecoveryGeneration = 0,
                                   rr_RecoveryStatus = 0\<rparr>) outputBuffer) s of
           (status, response) \<Rightarrow>
             (case response of
                None \<Rightarrow> Inr (status, 0, b, s)
              | Some r \<Rightarrow>
                  bind_fault (write_out (enc_reconcile_response r) outputBuffer) (\<lambda>b'.
                    Inr (status,
                         if NT_SUCCESS status then sizeof_GUARDIAN_RECONCILE_RESPONSE_V1 else 0,
                         b', s))))"

definition dispatch_export :: "bytes option \<Rightarrow> nat \<Rightarrow> bytes \<Rightarrow> guardian \<Rightarrow> branch_result" where
  "dispatch_export outputBuffer outputLength b s =
     bind_fault (GuardianStateManagerExport outputBuffer (of_nat outputLength) (Some 0) s)
       (\<lambda>(status, b', n). Inr (status, unat (the n), (case b' of None \<Rightarrow> b | Some b' \<Rightarrow> b'), s))"

definition dispatch_ioctl ::
  "ioctl_env \<Rightarrow> ioctl_request \<Rightarrow> bytes option \<Rightarrow> bytes option \<Rightarrow> guardian \<Rightarrow> branch_result" where
  "dispatch_ioctl env q inputBuffer outputBuffer s =
     (let b = rq_SystemBuffer q in
      case enum_of guardian_ioctls ioctl_code (rq_IoControlCode q) of
        Some IOCTL_GUARDIAN_GET_DRIVER_STATE \<Rightarrow>
          reply (enc_driver_state (gs_Driver s)) sizeof_GUARDIAN_DRIVER_STATE_V1 outputBuffer s
      | Some IOCTL_GUARDIAN_SET_APP_POLICY \<Rightarrow>
          bind_fault (read_in rd_app_policy inputBuffer) (\<lambda>p.
            case GuardianAppPolicySet (en_Alloc env 0) (Some p) (gs_Policies s) of (status, t) \<Rightarrow>
              Inr (status, 0, b, s\<lparr>gs_Policies := t\<rparr>))
      | Some IOCTL_GUARDIAN_SYNC_POLICIES \<Rightarrow>
          dispatch_sync_policies (en_Alloc env) inputBuffer b s
      | Some IOCTL_GUARDIAN_SET_ROUTE \<Rightarrow>
          bind_fault (read_in rd_route inputBuffer) (\<lambda>r.
            case GuardianRouteSet (en_Alloc env 0) (Some r) (gs_Routes s) of (status, t) \<Rightarrow>
              Inr (status, 0, b, s\<lparr>gs_Routes := t\<rparr>))
      | Some IOCTL_GUARDIAN_CLEAR_ROUTE \<Rightarrow>
          bind_fault (read_in (rd_bytes 16) inputBuffer) (\<lambda>appId.
            case GuardianRouteClear appId (gs_Routes s) of (status, t) \<Rightarrow>
              Inr (status, 0, b, s\<lparr>gs_Routes := t\<rparr>))
      | Some IOCTL_GUARDIAN_SYNC_ROUTES \<Rightarrow>
          dispatch_sync_routes (en_Alloc env) inputBuffer b s
      | Some IOCTL_GUARDIAN_SET_KILL_SWITCH \<Rightarrow> dispatch_set_kill_switch inputBuffer b s
      | Some IOCTL_GUARDIAN_GET_TELEMETRY \<Rightarrow>
          reply (enc_telemetry (GuardianTelemetryGet (gs_Telemetry s)))
            sizeof_GUARDIAN_TELEMETRY_V1 outputBuffer s
      | Some IOCTL_GUARDIAN_EXPORT_STATE \<Rightarrow>
          dispatch_export outputBuffer (rq_OutputBufferLength q) b s
      | Some IOCTL_GUARDIAN_IMPORT_STATE \<Rightarrow>
          bind_fault (GuardianStateManagerImport inputBuffer (of_nat (rq_InputBufferLength q)) s)
            (\<lambda>(status, s'). Inr (status, 0, b, s'))
      | Some IOCTL_GUARDIAN_RECONCILE \<Rightarrow> dispatch_reconcile inputBuffer outputBuffer b s
      | Some IOCTL_GUARDIAN_DNS_SET_CONFIG \<Rightarrow>
          bind_fault (read_in rd_dns_config inputBuffer) (\<lambda>c.
            case GuardianDnsLayerSetConfig (Some c) (gs_Dns s) of (status, d) \<Rightarrow>
              Inr (status, 0, b, s\<lparr>gs_Dns := d\<rparr>))
      | Some IOCTL_GUARDIAN_GET_PERF_STATS \<Rightarrow>
          reply (enc_perf_stats
                   (GuardianPerfStatsGet (gs_Policies s) (gs_Routes s) (gs_Telemetry s)))
            sizeof_GUARDIAN_PERF_STATS_V1 outputBuffer s
      | Some IOCTL_GUARDIAN_GET_DNS_STATS \<Rightarrow>
          reply (enc_dns_stats (GuardianDnsLayerGetStats (gs_Dns s)))
            sizeof_GUARDIAN_DNS_STATS_V1 outputBuffer s
      | Some IOCTL_GUARDIAN_SET_GUARDIAN_MODE \<Rightarrow>
          bind_fault (read_in rd_u32 inputBuffer) (\<lambda>mode.
            case GuardianHybridSetMode (en_Ndis env) mode s of (status, s') \<Rightarrow>
              Inr (status, 0, b, s'))
      | None \<Rightarrow> Inr (STATUS_INVALID_DEVICE_REQUEST, 0, b, s))"

section \<open>The handler\<close>

definition complete_request ::
  "ioctl_env \<Rightarrow> ntstatus \<Rightarrow> nat \<Rightarrow> bytes \<Rightarrow> guardian \<Rightarrow> ioctl_completion \<times> guardian" where
  "complete_request env status bytesReturned b s =
     (\<lparr>cp_Status = status, cp_Information = bytesReturned, cp_SystemBuffer = b\<rparr>,
      set_telemetry (GuardianPerfRecordIpc (\<not> NT_SUCCESS status) (en_End env - en_Start env)) s)"

definition GuardianEvtIoDeviceControl ::
  "ioctl_env \<Rightarrow> ioctl_request \<Rightarrow> guardian \<Rightarrow> fault + (ioctl_completion \<times> guardian)" where
  "GuardianEvtIoDeviceControl env q s =
     (let b = rq_SystemBuffer q;
          inLen = rq_InputBufferLength q;
          outLen = rq_OutputBufferLength q
      in case GuardianSecurityPolicyVerifyCaller (Some (en_Origin env)) (en_Sessions env)
                (gs_AllowedServicePid s) of (status, pid) \<Rightarrow>
        let s1 = s\<lparr>gs_AllowedServicePid := pid\<rparr>
        in if \<not> NT_SUCCESS status then Inr (complete_request env status 0 b s1)
           else if 0 < inLen \<and> \<not> NT_SUCCESS (en_InputStatus env)
           then Inr (complete_request env (en_InputStatus env) 0 b s1)
           else if 0 < outLen \<and> \<not> NT_SUCCESS (en_OutputStatus env)
           then Inr (complete_request env (en_OutputStatus env) 0 b s1)
           else
             let inputBuffer = (if 0 < inLen then Some b else None);
                 outputBuffer = (if 0 < outLen then Some b else None)
             in bind_fault
                  (GuardianValidateIoctlBuffer (rq_IoControlCode q) inLen outLen inputBuffer (Some 0))
                  (\<lambda>(status, requiredOutput).
                     if \<not> NT_SUCCESS status then Inr (complete_request env status 0 b s1)
                     else if outLen < the requiredOutput
                     then Inr (complete_request env STATUS_BUFFER_TOO_SMALL 0 b s1)
                     else bind_fault (dispatch_ioctl env q inputBuffer outputBuffer s1)
                            (\<lambda>(status, bytesReturned, b', s2).
                               Inr (complete_request env status bytesReturned b' s2))))"

section \<open>The handler's paths\<close>

text \<open>
  The pointers the handler passes on, the state after the caller check, and the requests that pass
  the check and the buffer retrieval.
\<close>

definition in_ptr :: "ioctl_request \<Rightarrow> bytes option" where
  "in_ptr q = (if 0 < rq_InputBufferLength q then Some (rq_SystemBuffer q) else None)"

definition out_ptr :: "ioctl_request \<Rightarrow> bytes option" where
  "out_ptr q = (if 0 < rq_OutputBufferLength q then Some (rq_SystemBuffer q) else None)"

definition checked_caller :: "ioctl_env \<Rightarrow> guardian \<Rightarrow> guardian" where
  "checked_caller env s = s\<lparr>gs_AllowedServicePid :=
     snd (GuardianSecurityPolicyVerifyCaller (Some (en_Origin env)) (en_Sessions env)
            (gs_AllowedServicePid s))\<rparr>"

definition admitted :: "ioctl_env \<Rightarrow> ioctl_request \<Rightarrow> guardian \<Rightarrow> bool" where
  "admitted env q s \<longleftrightarrow>
     NT_SUCCESS (fst (GuardianSecurityPolicyVerifyCaller (Some (en_Origin env)) (en_Sessions env)
                        (gs_AllowedServicePid s))) \<and>
     (rq_InputBufferLength q = 0 \<or> NT_SUCCESS (en_InputStatus env)) \<and>
     (rq_OutputBufferLength q = 0 \<or> NT_SUCCESS (en_OutputStatus env))"

lemma evt_unfold:
  "GuardianEvtIoDeviceControl env q s =
     (let caller = fst (GuardianSecurityPolicyVerifyCaller (Some (en_Origin env))
                          (en_Sessions env) (gs_AllowedServicePid s))
      in if \<not> NT_SUCCESS caller
         then Inr (complete_request env caller 0 (rq_SystemBuffer q) (checked_caller env s))
         else if 0 < rq_InputBufferLength q \<and> \<not> NT_SUCCESS (en_InputStatus env)
         then Inr (complete_request env (en_InputStatus env) 0 (rq_SystemBuffer q)
                     (checked_caller env s))
         else if 0 < rq_OutputBufferLength q \<and> \<not> NT_SUCCESS (en_OutputStatus env)
         then Inr (complete_request env (en_OutputStatus env) 0 (rq_SystemBuffer q)
                     (checked_caller env s))
         else bind_fault (GuardianValidateIoctlBuffer (rq_IoControlCode q)
                  (rq_InputBufferLength q) (rq_OutputBufferLength q) (in_ptr q) (Some 0))
                (\<lambda>(status, requiredOutput).
                   if \<not> NT_SUCCESS status
                   then Inr (complete_request env status 0 (rq_SystemBuffer q)
                               (checked_caller env s))
                   else if rq_OutputBufferLength q < the requiredOutput
                   then Inr (complete_request env STATUS_BUFFER_TOO_SMALL 0 (rq_SystemBuffer q)
                               (checked_caller env s))
                   else bind_fault
                          (dispatch_ioctl env q (in_ptr q) (out_ptr q) (checked_caller env s))
                          (\<lambda>(status, bytesReturned, b', s2).
                             Inr (complete_request env status bytesReturned b' s2))))"
  unfolding GuardianEvtIoDeviceControl_def checked_caller_def in_ptr_def out_ptr_def Let_def
    case_prod_unfold by (rule refl)

lemma evt_not_admitted:
  assumes "\<not> admitted env q s"
  shows "\<exists>st. \<not> NT_SUCCESS st \<and> GuardianEvtIoDeviceControl env q s =
    Inr (complete_request env st 0 (rq_SystemBuffer q) (checked_caller env s))"
proof (cases "NT_SUCCESS (fst (GuardianSecurityPolicyVerifyCaller (Some (en_Origin env))
    (en_Sessions env) (gs_AllowedServicePid s)))")
  case False
  then show ?thesis unfolding evt_unfold Let_def by (simp only: if_True simp_thms) blast
next
  case caller: True
  show ?thesis
  proof (cases "0 < rq_InputBufferLength q \<and> \<not> NT_SUCCESS (en_InputStatus env)")
    case True
    then show ?thesis unfolding evt_unfold Let_def using caller
      by (intro exI [of _ "en_InputStatus env"]) simp
  next
    case False
    then have "0 < rq_OutputBufferLength q \<and> \<not> NT_SUCCESS (en_OutputStatus env)"
      using assms caller by (auto simp: admitted_def)
    then show ?thesis unfolding evt_unfold Let_def using caller False
      by (intro exI [of _ "en_OutputStatus env"]) (simp only: if_True if_False simp_thms)
  qed
qed

lemma evt_admitted:
  assumes "admitted env q s"
  shows "GuardianEvtIoDeviceControl env q s =
    bind_fault (GuardianValidateIoctlBuffer (rq_IoControlCode q) (rq_InputBufferLength q)
                  (rq_OutputBufferLength q) (in_ptr q) (Some 0))
      (\<lambda>(status, requiredOutput).
         if \<not> NT_SUCCESS status
         then Inr (complete_request env status 0 (rq_SystemBuffer q) (checked_caller env s))
         else if rq_OutputBufferLength q < the requiredOutput
         then Inr (complete_request env STATUS_BUFFER_TOO_SMALL 0 (rq_SystemBuffer q)
                     (checked_caller env s))
         else bind_fault (dispatch_ioctl env q (in_ptr q) (out_ptr q) (checked_caller env s))
                (\<lambda>(status, bytesReturned, b', s2).
                   Inr (complete_request env status bytesReturned b' s2)))"
proof -
  have "NT_SUCCESS (fst (GuardianSecurityPolicyVerifyCaller (Some (en_Origin env))
      (en_Sessions env) (gs_AllowedServicePid s)))"
    and "(0 < rq_InputBufferLength q \<and> \<not> NT_SUCCESS (en_InputStatus env)) = False"
    and "(0 < rq_OutputBufferLength q \<and> \<not> NT_SUCCESS (en_OutputStatus env)) = False"
    using assms by (auto simp: admitted_def)
  then show ?thesis unfolding evt_unfold Let_def by (simp only: if_False if_True simp_thms)
qed

text \<open>Passing the validation, with the output length it asks for.\<close>

definition valid_request :: "ioctl_request \<Rightarrow> nat \<Rightarrow> bool" where
  "valid_request q n \<longleftrightarrow>
     (\<exists>st. NT_SUCCESS st \<and> n \<le> rq_OutputBufferLength q \<and>
        GuardianValidateIoctlBuffer (rq_IoControlCode q) (rq_InputBufferLength q)
          (rq_OutputBufferLength q) (in_ptr q) (Some 0) = Inr (st, Some n))"

lemma validate_keeps_pointer:
  "GuardianValidateIoctlBuffer code n m ib (Some r) \<noteq> Inr (st, None)"
  by (auto simp: GuardianValidateIoctlBuffer_def check_input_def check_sync_def bind_fault_Inr
      split: option.splits GUARDIAN_IOCTL.splits if_splits)

lemma evt_cases:
  assumes "GuardianEvtIoDeviceControl env q s = Inr (c, s')"
  obtains (reject) st where "\<not> NT_SUCCESS st"
      and "(c, s') = complete_request env st 0 (rq_SystemBuffer q) (checked_caller env s)"
  | (dispatch) n st k b' s2 where "valid_request q n" and "admitted env q s"
      and "dispatch_ioctl env q (in_ptr q) (out_ptr q) (checked_caller env s) =
             Inr (st, k, b', s2)"
      and "(c, s') = complete_request env st k b' s2"
proof (cases "admitted env q s")
  case False
  then show ?thesis using assms reject by (metis Inr_inject evt_not_admitted)
next
  case True
  obtain st r where v: "GuardianValidateIoctlBuffer (rq_IoControlCode q) (rq_InputBufferLength q)
      (rq_OutputBufferLength q) (in_ptr q) (Some 0) = Inr (st, r)"
    using assms evt_admitted [OF True] by (cases "GuardianValidateIoctlBuffer (rq_IoControlCode q)
      (rq_InputBufferLength q) (rq_OutputBufferLength q) (in_ptr q) (Some 0)") auto
  then obtain n where r: "r = Some n" using validate_keeps_pointer by (cases r) auto
  show ?thesis
  proof (cases "NT_SUCCESS st \<and> n \<le> rq_OutputBufferLength q")
    case False
    then have "(c, s') = complete_request env
        (if NT_SUCCESS st then STATUS_BUFFER_TOO_SMALL else st) 0 (rq_SystemBuffer q)
        (checked_caller env s)"
      using assms evt_admitted [OF True] v r by (auto simp: not_le split: if_splits)
    then show ?thesis by (rule reject [rotated]) simp
  next
    case ok: True
    then have "valid_request q n" using v r by (auto simp: valid_request_def)
    then show ?thesis using assms evt_admitted [OF True] v r ok dispatch True
      by (auto simp: bind_fault_Inr split: prod.splits)
  qed
qed

lemma evt_fault_cases:
  assumes "GuardianEvtIoDeviceControl env q s = Inl f"
  obtains (validate) "GuardianValidateIoctlBuffer (rq_IoControlCode q) (rq_InputBufferLength q)
      (rq_OutputBufferLength q) (in_ptr q) (Some 0) = Inl f"
  | (dispatch) n where "valid_request q n" and
      "dispatch_ioctl env q (in_ptr q) (out_ptr q) (checked_caller env s) = Inl f"
proof (cases "admitted env q s")
  case False
  then show ?thesis using assms by (metis evt_not_admitted sum.distinct(1))
next
  case True
  show ?thesis
  proof (cases "GuardianValidateIoctlBuffer (rq_IoControlCode q) (rq_InputBufferLength q)
      (rq_OutputBufferLength q) (in_ptr q) (Some 0)")
    case (Inl g)
    then show ?thesis using assms evt_admitted [OF True] validate by simp
  next
    case (Inr x)
    then obtain st r where x: "x = (st, r)" by fastforce
    then obtain n where r: "r = Some n" using Inr validate_keeps_pointer by (cases r) auto
    then have "NT_SUCCESS st \<and> n \<le> rq_OutputBufferLength q"
      using assms evt_admitted [OF True] Inr x by (auto split: if_splits)
    moreover from this have "valid_request q n" using Inr x r by (auto simp: valid_request_def)
    ultimately show ?thesis using assms evt_admitted [OF True] Inr x r dispatch
      by (cases "dispatch_ioctl env q (in_ptr q) (out_ptr q) (checked_caller env s)")
        (auto split: prod.splits)
  qed
qed

section \<open>What the validation accepts\<close>

fun input_size :: "GUARDIAN_IOCTL \<Rightarrow> nat" where
  "input_size IOCTL_GUARDIAN_SET_APP_POLICY = sizeof_GUARDIAN_APP_POLICY_V1"
| "input_size IOCTL_GUARDIAN_SYNC_POLICIES = 8"
| "input_size IOCTL_GUARDIAN_SET_ROUTE = sizeof_GUARDIAN_ROUTE_ASSIGNMENT_V1"
| "input_size IOCTL_GUARDIAN_CLEAR_ROUTE = 16"
| "input_size IOCTL_GUARDIAN_SYNC_ROUTES = 8"
| "input_size IOCTL_GUARDIAN_SET_KILL_SWITCH = sizeof_GUARDIAN_KILL_SWITCH_V1"
| "input_size IOCTL_GUARDIAN_IMPORT_STATE = sizeof_GUARDIAN_STATE_BLOB_HEADER_V1"
| "input_size IOCTL_GUARDIAN_DNS_SET_CONFIG = sizeof_GUARDIAN_DNS_CONFIG_V1"
| "input_size IOCTL_GUARDIAN_SET_GUARDIAN_MODE = 4"
| "input_size _ = 0"

fun output_size :: "GUARDIAN_IOCTL \<Rightarrow> nat" where
  "output_size IOCTL_GUARDIAN_GET_DRIVER_STATE = sizeof_GUARDIAN_DRIVER_STATE_V1"
| "output_size IOCTL_GUARDIAN_GET_TELEMETRY = sizeof_GUARDIAN_TELEMETRY_V1"
| "output_size IOCTL_GUARDIAN_EXPORT_STATE = sizeof_GUARDIAN_STATE_BLOB_HEADER_V1"
| "output_size IOCTL_GUARDIAN_RECONCILE = sizeof_GUARDIAN_RECONCILE_RESPONSE_V1"
| "output_size IOCTL_GUARDIAN_GET_PERF_STATS = sizeof_GUARDIAN_PERF_STATS_V1"
| "output_size IOCTL_GUARDIAN_GET_DNS_STATS = sizeof_GUARDIAN_DNS_STATS_V1"
| "output_size _ = 0"

definition count_field :: "bytes \<Rightarrow> u32" where
  "count_field b = fst (the (rd_u32 (drop 4 b)))"

definition count_ok :: "GUARDIAN_IOCTL \<Rightarrow> bytes \<Rightarrow> bool" where
  "count_ok x b \<longleftrightarrow>
     (x = IOCTL_GUARDIAN_SYNC_POLICIES \<longrightarrow> count_field b \<le> GUARDIAN_MAX_SYNC_POLICIES) \<and>
     (x = IOCTL_GUARDIAN_SYNC_ROUTES \<longrightarrow> count_field b \<le> GUARDIAN_MAX_SYNC_ROUTES)"

lemma count_field_read:
  assumes "8 \<le> length b"
  shows "read_mem (rd_u32 (drop 4 b)) = Inr (count_field b)"
proof -
  have "rd_u32 (drop 4 b) \<noteq> None" using assms by (simp add: rd_word_none)
  then show ?thesis by (auto simp: count_field_def read_mem_def)
qed

lemma in_ptr_simps:
  "0 < rq_InputBufferLength q \<Longrightarrow> in_ptr q = Some (rq_SystemBuffer q)"
  "0 < rq_OutputBufferLength q \<Longrightarrow> out_ptr q = Some (rq_SystemBuffer q)"
  "in_ptr q = None \<longleftrightarrow> rq_InputBufferLength q = 0"
  by (simp_all add: in_ptr_def out_ptr_def)

text \<open>The positive sizes of the structures, so that a length of at least one is not zero.\<close>

lemma sizes_positive [simp]:
  "0 < sizeof_GUARDIAN_APP_POLICY_V1" "0 < sizeof_GUARDIAN_ROUTE_ASSIGNMENT_V1"
  "0 < sizeof_GUARDIAN_KILL_SWITCH_V1" "0 < sizeof_GUARDIAN_STATE_BLOB_HEADER_V1"
  "0 < sizeof_GUARDIAN_DNS_CONFIG_V1" "0 < sizeof_GUARDIAN_RECONCILE_RESPONSE_V1"
  "0 < sizeof_GUARDIAN_DRIVER_STATE_V1" "0 < sizeof_GUARDIAN_TELEMETRY_V1"
  "0 < sizeof_GUARDIAN_PERF_STATS_V1" "0 < sizeof_GUARDIAN_DNS_STATS_V1"
  by (simp_all add: structure_sizes)

lemma check_input_success:
  assumes "0 < n"
  shows "(\<exists>st. NT_SUCCESS st \<and> check_input (in_ptr q) (rq_InputBufferLength q) n (Some 0) = (st, Some m))
     \<longleftrightarrow> n \<le> rq_InputBufferLength q \<and> m = 0"
  using assms by (auto simp: check_input_def in_ptr_def)

lemma check_sync_success:
  assumes "wf_request q"
  shows "(\<exists>st. NT_SUCCESS st \<and> check_sync (in_ptr q) (rq_InputBufferLength q) limit (Some 0) =
        Inr (st, Some m)) \<longleftrightarrow>
      8 \<le> rq_InputBufferLength q \<and> count_field (rq_SystemBuffer q) \<le> limit \<and> m = 0"
proof (cases "8 \<le> rq_InputBufferLength q")
  case True
  then have "8 \<le> length (rq_SystemBuffer q)" using assms by (simp add: wf_request_def)
  from count_field_read [OF this] True show ?thesis
    by (auto simp: check_sync_def in_ptr_def not_less)
qed (auto simp: check_sync_def split: option.splits)

lemma validate_code:
  assumes "\<not> GUARDIAN_MAX_IOCTL_BUFFER < inLen" and "\<not> GUARDIAN_MAX_IOCTL_BUFFER < outLen"
  shows "GuardianValidateIoctlBuffer (ioctl_code x) inLen outLen ib (Some 0) =
    (if x = IOCTL_GUARDIAN_SYNC_POLICIES
     then check_sync ib inLen GUARDIAN_MAX_SYNC_POLICIES (Some 0)
     else if x = IOCTL_GUARDIAN_SYNC_ROUTES
     then check_sync ib inLen GUARDIAN_MAX_SYNC_ROUTES (Some 0)
     else if x = IOCTL_GUARDIAN_RECONCILE \<and> outLen < output_size x
     then Inr (STATUS_BUFFER_TOO_SMALL, Some 0)
     else if 0 < input_size x then Inr (check_input ib inLen (input_size x) (Some 0))
     else Inr (STATUS_SUCCESS, Some (output_size x)))"
  using assms unfolding GuardianValidateIoctlBuffer_def guardian_ioctl.enum_of_code
  by (cases x) simp_all

text \<open>
  A request passes the validation exactly when its code is one of the fifteen, both lengths are
  within the limit, the input holds the fixed part the code reads and the count field is within
  its bound; the output length is compared with output\_size.
\<close>

lemma no_output_with_input: "0 < input_size x \<Longrightarrow> output_size x = 0"
  by (cases x) simp_all

lemma valid_request_code:
  assumes "wf_request q" and "rq_IoControlCode q = ioctl_code x"
  shows "valid_request q n \<longleftrightarrow>
    rq_InputBufferLength q \<le> GUARDIAN_MAX_IOCTL_BUFFER \<and>
    rq_OutputBufferLength q \<le> GUARDIAN_MAX_IOCTL_BUFFER \<and>
    input_size x \<le> rq_InputBufferLength q \<and> n = output_size x \<and> n \<le> rq_OutputBufferLength q \<and>
    count_ok x (rq_SystemBuffer q)"
proof (cases "rq_InputBufferLength q \<le> GUARDIAN_MAX_IOCTL_BUFFER \<and>
    rq_OutputBufferLength q \<le> GUARDIAN_MAX_IOCTL_BUFFER")
  case False
  then show ?thesis by (auto simp: valid_request_def GuardianValidateIoctlBuffer_def)
next
  case True
  note code = validate_code [of "rq_InputBufferLength q" "rq_OutputBufferLength q" x "in_ptr q",
    unfolded not_less, OF True [THEN conjunct1] True [THEN conjunct2]]
  consider (pol) "x = IOCTL_GUARDIAN_SYNC_POLICIES" | (rt) "x = IOCTL_GUARDIAN_SYNC_ROUTES"
    | (other) "x \<noteq> IOCTL_GUARDIAN_SYNC_POLICIES" "x \<noteq> IOCTL_GUARDIAN_SYNC_ROUTES" by blast
  then show ?thesis
  proof cases
    case pol
    then show ?thesis
      using check_sync_success [OF assms(1), of GUARDIAN_MAX_SYNC_POLICIES n] True
      unfolding valid_request_def assms(2) code by (auto simp: count_ok_def)
  next
    case rt
    then show ?thesis
      using check_sync_success [OF assms(1), of GUARDIAN_MAX_SYNC_ROUTES n] True
      unfolding valid_request_def assms(2) code by (auto simp: count_ok_def)
  next
    case other
    then show ?thesis
      using check_input_success [of "input_size x" q n] True no_output_with_input [of x]
      unfolding valid_request_def assms(2) code by (auto simp: count_ok_def)
  qed
qed

lemma valid_request_known:
  assumes "valid_request q n"
  obtains x where "rq_IoControlCode q = ioctl_code x"
proof (cases "enum_of guardian_ioctls ioctl_code (rq_IoControlCode q)")
  case None
  then show ?thesis using assms
    by (auto simp: valid_request_def GuardianValidateIoctlBuffer_def split: if_splits)
next
  case (Some x)
  then show ?thesis using that by (simp add: guardian_ioctl.enum_of_iff)
qed

end
