(* ===== verification/Ioctl_Effects.thy ===== *)
theory Ioctl_Effects
  imports Ioctl_Dispatch
begin

text \<open>
  The specification of the control requests as a relation between states, one rule per control,
  and the proof that the dispatch of ioctl\_dispatch.c implements it. Beside it the memory safety of
  the dispatch: which requests can make it leave the system buffer, and how much output it reports.
\<close>

section \<open>The effect of each control\<close>

text \<open>
  The specification of the controls: what each of them may do to the driver's state, in terms of
  the one component operation it stands for. A query returns data and changes nothing.
\<close>

inductive ioctl_effect :: "GUARDIAN_IOCTL \<Rightarrow> ntstatus \<Rightarrow> guardian \<Rightarrow> guardian \<Rightarrow> bool" where
  query: "0 < output_size x \<Longrightarrow> ioctl_effect x st s s"
| set_policy: "wf_app_policy p \<Longrightarrow> GuardianAppPolicySet a (Some p) (gs_Policies s) = (st, t) \<Longrightarrow>
    ioctl_effect IOCTL_GUARDIAN_SET_APP_POLICY st s (s\<lparr>gs_Policies := t\<rparr>)"
| sync_policies: "(\<And>i p. rd i = Readable p \<Longrightarrow> wf_app_policy p) \<Longrightarrow>
    GuardianAppPolicySync alloc (Some rd) n (gs_Policies s) = Inr (st, t) \<Longrightarrow>
    ioctl_effect IOCTL_GUARDIAN_SYNC_POLICIES st s (s\<lparr>gs_Policies := t\<rparr>)"
| set_route: "wf_route r \<Longrightarrow> GuardianRouteSet a (Some r) (gs_Routes s) = (st, u) \<Longrightarrow>
    ioctl_effect IOCTL_GUARDIAN_SET_ROUTE st s (s\<lparr>gs_Routes := u\<rparr>)"
| clear_route: "length k = 16 \<Longrightarrow> GuardianRouteClear k (gs_Routes s) = (st, u) \<Longrightarrow>
    ioctl_effect IOCTL_GUARDIAN_CLEAR_ROUTE st s (s\<lparr>gs_Routes := u\<rparr>)"
| sync_routes: "(\<And>i r. rd i = Readable r \<Longrightarrow> wf_route r) \<Longrightarrow>
    GuardianRouteSync alloc (Some rd) n (gs_Routes s) = Inr (st, u) \<Longrightarrow>
    ioctl_effect IOCTL_GUARDIAN_SYNC_ROUTES st s (s\<lparr>gs_Routes := u\<rparr>)"
| set_kill_switch: "GuardianKillSwitchSet (Some c) (gs_KillSwitch s) = (st, k) \<Longrightarrow>
    ioctl_effect IOCTL_GUARDIAN_SET_KILL_SWITCH st s
      (if NT_SUCCESS st
       then set_driver (\<lambda>d. d\<lparr>dv_KillSwitchMode := ks_Mode k\<rparr>) (s\<lparr>gs_KillSwitch := k\<rparr>) else s)"
| import_state: "GuardianStateManagerImport ib n s = Inr (st, s') \<Longrightarrow>
    ioctl_effect IOCTL_GUARDIAN_IMPORT_STATE st s s'"
| dns_config: "wf_dns_config c \<Longrightarrow> GuardianDnsLayerSetConfig (Some c) (gs_Dns s) = (st, d) \<Longrightarrow>
    ioctl_effect IOCTL_GUARDIAN_DNS_SET_CONFIG st s (s\<lparr>gs_Dns := d\<rparr>)"
| set_mode: "GuardianHybridSetMode ndis m s = (st, s') \<Longrightarrow>
    ioctl_effect IOCTL_GUARDIAN_SET_GUARDIAN_MODE st s s'"

lemma read_in_Inr: "read_in rd ib = Inr x \<longleftrightarrow> (\<exists>b r. ib = Some b \<and> rd b = Some (x, r))"
  by (cases ib) (auto simp: read_in_def read_mem_Inr)

lemma array_in_wf:
  "array_in rd_app_policy sz b i = Readable p \<Longrightarrow> wf_app_policy p"
  "array_in rd_route sz b i = Readable r \<Longrightarrow> wf_route r"
  by (auto simp: array_in_def app_policy.rd_iff route_layout.rd_iff split: option.splits)

lemma reply_Inr:
  "reply new n ob s = Inr (st, k, b', s') \<longleftrightarrow>
     (\<exists>b. ob = Some b \<and> length new \<le> length b \<and> b' = new @ drop (length new) b) \<and>
     st = STATUS_SUCCESS \<and> k = n \<and> s' = s"
  by (cases ob) (auto simp: reply_def write_out_def write_mem_def)

lemma export_keeps_state: "dispatch_export ob n b s = Inr (st, k, b', s') \<Longrightarrow> s' = s"
  by (auto simp: dispatch_export_def bind_fault_Inr)

lemma reconcile_keeps_state: "dispatch_reconcile ib ob b s = Inr (st, k, b', s') \<Longrightarrow> s' = s"
  by (cases ob)
    (auto simp: dispatch_reconcile_def GuardianRecoveryReconcile_def bind_fault_Inr case_prod_unfold)

lemma dispatch_effect:
  assumes "rq_IoControlCode q = ioctl_code x"
    and "dispatch_ioctl env q ib ob s = Inr (st, k, b', s')"
  shows "ioctl_effect x st s s'"
proof -
  note d = assms(2) [unfolded dispatch_ioctl_def Let_def assms(1) guardian_ioctl.enum_of_code]
  show ?thesis
  proof (cases x)
    case IOCTL_GUARDIAN_SET_APP_POLICY
    with d show ?thesis
      by (auto simp: bind_fault_Inr read_in_Inr app_policy.rd_iff case_prod_unfold
          intro!: ioctl_effect.set_policy)
  next
    case IOCTL_GUARDIAN_SYNC_POLICIES
    with d show ?thesis
      by (auto simp: dispatch_sync_policies_def bind_fault_Inr read_in_Inr
          intro: ioctl_effect.sync_policies [OF array_in_wf(1)])
  next
    case IOCTL_GUARDIAN_SET_ROUTE
    with d show ?thesis
      by (auto simp: bind_fault_Inr read_in_Inr route_layout.rd_iff case_prod_unfold
          intro!: ioctl_effect.set_route)
  next
    case IOCTL_GUARDIAN_CLEAR_ROUTE
    with d show ?thesis
      by (auto simp: bind_fault_Inr read_in_Inr rd_bytes_iff case_prod_unfold
          intro!: ioctl_effect.clear_route)
  next
    case IOCTL_GUARDIAN_SYNC_ROUTES
    with d show ?thesis
      by (auto simp: dispatch_sync_routes_def bind_fault_Inr read_in_Inr
          intro: ioctl_effect.sync_routes [OF array_in_wf(2)])
  next
    case IOCTL_GUARDIAN_SET_KILL_SWITCH
    with d obtain c where "dispatch_set_kill_switch ib (rq_SystemBuffer q) s = Inr (st, k, b', s')"
      and "read_in rd_kill_switch ib = Inr c"
      by (auto simp: dispatch_set_kill_switch_def bind_fault_Inr)
    then obtain ks where set: "GuardianKillSwitchSet (Some c) (gs_KillSwitch s) = (st, ks)"
      and "s' = (if NT_SUCCESS st
          then set_driver (\<lambda>d. d\<lparr>dv_KillSwitchMode := ks_Mode ks\<rparr>) (s\<lparr>gs_KillSwitch := ks\<rparr>)
          else s\<lparr>gs_KillSwitch := ks\<rparr>)"
      by (cases "GuardianKillSwitchSet (Some c) (gs_KillSwitch s)")
        (auto simp: dispatch_set_kill_switch_def GuardianKillSwitchGetMode_def Let_def)
    then show ?thesis
      using ioctl_effect.set_kill_switch [OF set] ks_set_failure [OF set] IOCTL_GUARDIAN_SET_KILL_SWITCH
      by (auto split: if_splits)
  next
    case IOCTL_GUARDIAN_IMPORT_STATE
    with d have "GuardianStateManagerImport ib (of_nat (rq_InputBufferLength q)) s = Inr (st, s')"
      by (auto simp: bind_fault_Inr)
    then show ?thesis using IOCTL_GUARDIAN_IMPORT_STATE
      by (auto intro: ioctl_effect.import_state)
  next
    case IOCTL_GUARDIAN_DNS_SET_CONFIG
    with d show ?thesis
      by (auto simp: bind_fault_Inr read_in_Inr dns_config_layout.rd_iff
          case_prod_unfold intro!: ioctl_effect.dns_config)
  next
    case IOCTL_GUARDIAN_SET_GUARDIAN_MODE
    with d show ?thesis
      by (auto simp: bind_fault_Inr case_prod_unfold
          intro: ioctl_effect.set_mode [OF prod.collapse [symmetric]])
  qed (use d in \<open>auto simp: reply_Inr intro: ioctl_effect.query dest!: export_keeps_state
      reconcile_keeps_state\<close>)
qed

section \<open>Memory safety of the dispatch\<close>

lemma read_in_no_fault:
  "read_in rd (Some b) = Inl f \<Longrightarrow> rd b = None"
  by (auto simp: read_in_def read_mem_def split: option.splits)

lemma write_out_no_fault: "write_out new (Some b) = Inl f \<Longrightarrow> length b < length new"
  by (auto simp: write_out_def write_mem_def split: if_splits)

lemma reply_fault: "reply new n (Some b) s = Inl f \<Longrightarrow> length b < length new"
  by (auto simp: reply_def dest: write_out_no_fault split: sum.splits simp: bind_fault_def)

lemma output_lengths:
  "length (enc_driver_state d) = sizeof_GUARDIAN_DRIVER_STATE_V1 \<longleftrightarrow> wf_driver_state d"
  "length (enc_telemetry t) = sizeof_GUARDIAN_TELEMETRY_V1"
  "length (enc_perf_stats p) = sizeof_GUARDIAN_PERF_STATS_V1"
  "length (enc_dns_stats n) = sizeof_GUARDIAN_DNS_STATS_V1"
  "length (enc_reconcile_response r) = sizeof_GUARDIAN_RECONCILE_RESPONSE_V1"
  "length (enc_state_blob h) = sizeof_GUARDIAN_STATE_BLOB_HEADER_V1"
  by (simp_all add: structure_sizes enc_driver_state_def wf_driver_state_def enc_telemetry_def
      enc_perf_stats_def enc_dns_stats_def enc_reconcile_response_def enc_state_blob_def)

text \<open>The buffer a valid request brings is as long as its input and as its output.\<close>

lemma valid_lengths:
  assumes "wf_request q" and "rq_IoControlCode q = ioctl_code x" and "valid_request q n"
  shows "input_size x \<le> length (rq_SystemBuffer q)" and "output_size x \<le> length (rq_SystemBuffer q)"
    and "0 < input_size x \<Longrightarrow> in_ptr q = Some (rq_SystemBuffer q)"
    and "0 < output_size x \<Longrightarrow> out_ptr q = Some (rq_SystemBuffer q)"
    and "unat (of_nat (rq_InputBufferLength q) :: u32) = rq_InputBufferLength q"
    and "unat (of_nat (rq_OutputBufferLength q) :: u32) = rq_OutputBufferLength q"
    and "rq_InputBufferLength q \<le> length (rq_SystemBuffer q)"
    and "output_size x \<le> rq_OutputBufferLength q"
    and "count_ok x (rq_SystemBuffer q)"
proof -
  note v = assms(3) [unfolded valid_request_code [OF assms(1,2)]]
  have small: "m \<le> GUARDIAN_MAX_IOCTL_BUFFER \<Longrightarrow> unat (of_nat m :: u32) = m" for m
    by (simp add: unat_of_nat GUARDIAN_MAX_IOCTL_BUFFER_def GUARDIAN_MAX_EXPORT_BYTES_def
        structure_sizes)
  show "input_size x \<le> length (rq_SystemBuffer q)" "output_size x \<le> length (rq_SystemBuffer q)"
    "0 < input_size x \<Longrightarrow> in_ptr q = Some (rq_SystemBuffer q)"
    "0 < output_size x \<Longrightarrow> out_ptr q = Some (rq_SystemBuffer q)"
    "rq_InputBufferLength q \<le> length (rq_SystemBuffer q)"
    "output_size x \<le> rq_OutputBufferLength q"
    "unat (of_nat (rq_InputBufferLength q) :: u32) = rq_InputBufferLength q"
    "unat (of_nat (rq_OutputBufferLength q) :: u32) = rq_OutputBufferLength q"
    "count_ok x (rq_SystemBuffer q)"
    using v assms(1) small by (auto simp: wf_request_def in_ptr_def out_ptr_def)
qed

lemma array_overrun:
  assumes "codec enc rd ok sz" and "array_in rd sz b m = Truncated v" and "m < k"
  shows "length b < 8 + sz * k"
proof -
  have "length (drop (8 + sz * m) b) < sz"
    using assms(2) codec.rd_none [OF assms(1)]
    by (auto simp: array_in_def split: option.splits)
  then have "length b < 8 + sz * m + sz" by auto
  also have "\<dots> = 8 + sz * Suc m" by simp
  also have "\<dots> \<le> 8 + sz * k" using assms(3) by (intro add_left_mono mult_le_mono2) simp
  finally show ?thesis .
qed

lemma policy_sync_fault:
  assumes "GuardianAppPolicySync alloc (Some (array_in rd_app_policy sizeof_GUARDIAN_APP_POLICY_V1 b))
    count t = Inl f"
  shows "length b < 8 + sizeof_GUARDIAN_APP_POLICY_V1 * unat count"
proof -
  obtain m v where "m < unat count"
    and "array_in rd_app_policy sizeof_GUARDIAN_APP_POLICY_V1 b (0 + m) = Truncated v"
    using assms
    by (auto simp: GuardianAppPolicySync_def Let_def split: if_splits dest!: policy_tab.loop_fault)
  then show ?thesis using array_overrun [OF app_policy.codec_axioms] by simp
qed

lemma route_sync_fault:
  assumes "GuardianRouteSync alloc (Some (array_in rd_route sizeof_GUARDIAN_ROUTE_ASSIGNMENT_V1 b))
    count t = Inl f"
  shows "length b < 8 + sizeof_GUARDIAN_ROUTE_ASSIGNMENT_V1 * unat count"
proof -
  obtain m v where "m < unat count"
    and "array_in rd_route sizeof_GUARDIAN_ROUTE_ASSIGNMENT_V1 b (0 + m) = Truncated v"
    using assms
    by (auto simp: GuardianRouteSync_def Let_def split: if_splits dest!: route_tab.loop_fault)
  then show ?thesis using array_overrun [OF route_layout.codec_axioms] by simp
qed

text \<open>What a sync request claims to hold and what its buffer does hold.\<close>

definition sync_overrun :: "ioctl_request \<Rightarrow> bool" where
  "sync_overrun q \<longleftrightarrow>
     (case enum_of guardian_ioctls ioctl_code (rq_IoControlCode q) of
        Some IOCTL_GUARDIAN_SYNC_POLICIES \<Rightarrow>
          length (rq_SystemBuffer q) <
            8 + sizeof_GUARDIAN_APP_POLICY_V1 * unat (count_field (rq_SystemBuffer q))
      | Some IOCTL_GUARDIAN_SYNC_ROUTES \<Rightarrow>
          length (rq_SystemBuffer q) <
            8 + sizeof_GUARDIAN_ROUTE_ASSIGNMENT_V1 * unat (count_field (rq_SystemBuffer q))
      | _ \<Rightarrow> False)"

lemma bind_fault_Inl:
  "bind_fault m f = Inl e \<longleftrightarrow> m = Inl e \<or> (\<exists>x. m = Inr x \<and> f x = Inl e)"
  by (cases m) simp_all

lemma dispatch_fault:
  assumes "wf_request q" and "rq_IoControlCode q = ioctl_code x" and "valid_request q n"
    and "wf_driver_state (gs_Driver s)"
    and "dispatch_ioctl env q (in_ptr q) (out_ptr q) s = Inl f"
  shows "sync_overrun q"
proof -
  let ?b = "rq_SystemBuffer q"
  note v = valid_lengths [OF assms(1-3)]
  note d = assms(5) [unfolded dispatch_ioctl_def Let_def assms(2) guardian_ioctl.enum_of_code]
  note o = sync_overrun_def assms(2) guardian_ioctl.enum_of_code
  show ?thesis
  proof (cases x)
    case IOCTL_GUARDIAN_SYNC_POLICIES
    with d v have "\<exists>t. GuardianAppPolicySync (en_Alloc env)
        (Some (array_in rd_app_policy sizeof_GUARDIAN_APP_POLICY_V1 ?b)) (count_field ?b) t = Inl f"
      using count_field_read [of ?b]
      by (auto simp: dispatch_sync_policies_def read_in_def bind_fault_Inl case_prod_unfold)
    then show ?thesis using IOCTL_GUARDIAN_SYNC_POLICIES policy_sync_fault
      unfolding o by auto
  next
    case IOCTL_GUARDIAN_SYNC_ROUTES
    with d v have "\<exists>t. GuardianRouteSync (en_Alloc env)
        (Some (array_in rd_route sizeof_GUARDIAN_ROUTE_ASSIGNMENT_V1 ?b)) (count_field ?b) t = Inl f"
      using count_field_read [of ?b]
      by (auto simp: dispatch_sync_routes_def read_in_def bind_fault_Inl case_prod_unfold)
    then show ?thesis using IOCTL_GUARDIAN_SYNC_ROUTES route_sync_fault
      unfolding o by auto
  next
    case IOCTL_GUARDIAN_GET_DRIVER_STATE
    with d v show ?thesis using output_lengths(1) [of "gs_Driver s"] assms(4)
      by (auto dest: reply_fault)
  next
    case IOCTL_GUARDIAN_SET_APP_POLICY
    with d v show ?thesis using app_policy.rd_none [of ?b]
      by (auto simp: bind_fault_Inl case_prod_unfold dest: read_in_no_fault)
  next
    case IOCTL_GUARDIAN_SET_ROUTE
    with d v show ?thesis using route_layout.rd_none [of ?b]
      by (auto simp: bind_fault_Inl case_prod_unfold dest: read_in_no_fault)
  next
    case IOCTL_GUARDIAN_CLEAR_ROUTE
    with d v show ?thesis
      by (auto simp: bind_fault_Inl case_prod_unfold rd_bytes_none dest!: read_in_no_fault)
  next
    case IOCTL_GUARDIAN_SET_KILL_SWITCH
    with d v show ?thesis using kill_switch_layout.rd_none [of ?b]
      by (auto simp: dispatch_set_kill_switch_def bind_fault_Inl case_prod_unfold Let_def
          dest: read_in_no_fault)
  next
    case IOCTL_GUARDIAN_GET_TELEMETRY
    with d v show ?thesis by (auto dest!: reply_fault simp: output_lengths)
  next
    case IOCTL_GUARDIAN_EXPORT_STATE
    with d v show ?thesis
      by (auto simp: dispatch_export_def GuardianStateManagerExport_def bind_fault_Inl write_mem_def
          output_lengths case_prod_unfold split: if_splits)
  next
    case IOCTL_GUARDIAN_IMPORT_STATE
    with d v show ?thesis
      using import_no_fault [of "in_ptr q" "of_nat (rq_InputBufferLength q)" s]
      by (auto simp: bind_fault_Inl case_prod_unfold)
  next
    case IOCTL_GUARDIAN_RECONCILE
    with v have "4 + 4 \<le> length ?b" by (simp add: structure_sizes)
    then have "rd_u32 (drop 4 ?b) \<noteq> None" by (simp add: rd_word_none)
    with d v IOCTL_GUARDIAN_RECONCILE show ?thesis
      by (cases "in_ptr q") (auto simp: dispatch_reconcile_def GuardianRecoveryReconcile_def
          bind_fault_Inl case_prod_unfold in_ptr_def output_lengths read_mem_def
          dest!: write_out_no_fault split: option.splits if_splits)
  next
    case IOCTL_GUARDIAN_DNS_SET_CONFIG
    with d v show ?thesis using dns_config_layout.rd_none [of ?b]
      by (auto simp: bind_fault_Inl case_prod_unfold dest: read_in_no_fault)
  next
    case IOCTL_GUARDIAN_GET_PERF_STATS
    with d v show ?thesis by (auto dest!: reply_fault simp: output_lengths)
  next
    case IOCTL_GUARDIAN_GET_DNS_STATS
    with d v show ?thesis by (auto dest!: reply_fault simp: output_lengths)
  next
    case IOCTL_GUARDIAN_SET_GUARDIAN_MODE
    with d v show ?thesis
      by (auto simp: bind_fault_Inl case_prod_unfold rd_word_none dest!: read_in_no_fault)
  qed
qed

lemma dispatch_output:
  assumes "wf_request q" and "rq_IoControlCode q = ioctl_code x" and "valid_request q n"
    and "dispatch_ioctl env q (in_ptr q) (out_ptr q) s = Inr (st, k, b', s')"
  shows "length b' = length (rq_SystemBuffer q) \<and> k \<le> output_size x"
proof -
  let ?b = "rq_SystemBuffer q"
  note v = valid_lengths [OF assms(1-3)]
  note d = assms(4) [unfolded dispatch_ioctl_def Let_def assms(2) guardian_ioctl.enum_of_code]
  show ?thesis
  proof (cases x)
    case IOCTL_GUARDIAN_EXPORT_STATE
    with d v show ?thesis
      by (auto simp: dispatch_export_def GuardianStateManagerExport_def bind_fault_Inr write_mem_def
          output_lengths split: if_splits) (simp add: structure_sizes)
  next
    case IOCTL_GUARDIAN_RECONCILE
    with d v show ?thesis
      by (auto simp: dispatch_reconcile_def GuardianRecoveryReconcile_def bind_fault_Inr
          write_out_def write_mem_def output_lengths split: if_splits)
  next
    case IOCTL_GUARDIAN_SET_KILL_SWITCH
    with d show ?thesis
      by (auto simp: dispatch_set_kill_switch_def bind_fault_Inr case_prod_unfold Let_def)
  qed (use d v in \<open>auto simp: reply_Inr bind_fault_Inr case_prod_unfold output_lengths
      dispatch_sync_policies_def dispatch_sync_routes_def\<close>)
qed

lemma evt_dispatched:
  assumes "wf_request q" and "GuardianEvtIoDeviceControl env q s = Inr (c, s')"
  obtains (reject) st where "\<not> NT_SUCCESS st"
      and "(c, s') = complete_request env st 0 (rq_SystemBuffer q) (checked_caller env s)"
  | (dispatch) x n st k b' s2 where "rq_IoControlCode q = ioctl_code x" and "valid_request q n"
      and "admitted env q s"
      and "dispatch_ioctl env q (in_ptr q) (out_ptr q) (checked_caller env s) =
             Inr (st, k, b', s2)"
      and "ioctl_effect x st (checked_caller env s) s2"
      and "(c, s') = complete_request env st k b' s2"
  using assms(2)
proof (cases rule: evt_cases)
  case (reject st)
  then show ?thesis using that(1) by blast
next
  case (dispatch n st k b' s2)
  obtain x where "rq_IoControlCode q = ioctl_code x"
    using valid_request_known [OF dispatch(1)] by blast
  then show ?thesis using that(2) dispatch dispatch_effect by blast
qed

lemma evt_valid:
  assumes "admitted env q s" and "wf_request q" and "rq_IoControlCode q = ioctl_code x"
    and "valid_request q n"
  shows "GuardianEvtIoDeviceControl env q s =
    bind_fault (dispatch_ioctl env q (in_ptr q) (out_ptr q) (checked_caller env s))
      (\<lambda>(status, bytesReturned, b', s2). Inr (complete_request env status bytesReturned b' s2))"
  using evt_admitted [OF assms(1)] assms(4) by (auto simp: valid_request_def)

lemma short_policy_sync_faults:
  assumes "wf_request q" and "admitted env q s"
    and "rq_IoControlCode q = ioctl_code IOCTL_GUARDIAN_SYNC_POLICIES"
    and "8 \<le> rq_InputBufferLength q" and "length (rq_SystemBuffer q) < 8 + 1448"
    and "0 < count_field (rq_SystemBuffer q)" and "count_field (rq_SystemBuffer q) \<le> 256"
    and "rd_u32 (drop 8 (rq_SystemBuffer q)) = Some (GUARDIAN_APP_POLICY_VERSION, rest)"
    and "en_Alloc env 0"
  shows "GuardianEvtIoDeviceControl env q s = Inl OutOfBounds"
proof -
  let ?b = "rq_SystemBuffer q"
  have max: "1456 \<le> GUARDIAN_MAX_IOCTL_BUFFER"
    by (simp add: GUARDIAN_MAX_IOCTL_BUFFER_def GUARDIAN_MAX_EXPORT_BYTES_def structure_sizes)
  have valid: "valid_request q 0"
    using assms max unfolding valid_request_code [OF assms(1,3)]
    by (auto simp: wf_request_def count_ok_def GUARDIAN_MAX_SYNC_POLICIES_def)
  have "8 \<le> length ?b" using assms(1,4) by (simp add: wf_request_def)
  note count = count_field_read [OF this]
  have "rd_app_policy (drop 8 ?b) = None" using assms(5) app_policy.rd_none [of "drop 8 ?b"]
    by (auto simp: structure_sizes)
  then have first: "array_in rd_app_policy sizeof_GUARDIAN_APP_POLICY_V1 ?b 0 =
      Truncated (Some GUARDIAN_APP_POLICY_VERSION)"
    using assms(8) by (simp add: array_in_def)
  obtain m where m: "unat (count_field ?b) = Suc m"
    using assms(6) by (cases "unat (count_field ?b)") (auto simp: word_gt_0 unat_eq_0)
  have "GuardianAppPolicySync (en_Alloc env)
      (Some (array_in rd_app_policy sizeof_GUARDIAN_APP_POLICY_V1 ?b)) (count_field ?b) t =
      Inl OutOfBounds" for t
    using assms(7,9) first m
    by (simp add: GuardianAppPolicySync_def GUARDIAN_MAX_SYNC_POLICIES_def not_less Let_def)
  then have "dispatch_ioctl env q (in_ptr q) (out_ptr q) t = Inl OutOfBounds" for t
    using count assms(4) unfolding dispatch_ioctl_def Let_def assms(3) guardian_ioctl.enum_of_code
    by (simp add: dispatch_sync_policies_def read_in_def in_ptr_def)
  then show ?thesis by (simp add: evt_valid [OF assms(2,1,3) valid])
qed

lemma validate_no_fault:
  assumes "wf_request q"
  shows "GuardianValidateIoctlBuffer (rq_IoControlCode q) (rq_InputBufferLength q)
    (rq_OutputBufferLength q) (in_ptr q) (Some 0) \<noteq> Inl f"
proof -
  have "check_sync (in_ptr q) (rq_InputBufferLength q) limit (Some 0) \<noteq> Inl f" for limit
    using count_field_read [of "rq_SystemBuffer q"] assms
    by (auto simp: check_sync_def in_ptr_def wf_request_def)
  then show ?thesis
    by (auto simp: GuardianValidateIoctlBuffer_def split: option.splits GUARDIAN_IOCTL.splits
        if_splits)
qed

lemma evt_fault_sync:
  assumes "wf_request q" and "wf_driver_state (gs_Driver s)"
    and "GuardianEvtIoDeviceControl env q s = Inl f"
  shows "sync_overrun q"
  using assms(3)
proof (cases rule: evt_fault_cases)
  case validate
  then show ?thesis using validate_no_fault [OF assms(1)] by blast
next
  case (dispatch n)
  obtain x where x: "rq_IoControlCode q = ioctl_code x"
    using valid_request_known [OF dispatch(1)] by blast
  show ?thesis
    by (rule dispatch_fault [OF assms(1) x dispatch(1) _ dispatch(2)])
      (simp add: checked_caller_def assms(2))
qed

end
