(* ===== verification/Ioctl_Properties.thy ===== *)
theory Ioctl_Properties
  imports Ioctl_Effects
begin

text \<open>
  The properties of the control request handler, with sample requests that show each can apply.
\<close>

lemma set_mode_failure:
  assumes "GuardianHybridSetMode ndis m s = (st, s')" and "\<not> NT_SUCCESS st"
  shows "s' = s"
proof (cases "GuardianHybridIsValidMode m")
  case True
  then have "fst (GuardianHybridSetMode ndis m s) = STATUS_SUCCESS"
    by (simp add: GuardianHybridSetMode_def GuardianHybridCoordinatorInitialize_def
        GuardianFiltersInitialize_def Let_def)
  then show ?thesis using assms by simp
next
  case False
  then show ?thesis using assms set_mode_invalid [OF False, of ndis s] by simp
qed

lemma effect_failure:
  assumes "ioctl_effect x st s s'" and "\<not> NT_SUCCESS st"
  shows "\<exists>t u. s' = s\<lparr>gs_Policies := t, gs_Routes := u\<rparr> \<and>
    (t = gs_Policies s \<or> x = IOCTL_GUARDIAN_SYNC_POLICIES) \<and>
    (u = gs_Routes s \<or> x = IOCTL_GUARDIAN_SYNC_ROUTES)"
  using assms
proof (cases rule: ioctl_effect.cases)
  case (set_policy p a t)
  then have "t = gs_Policies s" using policy_tab.set_failure assms(2) by blast
  then show ?thesis using set_policy
    by (intro exI [of _ "gs_Policies s"] exI [of _ "gs_Routes s"]) simp
next
  case (sync_policies rd alloc n t)
  then show ?thesis by (intro exI [of _ t] exI [of _ "gs_Routes s"]) simp
next
  case (set_route r a u)
  then have "u = gs_Routes s" using route_tab.set_failure assms(2) by blast
  then show ?thesis using set_route
    by (intro exI [of _ "gs_Policies s"] exI [of _ "gs_Routes s"]) simp
next
  case (clear_route k u)
  then have "u = gs_Routes s" using route_tab.remove_failure assms(2) by blast
  then show ?thesis using clear_route
    by (intro exI [of _ "gs_Policies s"] exI [of _ "gs_Routes s"]) simp
next
  case (sync_routes rd alloc n u)
  then show ?thesis by (intro exI [of _ "gs_Policies s"] exI [of _ u]) simp
next
  case (import_state ib n)
  then have "s' = s" using assms(2) by (auto elim: import_cases)
  then show ?thesis by (intro exI [of _ "gs_Policies s"] exI [of _ "gs_Routes s"]) simp
next
  case (dns_config c d)
  then have "d = gs_Dns s" using assms(2)
    by (auto simp: GuardianDnsLayerSetConfig_def split: if_splits)
  then show ?thesis using dns_config
    by (intro exI [of _ "gs_Policies s"] exI [of _ "gs_Routes s"]) simp
next
  case (set_mode ndis m)
  then have "s' = s" using set_mode_failure assms(2) by blast
  then show ?thesis by (intro exI [of _ "gs_Policies s"] exI [of _ "gs_Routes s"]) simp
qed (auto intro!: exI [of _ "gs_Policies s"] exI [of _ "gs_Routes s"])

section \<open>Properties\<close>

text \<open>
  C10: The request handler refines the specification of the control codes: a completed request
  either failed before the dispatch, with no output and no effect but the caller check, or had a
  known code, an input as long as the fixed part that code reads and an output buffer as long as
  what that code returns, and changed the state by exactly the one component operation its code
  stands for; then the request is counted in the IPC telemetry with its outcome and latency.
\<close>

theorem handler_implements_effects:
  assumes "wf_request q" and "GuardianEvtIoDeviceControl env q s = Inr (c, s')"
  shows "\<exists>s2. s' = set_telemetry (GuardianPerfRecordIpc (\<not> NT_SUCCESS (cp_Status c))
                      (en_End env - en_Start env)) s2 \<and>
    (\<not> NT_SUCCESS (cp_Status c) \<and> cp_Information c = 0 \<and> s2 = checked_caller env s \<or>
     (\<exists>x. rq_IoControlCode q = ioctl_code x \<and> input_size x \<le> rq_InputBufferLength q \<and>
        output_size x \<le> rq_OutputBufferLength q \<and>
        ioctl_effect x (cp_Status c) (checked_caller env s) s2))"
  using assms
proof (cases rule: evt_dispatched)
  case (reject st)
  then show ?thesis by (auto simp: complete_request_def)
next
  case (dispatch x n st k b' s2)
  then show ?thesis using valid_request_code [OF assms(1) dispatch(1), of n]
    by (auto simp: complete_request_def)
qed

text \<open>
  A request from a caller that the security check refuses is completed with
  \<open>STATUS_ACCESS_DENIED\<close>, no output and an untouched buffer, and the driver state
  differs only in the IPC telemetry, which counts one rejected request.
\<close>

lemma denied_caller_changes_nothing:
  assumes "\<not> NT_SUCCESS (fst (GuardianSecurityPolicyVerifyCaller (Some (en_Origin env))
      (en_Sessions env) (gs_AllowedServicePid s)))"
  shows "GuardianEvtIoDeviceControl env q s =
    Inr (\<lparr>cp_Status = STATUS_ACCESS_DENIED, cp_Information = 0,
          cp_SystemBuffer = rq_SystemBuffer q\<rparr>,
         s\<lparr>gs_Telemetry := GuardianPerfRecordIpc True (en_End env - en_Start env)
              (gs_Telemetry s)\<rparr>)"
proof -
  have "fst (GuardianSecurityPolicyVerifyCaller (Some (en_Origin env)) (en_Sessions env)
      (gs_AllowedServicePid s)) = STATUS_ACCESS_DENIED"
    using assms verify_status [of "Some (en_Origin env)" "en_Sessions env" "gs_AllowedServicePid s"]
    by auto
  moreover have "checked_caller env s = s"
    using assms by (simp add: checked_caller_def verify_pin)
  ultimately show ?thesis
    using assms by (simp add: evt_unfold Let_def complete_request_def set_telemetry_def)
qed

text \<open>
  The byte count that any request completes with is at most the caller's output buffer
  length, and the handler never changes the length of the system buffer.
\<close>

lemma completion_within_output_buffer:
  assumes "wf_request q" and "GuardianEvtIoDeviceControl env q s = Inr (c, s')"
  shows "cp_Information c \<le> rq_OutputBufferLength q \<and>
    length (cp_SystemBuffer c) = length (rq_SystemBuffer q)"
  using assms
proof (cases rule: evt_dispatched)
  case (reject st)
  then show ?thesis by (auto simp: complete_request_def)
next
  case (dispatch x n st k b' s2)
  then show ?thesis
    using dispatch_output [OF assms(1) dispatch(1,2,4)] valid_lengths(8) [OF assms(1) dispatch(1,2)]
    by (auto simp: complete_request_def)
qed

text \<open>
  C12: A \<open>SYNC_POLICIES\<close> request that is admitted and passes the validation with a
  count of at least one but whose system buffer ends inside the first policy, after its version
  field, makes, when this version is the current one and the pool allocation for the policy
  succeeds, the handler read past the end of the system buffer: the validation checks the count
  against 256 but not against the input length.
\<close>

theorem sync_of_short_buffer_overruns:
  assumes "wf_request q" and "admitted env q s"
    and "rq_IoControlCode q = ioctl_code IOCTL_GUARDIAN_SYNC_POLICIES"
    and "8 \<le> rq_InputBufferLength q" and "length (rq_SystemBuffer q) < 8 + 1448"
    and "0 < count_field (rq_SystemBuffer q)" and "count_field (rq_SystemBuffer q) \<le> 256"
    and "rd_u32 (drop 8 (rq_SystemBuffer q)) = Some (GUARDIAN_APP_POLICY_VERSION, rest)"
    and "en_Alloc env 0"
  shows "GuardianEvtIoDeviceControl env q s = Inl OutOfBounds"
  using assms by (rule short_policy_sync_faults)

text \<open>
  C28: A request that completes with a failing status leaves every part of the driver state as
  the caller check left it, except the IPC telemetry, which counts a rejection, and, for a
  failing \<open>SYNC_POLICIES\<close> or \<open>SYNC_ROUTES\<close> only, the table that was
  being synced.
\<close>

theorem failed_request_changes_only_a_synced_table:
  assumes "wf_request q" and "GuardianEvtIoDeviceControl env q s = Inr (c, s')"
    and "\<not> NT_SUCCESS (cp_Status c)"
  shows "\<exists>t u. s' = (checked_caller env s)\<lparr>gs_Policies := t, gs_Routes := u, gs_Telemetry :=
      GuardianPerfRecordIpc True (en_End env - en_Start env) (gs_Telemetry s)\<rparr> \<and>
    (t = gs_Policies s \<or> rq_IoControlCode q = ioctl_code IOCTL_GUARDIAN_SYNC_POLICIES) \<and>
    (u = gs_Routes s \<or> rq_IoControlCode q = ioctl_code IOCTL_GUARDIAN_SYNC_ROUTES)"
  using assms(1,2)
proof (cases rule: evt_dispatched)
  case (reject st)
  then show ?thesis
    by (intro exI [of _ "gs_Policies s"] exI [of _ "gs_Routes s"])
      (simp add: complete_request_def set_telemetry_def checked_caller_def)
next
  case (dispatch x n st k b' s2)
  then have "\<not> NT_SUCCESS st" using assms(3) by (simp add: complete_request_def)
  from effect_failure [OF dispatch(5) this] obtain t u
    where "s2 = (checked_caller env s)\<lparr>gs_Policies := t, gs_Routes := u\<rparr>"
      and "t = gs_Policies s \<or> x = IOCTL_GUARDIAN_SYNC_POLICIES"
      and "u = gs_Routes s \<or> x = IOCTL_GUARDIAN_SYNC_ROUTES"
    by (auto simp: checked_caller_def)
  then show ?thesis using dispatch(1,6) \<open>\<not> NT_SUCCESS st\<close>
    by (intro exI [of _ t] exI [of _ u])
      (auto simp: complete_request_def set_telemetry_def checked_caller_def
        simp del: ioctl_code.simps)
qed

text \<open>
  An admitted \<open>SET_APP_POLICY\<close> request whose buffer holds the packed structure
  of a current-version policy completes with success, and afterwards the table maps the policy's
  application id to that policy, field by field as decoded from the bytes, and every other id to
  what it did.
\<close>

lemma set_policy_request_stores_the_policy:
  assumes "wf_request q" and "admitted env q s"
    and "rq_IoControlCode q = ioctl_code IOCTL_GUARDIAN_SET_APP_POLICY"
    and "1448 \<le> rq_InputBufferLength q" and "length (rq_SystemBuffer q) \<le> GUARDIAN_MAX_IOCTL_BUFFER"
    and "rd_app_policy (rq_SystemBuffer q) = Some (p, rest)"
    and "ap_Version p = GUARDIAN_APP_POLICY_VERSION" and "en_Alloc env 0"
    and "policy_inv (gs_Policies s)" and "length (pt_list (gs_Policies s)) < 4096"
  shows "\<exists>c s'. GuardianEvtIoDeviceControl env q s = Inr (c, s') \<and>
    cp_Status c = STATUS_SUCCESS \<and> cp_Information c = 0 \<and>
    (\<forall>k. length k = 16 \<longrightarrow> GuardianPolicyFindLocked k (gs_Policies s') =
       (if k = ap_AppId p then Some p else GuardianPolicyFindLocked k (gs_Policies s)))"
proof -
  have valid: "valid_request q 0"
    using assms(1,4,5) unfolding valid_request_code [OF assms(1,3)]
    by (simp add: wf_request_def count_ok_def structure_sizes)
  obtain st t where set: "GuardianAppPolicySet (en_Alloc env 0) (Some p) (gs_Policies s) = (st, t)"
    by fastforce
  have wf: "length (ap_AppId p) = 16"
    using assms(6) by (simp add: app_policy.rd_iff wf_app_policy_def)
  have "NT_SUCCESS st"
    using policy_set_success_iff [of "en_Alloc env 0" p "gs_Policies s"] set assms(7-10)
    by (simp add: policy_inv_def table_inv_def GUARDIAN_MAX_POLICIES_def word_less_nat_alt)
  then have ok: "st = STATUS_SUCCESS"
    using set by (auto elim: GuardianAppPolicySet_cases)
  have "in_ptr q = Some (rq_SystemBuffer q)" using assms(4) by (simp add: in_ptr_def)
  then have "dispatch_ioctl env q (in_ptr q) (out_ptr q) (checked_caller env s) =
      Inr (STATUS_SUCCESS, 0, rq_SystemBuffer q, (checked_caller env s)\<lparr>gs_Policies := t\<rparr>)"
    unfolding dispatch_ioctl_def Let_def assms(3) guardian_ioctl.enum_of_code
    using set ok assms(6) by (simp add: read_in_def checked_caller_def)
  then have "GuardianEvtIoDeviceControl env q s =
      Inr (complete_request env STATUS_SUCCESS 0 (rq_SystemBuffer q)
             ((checked_caller env s)\<lparr>gs_Policies := t\<rparr>))"
    by (simp add: evt_valid [OF assms(2,1,3) valid])
  then show ?thesis
    using policy_set_find [OF assms(9) wf _ set] ok by (simp add: complete_request_def)
qed

lemma driver_state_request_reports_the_state:
  assumes "wf_request q" and "admitted env q s"
    and "rq_IoControlCode q = ioctl_code IOCTL_GUARDIAN_GET_DRIVER_STATE"
    and "sizeof_GUARDIAN_DRIVER_STATE_V1 \<le> rq_OutputBufferLength q"
    and "length (rq_SystemBuffer q) \<le> GUARDIAN_MAX_IOCTL_BUFFER"
    and "wf_driver_state (gs_Driver s)"
  shows "\<exists>c s' rest. GuardianEvtIoDeviceControl env q s = Inr (c, s') \<and>
    cp_Status c = STATUS_SUCCESS \<and> cp_Information c = sizeof_GUARDIAN_DRIVER_STATE_V1 \<and>
    rd_driver_state (cp_SystemBuffer c) = Some (gs_Driver s, rest) \<and> gs_Driver s' = gs_Driver s"
proof -
  let ?n = sizeof_GUARDIAN_DRIVER_STATE_V1 and ?b = "rq_SystemBuffer q"
  have valid: "valid_request q ?n"
    using assms(1,4,5) unfolding valid_request_code [OF assms(1,3)]
    by (simp add: wf_request_def count_ok_def)
  have "0 < rq_OutputBufferLength q" using assms(4) sizes_positive(7) by linarith
  then have out: "out_ptr q = Some ?b" by (simp add: out_ptr_def)
  have "?n \<le> length ?b" using assms(1,4) by (simp add: wf_request_def)
  then have "reply (enc_driver_state (gs_Driver s)) ?n (out_ptr q) (checked_caller env s) =
      Inr (STATUS_SUCCESS, ?n, enc_driver_state (gs_Driver s) @ drop ?n ?b, checked_caller env s)"
    using output_lengths(1) [THEN iffD2, OF assms(6)] by (simp add: reply_Inr out)
  then have "GuardianEvtIoDeviceControl env q s =
      Inr (complete_request env STATUS_SUCCESS ?n (enc_driver_state (gs_Driver s) @ drop ?n ?b)
             (checked_caller env s))"
    unfolding evt_valid [OF assms(2,1,3) valid]
    unfolding dispatch_ioctl_def Let_def assms(3) guardian_ioctl.enum_of_code
    by (simp add: checked_caller_def)
  then show ?thesis using driver_state_layout.rd_enc [OF assms(6)]
    by (simp add: complete_request_def checked_caller_def)
qed

section \<open>Witnesses\<close>

text \<open>A caller in session 0, buffers and memory available, no NDIS driver; and a request.\<close>

definition sample_env :: ioctl_env where
  "sample_env = \<lparr>en_Origin = \<lparr>ro_Irp = True, ro_RequestorProcessId = 4\<rparr>, en_Sessions = [4 \<mapsto> 0],
     en_InputStatus = STATUS_SUCCESS, en_OutputStatus = STATUS_SUCCESS, en_Alloc = (\<lambda>_. True),
     en_Start = 0, en_End = 5,
     en_Ndis = \<lparr>nx_open = STATUS_NOT_FOUND, nx_ioctl = 0, nx_output = []\<rparr>\<rparr>"

definition sample_request :: "GUARDIAN_IOCTL \<Rightarrow> bytes \<Rightarrow> nat \<Rightarrow> ioctl_request" where
  "sample_request x b n = \<lparr>rq_IoControlCode = ioctl_code x, rq_InputBufferLength = length b,
     rq_OutputBufferLength = n, rq_SystemBuffer = b @ replicate (n - length b) 0\<rparr>"

lemma sample_request_simps [simp]:
  "wf_request (sample_request x b n)" "rq_IoControlCode (sample_request x b n) = ioctl_code x"
  "rq_InputBufferLength (sample_request x b n) = length b"
  "rq_OutputBufferLength (sample_request x b n) = n"
  "rq_SystemBuffer (sample_request x b n) = b @ replicate (n - length b) 0"
  by (simp_all add: sample_request_def wf_request_def del: ioctl_code.simps)

lemma sample_admitted [simp]: "admitted sample_env q guardian_image"
  by (simp add: admitted_def sample_env_def guardian_image_def verify_accepts_iff)

lemma sample_zero_length_result:
  obtains c s' where "GuardianEvtIoDeviceControl sample_env
      (sample_request IOCTL_GUARDIAN_GET_TELEMETRY [] 0) guardian_image = Inr (c, s')"
    and "\<not> NT_SUCCESS (cp_Status c)"
proof -
  have "GuardianEvtIoDeviceControl sample_env
      (sample_request IOCTL_GUARDIAN_GET_TELEMETRY [] 0) guardian_image =
    Inr (complete_request sample_env STATUS_BUFFER_TOO_SMALL 0 []
           (checked_caller sample_env guardian_image))"
    unfolding evt_admitted [OF sample_admitted] sample_request_simps
    by (simp add: validate_code structure_sizes del: ioctl_code.simps)
  then show ?thesis using that by (simp add: complete_request_def)
qed

theorem handler_implements_effects_witness:
  "\<exists>c s' s2. GuardianEvtIoDeviceControl sample_env
      (sample_request IOCTL_GUARDIAN_GET_TELEMETRY [] 0) guardian_image = Inr (c, s') \<and>
    gs_Policies s' = gs_Policies s2 \<and> (s2 = checked_caller sample_env guardian_image \<or>
    ioctl_effect IOCTL_GUARDIAN_GET_TELEMETRY (cp_Status c)
      (checked_caller sample_env guardian_image) s2)"
proof -
  obtain c s' where r: "GuardianEvtIoDeviceControl sample_env
      (sample_request IOCTL_GUARDIAN_GET_TELEMETRY [] 0) guardian_image = Inr (c, s')"
    by (rule sample_zero_length_result)
  from handler_implements_effects [OF sample_request_simps(1) r] show ?thesis
    using r guardian_ioctl.code_inj by (auto simp del: ioctl_code.simps) metis+
qed

theorem failed_request_changes_only_a_synced_table_witness:
  "\<exists>c s'. GuardianEvtIoDeviceControl sample_env
      (sample_request IOCTL_GUARDIAN_GET_TELEMETRY [] 0) guardian_image = Inr (c, s') \<and>
    gs_KillSwitch s' = gs_KillSwitch guardian_image"
proof -
  obtain c s' where r: "GuardianEvtIoDeviceControl sample_env
      (sample_request IOCTL_GUARDIAN_GET_TELEMETRY [] 0) guardian_image = Inr (c, s')"
    and f: "\<not> NT_SUCCESS (cp_Status c)"
    by (rule sample_zero_length_result)
  from failed_request_changes_only_a_synced_table [OF sample_request_simps(1) r f] r show ?thesis
    by (auto simp: checked_caller_def)
qed

lemma completion_within_output_buffer_witness:
  "\<exists>c s'. GuardianEvtIoDeviceControl sample_env
      (sample_request IOCTL_GUARDIAN_GET_TELEMETRY [] 0) guardian_image = Inr (c, s') \<and>
    cp_Information c = 0"
proof -
  obtain c s' where r: "GuardianEvtIoDeviceControl sample_env
      (sample_request IOCTL_GUARDIAN_GET_TELEMETRY [] 0) guardian_image = Inr (c, s')"
    by (rule sample_zero_length_result)
  from completion_within_output_buffer [OF sample_request_simps(1) r] r show ?thesis by simp
qed

text \<open>A sync of one policy whose request ends after the version of that policy.\<close>

definition short_sync :: ioctl_request where
  "short_sync = sample_request IOCTL_GUARDIAN_SYNC_POLICIES [1, 0, 0, 0, 1, 0, 0, 0, 1, 0, 0, 0] 0"

lemma short_sync_count:
  "count_field (rq_SystemBuffer short_sync) = 1"
  "rd_u32 (drop 8 (rq_SystemBuffer short_sync)) = Some (GUARDIAN_APP_POLICY_VERSION, [])"
  "en_Alloc sample_env 0"
  by (simp_all add: short_sync_def count_field_def rd_word_def sample_env_def
      GUARDIAN_APP_POLICY_VERSION_def)

theorem sync_of_short_buffer_overruns_witness:
  "GuardianEvtIoDeviceControl sample_env short_sync guardian_image = Inl OutOfBounds"
  by (rule sync_of_short_buffer_overruns [of short_sync])
    (simp_all add: short_sync_count del: ioctl_code.simps,
     simp_all add: short_sync_def del: ioctl_code.simps)

lemma image_driver_wf: "wf_driver_state (gs_Driver guardian_image)"
  by (simp add: guardian_image_def zero_driver_state_def wf_driver_state_def)

lemma driver_state_request_reports_the_state_witness:
  "\<exists>c s' rest. GuardianEvtIoDeviceControl sample_env
      (sample_request IOCTL_GUARDIAN_GET_DRIVER_STATE [] 100) guardian_image = Inr (c, s') \<and>
    rd_driver_state (cp_SystemBuffer c) = Some (zero_driver_state, rest)"
  using driver_state_request_reports_the_state [OF sample_request_simps(1) sample_admitted
      sample_request_simps(2) _ _ image_driver_wf, of "[]" 100]
  by (auto simp: structure_sizes GUARDIAN_MAX_IOCTL_BUFFER_def GUARDIAN_MAX_EXPORT_BYTES_def
      guardian_image_def simp del: ioctl_code.simps)

lemma set_policy_request_stores_the_policy_witness:
  "\<exists>c s'. GuardianEvtIoDeviceControl sample_env
      (sample_request IOCTL_GUARDIAN_SET_APP_POLICY
         (enc_app_policy (zero_app_policy\<lparr>ap_Version := 1\<rparr>)) 0) guardian_image = Inr (c, s') \<and>
    GuardianPolicyFindLocked (replicate 16 0) (gs_Policies s') =
      Some (zero_app_policy\<lparr>ap_Version := 1\<rparr>)"
proof -
  let ?p = "zero_app_policy\<lparr>ap_Version := 1\<rparr>"
  let ?q = "sample_request IOCTL_GUARDIAN_SET_APP_POLICY (enc_app_policy ?p) 0"
  have wf: "wf_app_policy ?p" by (simp add: wf_app_policy_def zero_app_policy_def)
  have len: "length (enc_app_policy ?p) = 1448"
    using app_policy.enc_length [OF wf] by (simp add: structure_sizes)
  have read: "rd_app_policy (rq_SystemBuffer ?q) = Some (?p, [])"
    using app_policy.rd_enc_all [OF wf] by simp
  have empty: "policy_inv (gs_Policies guardian_image)"
    "length (pt_list (gs_Policies guardian_image)) < 4096"
    by (simp_all add: guardian_image_def policy_inv_def)
  have fits: "1448 \<le> rq_InputBufferLength ?q"
    "length (rq_SystemBuffer ?q) \<le> GUARDIAN_MAX_IOCTL_BUFFER"
    by (simp_all add: len GUARDIAN_MAX_IOCTL_BUFFER_def GUARDIAN_MAX_EXPORT_BYTES_def)
  have version: "ap_Version ?p = GUARDIAN_APP_POLICY_VERSION" "ap_AppId ?p = replicate 16 0"
    by (simp_all add: GUARDIAN_APP_POLICY_VERSION_def zero_app_policy_def)
  have "en_Alloc sample_env 0" by (simp add: sample_env_def)
  from set_policy_request_stores_the_policy [OF sample_request_simps(1) sample_admitted
      sample_request_simps(2) fits read version(1) this empty]
  obtain c s' where "GuardianEvtIoDeviceControl sample_env ?q guardian_image = Inr (c, s')"
    and "\<forall>k. length k = 16 \<longrightarrow> GuardianPolicyFindLocked k (gs_Policies s') =
       (if k = ap_AppId ?p then Some ?p else GuardianPolicyFindLocked k (gs_Policies guardian_image))"
    by blast
  then show ?thesis by (metis length_replicate version(2))
qed

definition stranger_env :: ioctl_env where
  "stranger_env = sample_env\<lparr>en_Origin := \<lparr>ro_Irp = True, ro_RequestorProcessId = 8\<rparr>,
     en_Sessions := [4 \<mapsto> 0, 8 \<mapsto> 1]\<rparr>"

lemma denied_caller_changes_nothing_witness:
  "\<exists>c s'. GuardianEvtIoDeviceControl stranger_env
      (sample_request IOCTL_GUARDIAN_SET_KILL_SWITCH (replicate 16 0) 0)
      (guardian_image\<lparr>gs_AllowedServicePid := 4\<rparr>) = Inr (c, s') \<and>
    cp_Status c = STATUS_ACCESS_DENIED"
proof -
  have "\<not> NT_SUCCESS (fst (GuardianSecurityPolicyVerifyCaller (Some (en_Origin stranger_env))
      (en_Sessions stranger_env)
      (gs_AllowedServicePid (guardian_image\<lparr>gs_AllowedServicePid := 4\<rparr>))))"
    by (simp add: verify_accepts_iff stranger_env_def)
  from denied_caller_changes_nothing [OF this] show ?thesis by simp
qed

end
