(* ===== verification/System.thy ===== *)
theory System
  imports Driver Ioctl_Properties
begin

text \<open>
  The loaded driver as a transition system. A run starts with a DriverEntry that succeeds and goes
  on with the entry points the system calls: control requests, classify calls, and the exported
  operations that nothing in this source tree calls yet. Here each call runs to its end before the
  next one starts. The queue of device.c is parallel, and calls that overlap reach more states than
  these (the Concurrent theories); what is proved here is the invariant that the calls keep when they
  are made in turn. It collects the invariants of the components.
\<close>

section \<open>Calls in turn and the states they reach\<close>

inductive driver_step :: "guardian \<Rightarrow> guardian \<Rightarrow> bool" where
  ioctl: "wf_request q \<Longrightarrow> GuardianEvtIoDeviceControl env q s = Inr (c, s') \<Longrightarrow> driver_step s s'"
| classify: "call_classify_fn f v start stop out s = (out', s') \<Longrightarrow> driver_step s s'"
| dns_datagram: "GuardianDnsLayerShouldObserve port pid (gs_Dns s) (gs_Telemetry s) = (b, d, t) \<Longrightarrow>
    driver_step s (s\<lparr>gs_Dns := d, gs_Telemetry := t\<rparr>)"
| remove_policy: "length k = 16 \<Longrightarrow> GuardianAppPolicyRemove k (gs_Policies s) = (st, p) \<Longrightarrow>
    driver_step s (s\<lparr>gs_Policies := p\<rparr>)"
| ndis_count: "driver_step s (GuardianHybridSetNdisFilterCount n s)"
| poll: "GuardianHybridPollNdisState ndis s = (st, s') \<Longrightarrow> driver_step s s'"

inductive running :: "guardian \<Rightarrow> bool" where
  start: "DriverEntry env r guardian_image = (st, s) \<Longrightarrow> NT_SUCCESS st \<Longrightarrow> running s"
| step: "running s \<Longrightarrow> driver_step s s' \<Longrightarrow> running s'"

section \<open>The invariant\<close>

definition guardian_inv :: "guardian \<Rightarrow> bool" where
  "guardian_inv s \<longleftrightarrow>
     policy_inv (gs_Policies s) \<and> route_inv (gs_Routes s) \<and> ks_inv (gs_KillSwitch s) \<and>
     dns_inv (gs_Dns s) \<and> hybrid_inv s \<and> generation_inv s \<and>
     counters_balanced (gs_Telemetry s) \<and> latency_frozen (gs_Telemetry s) \<and>
     wf_driver_state (gs_Driver s) \<and> gs_FilterCount s = 0 \<and> GuardianCalloutsAreRegistered s \<and>
     dv_LifecycleState (gs_Driver s) = lifecycle_code GuardianLifecycleRunning \<and>
     dv_Version (gs_Driver s) = GUARDIAN_DRIVER_STATE_VERSION"

text \<open>
  A state that agrees in the hybrid coordinator's variables and in the driver state has the hybrid
  invariant with the other; so updates of the remaining components keep it.
\<close>

lemma hybrid_inv_outside [simp]:
  "hybrid_inv (s\<lparr>gs_Policies := p\<rparr>) = hybrid_inv s"
  "hybrid_inv (s\<lparr>gs_Routes := u\<rparr>) = hybrid_inv s"
  "hybrid_inv (s\<lparr>gs_KillSwitch := k\<rparr>) = hybrid_inv s"
  "hybrid_inv (s\<lparr>gs_Telemetry := t\<rparr>) = hybrid_inv s"
  "hybrid_inv (s\<lparr>gs_Dns := d\<rparr>) = hybrid_inv s"
  "hybrid_inv (s\<lparr>gs_RecoveryGeneration := g\<rparr>) = hybrid_inv s"
  "hybrid_inv (s\<lparr>gs_AllowedServicePid := a\<rparr>) = hybrid_inv s"
  by (rule hybrid_inv_cong; simp)+

lemma hybrid_inv_driver [simp]:
  "hybrid_inv (set_driver (\<lambda>d. d\<lparr>dv_KillSwitchMode := m\<rparr>) s) = hybrid_inv s"
  "hybrid_inv (set_driver (\<lambda>d. d\<lparr>dv_RecoveryGeneration := g, dv_KillSwitchMode := m\<rparr>) s) =
     hybrid_inv s"
  by (rule hybrid_inv_cong; simp)+

lemmas invariant_defs = guardian_inv_def generation_inv_def wf_driver_state_def
  GuardianCalloutsAreRegistered_def

text \<open>What keeps the hybrid variables and the rest of the driver state apart.\<close>

lemma inv_outside_hybrid:
  assumes "guardian_inv s" and "outside_hybrid s' = outside_hybrid s" and "hybrid_inv s'"
  shows "guardian_inv s'"
proof -
  note o = outside_hybridD [OF assms(2)]
  have "f (gs_Driver s') = f (gs_Driver s)"
    if "\<And>d. f (d\<lparr>dv_GuardianMode := 0, dv_FilterCount := 0\<rparr>) = f d" for f :: "_ \<Rightarrow> 'b"
    using arg_cong [OF o(13), of f] by (simp add: that)
  from this [of dv_RecoveryGeneration] this [of dv_LifecycleState] this [of dv_Reserved]
    this [of dv_Version]
  show ?thesis using assms(1,3) o by (simp add: invariant_defs del: lifecycle_code.simps)
qed

section \<open>Preservation\<close>

lemma effect_inv:
  assumes "ioctl_effect x st s s'" and "guardian_inv s"
  shows "guardian_inv s'"
  using assms(1)
proof (cases rule: ioctl_effect.cases)
  case (set_policy p a t)
  then show ?thesis using assms(2) policy_set_inv [of "gs_Policies s" p a st t]
    by (simp add: invariant_defs wf_app_policy_def del: lifecycle_code.simps)
next
  case (sync_policies rd alloc n t)
  then have "policy_tab.elements_wf rd"
    by (simp add: policy_tab.elements_wf_def wf_app_policy_def)
  then have "policy_inv t"
    using sync_policies policy_tab.loop_inv [OF policy_tab.inv_empty] assms(2)
    by (auto simp: GuardianAppPolicySync_def Let_def invariant_defs split: if_splits)
  then show ?thesis using sync_policies assms(2) by (simp add: invariant_defs del: lifecycle_code.simps)
next
  case (set_route r a u)
  then show ?thesis using assms(2) route_set_inv [of "gs_Routes s" r a st u]
    by (simp add: invariant_defs wf_route_def del: lifecycle_code.simps)
next
  case (clear_route k u)
  then show ?thesis using assms(2) route_tab.remove_inv [of "gs_Routes s" k]
    by (simp add: invariant_defs del: lifecycle_code.simps)
next
  case (sync_routes rd alloc n u)
  then have "route_tab.elements_wf rd"
    by (simp add: route_tab.elements_wf_def wf_route_def)
  then have "route_inv u"
    using sync_routes route_tab.loop_inv [OF route_tab.inv_empty] assms(2)
    by (auto simp: GuardianRouteSync_def Let_def invariant_defs split: if_splits)
  then show ?thesis using sync_routes assms(2) by (simp add: invariant_defs del: lifecycle_code.simps)
next
  case (set_kill_switch c k)
  then show ?thesis using assms(2) ks_set_inv [of "gs_KillSwitch s" "Some c"]
    by (simp add: invariant_defs del: lifecycle_code.simps)
next
  case (import_state ib n)
  then show ?thesis using assms(2)
    by (auto simp: invariant_defs simp del: lifecycle_code.simps elim!: import_cases)
next
  case (dns_config c d)
  then show ?thesis using assms(2) dns_inv_set [of "gs_Dns s" "Some c"]
    by (simp add: invariant_defs del: lifecycle_code.simps)
next
  case (set_mode ndis m)
  have "hybrid_inv s" using assms(2) by (simp add: guardian_inv_def)
  from hybrid_inv_set_mode [OF this, of ndis m] show ?thesis
    using set_mode outside_set_mode [of ndis m s] inv_outside_hybrid [OF assms(2), of s']
    by simp
qed (use assms(2) in simp)

lemma telemetry_inv:
  "guardian_inv s \<Longrightarrow> counters_balanced t \<Longrightarrow> latency_frozen t \<Longrightarrow> guardian_inv (s\<lparr>gs_Telemetry := t\<rparr>)"
  by (simp add: invariant_defs del: lifecycle_code.simps)

lemma pin_inv: "guardian_inv s \<Longrightarrow> guardian_inv (checked_caller env s)"
  by (simp add: invariant_defs checked_caller_def del: lifecycle_code.simps)

lemma ioctl_inv:
  assumes "wf_request q" and "GuardianEvtIoDeviceControl env q s = Inr (c, s')" and "guardian_inv s"
  shows "guardian_inv s'"
proof -
  have completed: "guardian_inv (snd (complete_request env st k b s2))" if "guardian_inv s2" for st k b s2
    using that telemetry_inv [OF that] counters_balanced_other(3) latency_frozen_other(3)
    by (simp add: complete_request_def set_telemetry_def guardian_inv_def)
  show ?thesis
    using assms(1,2)
  proof (cases rule: evt_dispatched)
    case (reject st)
    then show ?thesis using completed [OF pin_inv [OF assms(3)]] by (metis snd_conv)
  next
    case (dispatch x n st k b' s2)
    then show ?thesis using completed [OF effect_inv [OF dispatch(5) pin_inv [OF assms(3)]]]
      by (metis snd_conv)
  qed
qed

lemma classify_inv:
  assumes "guardian_inv s" and "call_classify_fn f v start stop out s = (out', s')"
  shows "guardian_inv s'"
proof -
  have t: "counters_balanced (gs_Telemetry s)" "latency_frozen (gs_Telemetry s)"
    using assms(1) by (simp_all add: guardian_inv_def)
  have "s' = snd (call_classify_fn f v start stop out s)" using assms(2) by simp
  also have "guardian_inv \<dots>"
  proof (cases f)
    case GuardianFlowEstablishedClassify_fn
    then show ?thesis using assms(1) by (simp add: call_classify_fn_def)
  next
    case GuardianAuthConnectClassifyV4_fn
    then show ?thesis using assms(1) t
      by (cases v) (auto simp: call_connect_fn connect_fn_def auth_connect_state set_telemetry_def
          classify_connection_decide classify_connection_null Let_def
          counters_balanced_classify counters_balanced_other latency_frozen_classify
          latency_frozen_other intro!: telemetry_inv split: option.splits)
  next
    case GuardianAuthConnectClassifyV6_fn
    then show ?thesis using assms(1) t
      by (cases v) (auto simp: call_connect_fn connect_fn_def auth_connect_state set_telemetry_def
          classify_connection_decide classify_connection_null Let_def
          counters_balanced_classify counters_balanced_other latency_frozen_classify
          latency_frozen_other intro!: telemetry_inv split: option.splits)
  qed
  finally show ?thesis .
qed

lemma step_inv:
  assumes "driver_step s s'" and "guardian_inv s"
  shows "guardian_inv s'"
  using assms(1)
proof (cases rule: driver_step.cases)
  case (ioctl q env c)
  then show ?thesis using ioctl_inv assms(2) by blast
next
  case (classify f v start stop out out')
  then show ?thesis using classify_inv assms(2) by blast
next
  case (dns_datagram port pid b d t)
  then show ?thesis using assms(2) dns_inv_observe [of "gs_Dns s" port pid "gs_Telemetry s" b d t]
    by (auto simp: invariant_defs GuardianDnsLayerShouldObserve_def Let_def
        counters_balanced_other latency_frozen_other simp del: lifecycle_code.simps split: if_splits)
next
  case (remove_policy k st p)
  then show ?thesis using assms(2) policy_tab.remove_inv [of "gs_Policies s" k]
    by (simp add: invariant_defs del: lifecycle_code.simps)
next
  case (ndis_count n)
  have "outside_hybrid s' = outside_hybrid s"
    by (simp add: ndis_count GuardianHybridSetNdisFilterCount_def)
  moreover have "hybrid_inv s'" using assms(2)
    by (simp add: ndis_count GuardianHybridSetNdisFilterCount_def hybrid_inv_def guardian_inv_def)
  ultimately show ?thesis by (rule inv_outside_hybrid [OF assms(2)])
next
  case (poll ndis st)
  then have s': "s' = snd (GuardianHybridPollNdisState ndis s)" by simp
  have "outside_hybrid s' = outside_hybrid s" by (simp add: s')
  moreover have "hybrid_inv s'" using assms(2)
    by (simp add: s' hybrid_inv_def guardian_inv_def poll_publishes poll_hybrid)
  ultimately show ?thesis by (rule inv_outside_hybrid [OF assms(2)])
qed

lemma start_inv: "guardian_inv (entry_running env r)"
  using entry_running_fields [of env r] ks_init_inv [of r] dns_inv_init policy_tab.inv_empty
    route_tab.inv_empty counters_balanced_init latency_frozen_init
  by (simp add: guardian_inv_def generation_inv_def GuardianCalloutsAreRegistered_def
      del: lifecycle_code.simps)

lemma running_start:
  assumes "DriverEntry env r guardian_image = (st, s)" and "NT_SUCCESS st"
  shows "s = entry_running env r"
proof (cases "start_ok env")
  case True
  then show ?thesis using entry_success [OF True, of r] assms by simp
next
  case False
  then show ?thesis using entry_failure [OF False, of r] assms by (auto simp: entry_failed_def)
qed

lemma running_inv: "running s \<Longrightarrow> guardian_inv s"
proof (induction rule: running.induct)
  case (start env r st s)
  then show ?case using running_start start_inv by blast
next
  case (step s s')
  then show ?case using step_inv by blast
qed

lemma sample_running: "running (entry_running sample_system None)"
  using running.start [OF entry_success [OF sample_system_starts]] by simp

section \<open>Properties\<close>

text \<open>
  C2: In every state that the driver reaches after a successful DriverEntry by control requests,
  classify calls and the other entry points that are handled one at a time, each to its end
  before the next one starts, both tables hold distinct 16-byte application ids, are within
  their capacity and are counted by their counters, the kill switch mode is one of the
  enumeration, the DNS configuration is observe-only, the coordinator is active exactly in
  hybrid mode with the mode and filter count reported in the driver state, the reported recovery
  generation is the real one, and the classify counter is the sum of the per-action counters.
\<close>

theorem requests_in_turn_keep_the_invariant:
  assumes "running s"
  shows "table_inv ap_AppId 4096 (pt_list (gs_Policies s)) (GuardianAppPolicyActiveCount (gs_Policies s)) \<and>
    table_inv ra_AppId 4096 (rt_list (gs_Routes s)) (GuardianRouteActiveCount (gs_Routes s)) \<and>
    (\<exists>m. GuardianKillSwitchGetMode (gs_KillSwitch s) = ks_mode_code m) \<and>
    dns_inv (gs_Dns s) \<and> hybrid_inv s \<and> generation_inv s \<and> counters_balanced (gs_Telemetry s)"
proof -
  have inv: "guardian_inv s" using running_inv [OF assms] .
  then have "ks_Mode (gs_KillSwitch s) \<in> {0, 1, 2, 3}"
    using word_le_3 by (simp add: guardian_inv_def ks_inv_def)
  then have "\<exists>m. ks_Mode (gs_KillSwitch s) = ks_mode_code m"
    by (auto intro: exI [of _ GuardianKsOff] exI [of _ GuardianKsBlockAll]
        exI [of _ GuardianKsAllowVpnOnly] exI [of _ GuardianKsRestore])
  with inv show ?thesis
    by (simp add: guardian_inv_def policy_inv_def route_inv_def GuardianAppPolicyActiveCount_def
        GuardianRouteActiveCount_def GuardianKillSwitchGetMode_def)
qed

theorem requests_in_turn_keep_the_invariant_witness:
  "running (entry_running sample_system None) \<and> hybrid_inv (entry_running sample_system None)"
  using requests_in_turn_keep_the_invariant [OF sample_running] sample_running by simp

text \<open>
  In a running driver, every control request, with any code, lengths and bytes, that is not
  a sync whose count claims more elements than its system buffer holds is handled to completion
  without an access outside the system buffer, and leaves the driver in a running state again.
\<close>

lemma running_driver_faults_only_in_a_sync:
  assumes "running s" and "wf_request q" and "\<not> sync_overrun q"
  shows "\<exists>c s'. GuardianEvtIoDeviceControl env q s = Inr (c, s') \<and> running s'"
proof (cases "GuardianEvtIoDeviceControl env q s")
  case (Inl f)
  have "wf_driver_state (gs_Driver s)" using running_inv [OF assms(1)] by (simp add: guardian_inv_def)
  then show ?thesis using evt_fault_sync [OF assms(2) _ Inl] assms(3) by simp
next
  case (Inr x)
  then obtain c s' where "GuardianEvtIoDeviceControl env q s = Inr (c, s')" by (cases x) simp
  then show ?thesis using assms(1,2) running.step driver_step.ioctl by blast
qed

lemma running_driver_faults_only_in_a_sync_witness:
  "\<exists>c s'. GuardianEvtIoDeviceControl sample_env (sample_request IOCTL_GUARDIAN_GET_TELEMETRY [] 76)
     (entry_running sample_system None) = Inr (c, s') \<and> running s'"
proof (rule running_driver_faults_only_in_a_sync [OF sample_running sample_request_simps(1)])
  show "\<not> sync_overrun (sample_request IOCTL_GUARDIAN_GET_TELEMETRY [] 76)"
    unfolding sync_overrun_def sample_request_simps guardian_ioctl.enum_of_code by simp
qed

lemma query_keeps_state:
  assumes "ioctl_effect x st s s'" and "0 < output_size x"
  shows "s' = s"
  using assms by (cases rule: ioctl_effect.cases) simp_all

lemma effect_pin:
  assumes "ioctl_effect x st s s'"
  shows "gs_AllowedServicePid s' = gs_AllowedServicePid s"
  using assms
proof (cases rule: ioctl_effect.cases)
  case (set_mode ndis m)
  then show ?thesis
    using outside_hybridD(12) [OF outside_set_mode, of ndis m s] by simp
qed (auto elim: import_cases)

lemma step_pin:
  assumes "driver_step s s'" and "gs_AllowedServicePid s \<noteq> 0"
  shows "gs_AllowedServicePid s' = gs_AllowedServicePid s"
  using assms(1)
proof (cases rule: driver_step.cases)
  case (ioctl q env c)
  have pin: "gs_AllowedServicePid (checked_caller env s) = gs_AllowedServicePid s"
    using assms(2) by (simp add: checked_caller_def verify_pinned_stays)
  from ioctl(1,2) show ?thesis
  proof (cases rule: evt_dispatched)
    case (reject st)
    then show ?thesis using pin by (simp add: complete_request_def)
  next
    case (dispatch x n st k b' s2)
    then show ?thesis using pin effect_pin [OF dispatch(5)] by (simp add: complete_request_def)
  qed
next
  case (classify f v start stop out out')
  then show ?thesis using call_classify_frame [of f v start stop out s] by auto
next
  case (ndis_count n)
  then show ?thesis
    by (simp add: GuardianHybridSetNdisFilterCount_def publish_filter_count_def)
next
  case (poll ndis st)
  then show ?thesis using outside_hybridD(12) [OF outside_poll, of ndis s] by simp
qed simp_all

text \<open>
  Once a service process is pinned as the allowed caller, no sequence of steps of the
  driver with requests handled one at a time, of any length and from any callers, changes the
  pinned process id.
\<close>

lemma pinned_service_never_changes:
  assumes "driver_step\<^sup>*\<^sup>* s s'" and "gs_AllowedServicePid s \<noteq> 0"
  shows "gs_AllowedServicePid s' = gs_AllowedServicePid s"
  using assms by (induction rule: rtranclp_induct) (auto simp: step_pin)

lemma pinned_service_never_changes_witness:
  "gs_AllowedServicePid (GuardianHybridSetNdisFilterCount 3
     ((entry_running sample_system None)\<lparr>gs_AllowedServicePid := 4\<rparr>)) = 4"
  using pinned_service_never_changes [OF r_into_rtranclp [of driver_step, OF driver_step.ndis_count],
      of "(entry_running sample_system None)\<lparr>gs_AllowedServicePid := 4\<rparr>" 3] by simp

lemma reported_filter_count_excludes_wfp:
  assumes "running s"
  shows "dv_FilterCount (gs_Driver s) =
    (if GuardianHybridGetMode s = guardian_mode_code GuardianModeWfp then 0
     else GuardianHybridGetNdisFilterCount s)"
proof -
  have inv: "hybrid_inv s" "gs_FilterCount s = 0"
    using running_inv [OF assms] by (simp_all add: guardian_inv_def)
  then have le: "hy_GuardianMode (gs_Hybrid s) \<le> 2"
    by (simp add: hybrid_inv_def GuardianHybridIsValidMode_def)
  then have "hy_GuardianMode (gs_Hybrid s) \<le> 3" by (rule order_trans) simp
  from word_le_3 [OF this] le have "hy_GuardianMode (gs_Hybrid s) \<in> {0, 1, 2}" by auto
  then show ?thesis using inv
    by (auto simp: hybrid_inv_def GuardianHybridGetMode_def GuardianHybridGetNdisFilterCount_def
        GuardianHybridGetCombinedFilterCount_def GuardianStateManagerFilterCount_def Let_def)
qed

lemma reported_filter_count_excludes_wfp_witness:
  "dv_FilterCount (gs_Driver (entry_running sample_system None)) = 0"
  using reported_filter_count_excludes_wfp [OF sample_running]
    entry_running_fields(11) [of sample_system None]
  by (simp add: GuardianHybridGetMode_def GuardianReadRegistryGuardianMode_def)
end
