(* ===== verification/Ioctl_Replies.thy ===== *)
theory Ioctl_Replies
  imports System
begin

text \<open>
  What the requests return. A reply is a packed structure at the front of the system buffer; here,
  which one each control writes, what is in it, and that the rest of the buffer stays as it was.
\<close>

section \<open>The reply of each control\<close>

text \<open>
  The buffer b begins with the structure that the control promises, with the contents of the state s,
  and r is what follows it; a control without output leaves the buffer to the caller.
\<close>

fun reply_holds :: "GUARDIAN_IOCTL \<Rightarrow> guardian \<Rightarrow> bytes \<Rightarrow> bytes \<Rightarrow> bool" where
  "reply_holds IOCTL_GUARDIAN_GET_DRIVER_STATE s b r \<longleftrightarrow> rd_driver_state b = Some (gs_Driver s, r)"
| "reply_holds IOCTL_GUARDIAN_GET_TELEMETRY s b r \<longleftrightarrow>
     rd_telemetry b = Some (GuardianTelemetryGet (gs_Telemetry s), r)"
| "reply_holds IOCTL_GUARDIAN_EXPORT_STATE s b r \<longleftrightarrow> rd_state_blob b = Some (export_header s, r)"
| "reply_holds IOCTL_GUARDIAN_RECONCILE s b r \<longleftrightarrow>
     rd_reconcile_response b = Some (\<lparr>rr_Version = 1, rr_RemovedOrphans = 0,
       rr_RecoveryGeneration = gs_RecoveryGeneration s, rr_RecoveryStatus = gs_RecoveryStatus s\<rparr>, r)"
| "reply_holds IOCTL_GUARDIAN_GET_PERF_STATS s b r \<longleftrightarrow>
     rd_perf_stats b =
       Some (GuardianPerfStatsGet (gs_Policies s) (gs_Routes s) (gs_Telemetry s), r)"
| "reply_holds IOCTL_GUARDIAN_GET_DNS_STATS s b r \<longleftrightarrow>
     rd_dns_stats b = Some (GuardianDnsLayerGetStats (gs_Dns s), r)"
| "reply_holds _ s b r \<longleftrightarrow> b = r"

lemma reply_holds_pin [simp]: "reply_holds x (s\<lparr>gs_AllowedServicePid := p\<rparr>) b r = reply_holds x s b r"
  by (cases x) (simp_all add: export_header_def)

lemmas reply_defs = bind_fault_Inr reply_Inr dispatch_sync_policies_def dispatch_sync_routes_def
  dispatch_set_kill_switch_def dispatch_reconcile_def dispatch_export_def GuardianStateManagerExport_def
  GuardianRecoveryReconcile_def GuardianStateManagerRecoveryGeneration_def write_out_def write_mem_def
  output_lengths wf_telemetry_def wf_perf_stats_def wf_dns_stats_def wf_reconcile_response_def
  wf_state_blob_def

text \<open>A control without output leaves the buffer alone.\<close>

lemma dispatch_no_output:
  assumes run: "dispatch_ioctl env q ib ob s = Inr (st, k, b', s')"
    and code: "rq_IoControlCode q = ioctl_code x" and "output_size x = 0"
  shows "k = 0 \<and> b' = rq_SystemBuffer q"
proof -
  note run = run [unfolded dispatch_ioctl_def Let_def code guardian_ioctl.enum_of_code option.case]
  show ?thesis
  proof (cases x)
    case IOCTL_GUARDIAN_SET_APP_POLICY
    with run show ?thesis by (auto simp: bind_fault_Inr case_prod_beta)
  next
    case IOCTL_GUARDIAN_SYNC_POLICIES
    with run show ?thesis by (auto simp: bind_fault_Inr dispatch_sync_policies_def)
  next
    case IOCTL_GUARDIAN_SET_ROUTE
    with run show ?thesis by (auto simp: bind_fault_Inr case_prod_beta)
  next
    case IOCTL_GUARDIAN_CLEAR_ROUTE
    with run show ?thesis by (auto simp: bind_fault_Inr case_prod_beta)
  next
    case IOCTL_GUARDIAN_SYNC_ROUTES
    with run show ?thesis by (auto simp: bind_fault_Inr dispatch_sync_routes_def)
  next
    case IOCTL_GUARDIAN_SET_KILL_SWITCH
    with run show ?thesis by (auto simp: bind_fault_Inr case_prod_beta dispatch_set_kill_switch_def Let_def)
  next
    case IOCTL_GUARDIAN_IMPORT_STATE
    with run show ?thesis by (auto simp: bind_fault_Inr)
  next
    case IOCTL_GUARDIAN_DNS_SET_CONFIG
    with run show ?thesis by (auto simp: bind_fault_Inr case_prod_beta)
  next
    case IOCTL_GUARDIAN_SET_GUARDIAN_MODE
    with run show ?thesis by (auto simp: bind_fault_Inr case_prod_beta)
  qed (use assms(3) in \<open>simp_all add: structure_sizes\<close>)
qed

lemma dispatch_replies:
  assumes wf: "wf_request q" and code: "rq_IoControlCode q = ioctl_code x" and valid: "valid_request q n"
    and state: "wf_driver_state (gs_Driver s)"
    and run: "dispatch_ioctl env q (in_ptr q) (out_ptr q) s = Inr (st, k, b', s')" and ok: "NT_SUCCESS st"
  shows "k = output_size x \<and> reply_holds x s b' (drop k (rq_SystemBuffer q))"
proof -
  note run = run [unfolded dispatch_ioctl_def Let_def code guardian_ioctl.enum_of_code option.case]
  show ?thesis
  proof (cases x)
    case IOCTL_GUARDIAN_GET_DRIVER_STATE
    then show ?thesis using run driver_state_layout.rd_enc [OF state] output_lengths(1) [THEN iffD2, OF state]
      by (auto simp: reply_defs out_ptr_def split: if_splits)
  next
    case IOCTL_GUARDIAN_GET_TELEMETRY
    then show ?thesis using run telemetry_layout.rd_enc
      by (auto simp: reply_defs out_ptr_def split: if_splits)
  next
    case IOCTL_GUARDIAN_EXPORT_STATE
    then show ?thesis using run ok state_blob_layout.rd_enc
      by (auto simp: reply_defs out_ptr_def structure_sizes split: if_splits)
  next
    case IOCTL_GUARDIAN_RECONCILE
    then show ?thesis using run ok reconcile_response_layout.rd_enc
      by (auto simp: reply_defs out_ptr_def split: if_splits prod.splits option.splits)
  next
    case IOCTL_GUARDIAN_GET_PERF_STATS
    then show ?thesis using run perf_stats_layout.rd_enc
      by (auto simp: reply_defs out_ptr_def split: if_splits)
  next
    case IOCTL_GUARDIAN_GET_DNS_STATS
    then show ?thesis using run dns_stats_layout.rd_enc
      by (auto simp: reply_defs out_ptr_def split: if_splits)
  qed (use dispatch_no_output [OF assms(5) code] in simp_all)
qed

section \<open>Properties\<close>

text \<open>
  C4: What a successful request returns is typed and complete: the byte count is the size of the
  structure that its control code promises, the front of the system buffer decodes to that
  structure with the contents the driver had when the request came (driver state, telemetry,
  exported header, recovery state, performance counters, DNS counters), and the rest of the
  buffer is as the caller left it; a control without output returns no bytes and leaves the
  whole buffer.
\<close>

theorem replies_hold_their_structures:
  assumes "wf_driver_state (gs_Driver s)" and "wf_request q" and "rq_IoControlCode q = ioctl_code x"
    and "GuardianEvtIoDeviceControl env q s = Inr (c, s')" and "NT_SUCCESS (cp_Status c)"
  shows "cp_Information c = output_size x \<and>
    reply_holds x s (cp_SystemBuffer c) (drop (output_size x) (rq_SystemBuffer q))"
  using assms(2,4)
proof (cases rule: evt_dispatched)
  case (reject st)
  then show ?thesis using assms(5) by (simp add: complete_request_def)
next
  case (dispatch y n st k b' s2)
  have "y = x" using assms(3) dispatch(1) guardian_ioctl.code_inj by metis
  moreover have "wf_driver_state (gs_Driver (checked_caller env s))"
    using assms(1) by (simp add: checked_caller_def)
  moreover have "NT_SUCCESS st" using dispatch(6) assms(5) by (simp add: complete_request_def)
  ultimately show ?thesis
    using dispatch_replies [OF assms(2,3) dispatch(2) _ dispatch(4)] dispatch(6)
    by (auto simp: complete_request_def) (simp_all add: checked_caller_def)
qed

theorem replies_hold_their_structures_witness:
  "\<exists>c s'. GuardianEvtIoDeviceControl sample_env (sample_request IOCTL_GUARDIAN_GET_TELEMETRY [] 100)
      (entry_running sample_system None) = Inr (c, s') \<and> cp_Information c = 76 \<and>
    rd_telemetry (cp_SystemBuffer c) =
      Some (GuardianTelemetryGet (gs_Telemetry (entry_running sample_system None)), replicate 24 0)"
proof -
  let ?s = "entry_running sample_system None" and ?q = "sample_request IOCTL_GUARDIAN_GET_TELEMETRY [] 100"
  have adm: "admitted sample_env ?q ?s"
    by (simp add: admitted_def sample_env_def verify_accepts_iff entry_running_fields)
  have valid: "valid_request ?q sizeof_GUARDIAN_TELEMETRY_V1"
    unfolding valid_request_code [OF sample_request_simps(1,2)]
    by (simp add: structure_sizes count_ok_def GUARDIAN_MAX_IOCTL_BUFFER_def GUARDIAN_MAX_EXPORT_BYTES_def)
  note evt = evt_valid [OF adm sample_request_simps(1,2) valid]
  have "\<exists>c s'. GuardianEvtIoDeviceControl sample_env ?q ?s = Inr (c, s') \<and> cp_Status c = STATUS_SUCCESS"
    unfolding evt dispatch_ioctl_def Let_def sample_request_simps(2) guardian_ioctl.enum_of_code option.case
    by (simp add: out_ptr_def reply_def write_out_def write_mem_def output_lengths structure_sizes
        complete_request_def)
  then obtain c s' where run: "GuardianEvtIoDeviceControl sample_env ?q ?s = Inr (c, s')"
    and ok: "NT_SUCCESS (cp_Status c)" by auto
  show ?thesis
    using replies_hold_their_structures [OF _ sample_request_simps(1,2) run ok] run
      running_inv [OF sample_running] by (simp add: structure_sizes guardian_inv_def)
qed

end
