(* ===== verification/Interleaving.thy ===== *)
theory Interleaving
  imports Prelude
begin

text \<open>
  Interleavings of concurrent calls. A call is a thread whose control state, with the local
  variables, is a value of a type of its own; a step function says what the next atomic access to
  the shared state does, and None that the call has returned. The threads of a configuration take
  turns in any order. Three contracts of step functions with what they give for every interleaving:
  a ledger (each thread still owes what it will add to a counter), an invariant with assertions
  of the threads that the other threads do not disturb, and a bound on the accesses a thread makes.
\<close>

section \<open>Configurations and their steps\<close>

type_synonym ('p, 's) thread_step = "'p \<Rightarrow> 's \<Rightarrow> ('p \<times> 's) option"

inductive par :: "('p, 's) thread_step \<Rightarrow> 'p list \<times> 's \<Rightarrow> 'p list \<times> 's \<Rightarrow> bool"
  for step where
  turn: "i < length ps \<Longrightarrow> step (ps ! i) s = Some (p', s') \<Longrightarrow> par step (ps, s) (ps[i := p'], s')"

inductive_cases par_cases: "par step (ps, s) (ps', s')"

abbreviation pars :: "('p, 's) thread_step \<Rightarrow> 'p list \<times> 's \<Rightarrow> 'p list \<times> 's \<Rightarrow> bool" where
  "pars step \<equiv> (par step)\<^sup>*\<^sup>*"

lemma par_length: "par step c c' \<Longrightarrow> length (fst c') = length (fst c)"
  by (induction rule: par.induct) simp

lemma pars_length: "pars step c c' \<Longrightarrow> length (fst c') = length (fst c)"
  by (induction rule: rtranclp_induct) (auto dest: par_length)

text \<open>A given order of turns; a turn of a thread that has returned or is not there is skipped.\<close>

fun schedule :: "('p, 's) thread_step \<Rightarrow> nat list \<Rightarrow> 'p list \<times> 's \<Rightarrow> 'p list \<times> 's" where
  "schedule step [] c = c"
| "schedule step (i # turns) (ps, s) =
     (if i < length ps then
        (case step (ps ! i) s of
           None \<Rightarrow> schedule step turns (ps, s)
         | Some (p', s') \<Rightarrow> schedule step turns (ps[i := p'], s'))
      else schedule step turns (ps, s))"

lemma schedule_pars: "pars step c (schedule step turns c)"
proof (induction step turns c rule: schedule.induct)
  case (2 step i turns ps s)
  show ?case
  proof (cases "i < length ps \<and> step (ps ! i) s \<noteq> None")
    case True
    then obtain p' s' where "i < length ps" and st: "step (ps ! i) s = Some (p', s')" by auto
    then have "par step (ps, s) (ps[i := p'], s')" by (rule par.turn)
    with 2(2) [OF \<open>i < length ps\<close> st refl] st \<open>i < length ps\<close> show ?thesis
      by (simp add: converse_rtranclp_into_rtranclp)
  next
    case False
    then have "schedule step (i # turns) (ps, s) = schedule step turns (ps, s)"
      by (cases "step (ps ! i) s") auto
    with 2 False show ?thesis by (cases "i < length ps"; cases "step (ps ! i) s") auto
  qed
qed simp

text \<open>One thread running alone, for at most n steps.\<close>

fun solo :: "('p, 's) thread_step \<Rightarrow> nat \<Rightarrow> 'p \<Rightarrow> 's \<Rightarrow> 'p \<times> 's" where
  "solo step 0 p s = (p, s)"
| "solo step (Suc n) p s =
     (case step p s of None \<Rightarrow> (p, s) | Some (p', s') \<Rightarrow> solo step n p' s')"

lemma solo_pars:
  assumes "i < length ps" and "solo step n (ps ! i) s = (p', s')"
  shows "pars step (ps, s) (ps[i := p'], s')"
  using assms
proof (induction n arbitrary: ps s)
  case 0
  then show ?case by auto
next
  case (Suc n)
  show ?case
  proof (cases "step (ps ! i) s")
    case None
    with Suc.prems show ?thesis by auto
  next
    case (Some r)
    then obtain p1 s1 where st: "step (ps ! i) s = Some (p1, s1)" by (cases r) simp
    then have "par step (ps, s) (ps[i := p1], s1)" by (rule par.turn [OF Suc.prems(1)])
    moreover have "pars step (ps[i := p1], s1) ((ps[i := p1])[i := p'], s')"
      using Suc.prems st by (intro Suc.IH) simp_all
    ultimately show ?thesis by (simp add: converse_rtranclp_into_rtranclp)
  qed
qed

lemma solo_trans:
  "solo step m p s = (p1, s1) \<Longrightarrow> solo step n p1 s1 = r \<Longrightarrow> solo step (m + n) p s = r"
proof (induction m arbitrary: p s)
  case (Suc m)
  then show ?case by (cases n; cases "step p s") auto
qed simp

lemma solo_more:
  assumes "solo step m p s = (q, s')" and "step q s' = None" and "m \<le> n"
  shows "solo step n p s = (q, s')"
proof -
  have "solo step (n - m) q s' = (q, s')" using assms(2) by (cases "n - m") simp_all
  from solo_trans [OF assms(1) this] assms(3) show ?thesis by simp
qed

text \<open>A thread of one step function as a thread of another that acts on a part of its state.\<close>

lemma solo_embed:
  assumes "\<And>p t. step' (f p) (g t) = map_option (\<lambda>(p', t'). (f p', g t')) (step p t)"
  shows "solo step' n (f p) (g t) = (case solo step n p t of (p', t') \<Rightarrow> (f p', g t'))"
proof (induction n arbitrary: p t)
  case (Suc n)
  then show ?case by (cases "step p t") (auto simp: assms)
qed simp

section \<open>A thread alone\<close>

text \<open>Where some number of steps leads a thread that runs alone.\<close>

definition leads :: "('p, 's) thread_step \<Rightarrow> 'p \<Rightarrow> 's \<Rightarrow> 'p \<Rightarrow> 's \<Rightarrow> bool" where
  "leads step p s q s' \<longleftrightarrow> (\<exists>n. solo step n p s = (q, s'))"

lemma leads_refl: "leads step p s p s"
  by (auto simp: leads_def intro: exI [of _ 0])

lemma leads_trans: "leads step p s q s' \<Longrightarrow> leads step q s' r s'' \<Longrightarrow> leads step p s r s''"
  by (auto simp: leads_def dest: solo_trans)

lemma leads_step: "step p s = Some (p', s') \<Longrightarrow> leads step p' s' q s'' \<Longrightarrow> leads step p s q s''"
  by (rule leads_trans [of step p s p' s']) (auto simp: leads_def intro!: exI [of _ 1])

lemma solo_part:
  assumes "\<And>p t p' t'. step p t = Some (p', t') \<Longrightarrow> step' (f p) (g t) = Some (f p', g t')"
  shows "solo step n p t = (q, t') \<Longrightarrow> leads step' (f p) (g t) (f q) (g t')"
proof (induction n arbitrary: p t)
  case 0
  then show ?case by (simp add: leads_refl)
next
  case (Suc n)
  show ?case
  proof (cases "step p t")
    case None
    then show ?thesis using Suc.prems by (simp add: leads_refl)
  next
    case (Some r)
    then obtain p1 t1 where st: "step p t = Some (p1, t1)" by (cases r) simp
    have "leads step' (f p1) (g t1) (f q) (g t')" using Suc.prems Suc.IH [of p1 t1] st by simp
    with assms [OF st] show ?thesis by (rule leads_step)
  qed
qed

section \<open>The contract of a ledger\<close>

text \<open>
  A counter in the shared state, and what each thread will still add to it: a step moves the amount
  it adds from the second to the first, so their sum never changes.
\<close>

locale thread_ledger =
  fixes step :: "('p, 's) thread_step" and counter :: "'s \<Rightarrow> 'n::comm_monoid_add" and owed :: "'p \<Rightarrow> 'n"
  assumes step_pays: "step p s = Some (p', s') \<Longrightarrow> counter s' + owed p' = counter s + owed p"
begin

lemma par_balance:
  assumes "par step (ps, s) (ps', s')"
  shows "counter s' + sum_list (map owed ps') = counter s + sum_list (map owed ps)"
proof -
  obtain i p' where turn: "i < length ps" "step (ps ! i) s = Some (p', s')" "ps' = ps[i := p']"
    using assms by (auto elim: par_cases)
  have split: "map owed ps = map owed (take i ps) @ owed (ps ! i) # map owed (drop (Suc i) ps)"
    using id_take_nth_drop [OF turn(1)] by (metis list.simps(9) map_append)
  have split': "map owed ps' = map owed (take i ps) @ owed p' # map owed (drop (Suc i) ps)"
    using turn by (simp add: upd_conv_take_nth_drop)
  show ?thesis unfolding split split' using step_pays [OF turn(2)]
    by (simp add: add.left_commute) (metis add.assoc)
qed

lemma balance:
  "pars step c c' \<Longrightarrow>
     counter (snd c') + sum_list (map owed (fst c')) = counter (snd c) + sum_list (map owed (fst c))"
proof (induction rule: rtranclp_induct)
  case (step c1 c2)
  then show ?case using par_balance [of "fst c1" "snd c1" "fst c2" "snd c2"] by simp
qed simp

text \<open>When every thread has paid, the counter has grown by what the threads owed at the start.\<close>

lemma settled:
  assumes "pars step (ps, s) (ps', s')" and "\<And>p. p \<in> set ps' \<Longrightarrow> owed p = 0"
  shows "counter s' = counter s + sum_list (map owed ps)"
proof -
  have "map owed ps' = map (\<lambda>_. 0) ps'" using assms(2) by simp
  then have "sum_list (map owed ps') = 0" by (simp only: sum_list_0)
  with balance [OF assms(1)] show ?thesis by simp
qed

end

section \<open>The contract of non-interference\<close>

text \<open>
  An invariant of the shared state and an assertion per thread, given its position: a step of a
  thread keeps the invariant, its own assertion, and the assertions of the others.
\<close>

locale thread_invariant =
  fixes step :: "('p, 's) thread_step" and inv :: "'s \<Rightarrow> bool" and asn :: "nat \<Rightarrow> 'p \<Rightarrow> 's \<Rightarrow> bool"
  assumes own_step: "inv s \<Longrightarrow> asn i p s \<Longrightarrow> step p s = Some (p', s') \<Longrightarrow> inv s' \<and> asn i p' s'"
    and undisturbed: "inv s \<Longrightarrow> asn i p s \<Longrightarrow> step p s = Some (p', s') \<Longrightarrow> j \<noteq> i \<Longrightarrow>
      asn j q s \<Longrightarrow> asn j q s'"
begin

definition holds :: "'p list \<times> 's \<Rightarrow> bool" where
  "holds c \<longleftrightarrow> inv (snd c) \<and> (\<forall>i < length (fst c). asn i (fst c ! i) (snd c))"

lemma par_holds:
  assumes "par step c c'" and "holds c"
  shows "holds c'"
  using assms(1)
proof (cases rule: par.cases)
  case (turn i ps s p' s')
  have "inv s" and all: "\<And>j. j < length ps \<Longrightarrow> asn j (ps ! j) s"
    using assms(2) turn(1) by (simp_all add: holds_def)
  have "asn j (ps[i := p'] ! j) s'" if "j < length ps" for j
    using own_step [OF \<open>inv s\<close> all [OF turn(3)] turn(4)]
      undisturbed [OF \<open>inv s\<close> all [OF turn(3)] turn(4), of j] all [OF that] turn(3)
    by (cases "j = i") simp_all
  moreover have "inv s'" using own_step [OF \<open>inv s\<close> all [OF turn(3)] turn(4)] by simp
  ultimately show ?thesis using turn(2) by (simp add: holds_def)
qed

lemma pars_holds: "pars step c c' \<Longrightarrow> holds c \<Longrightarrow> holds c'"
  by (induction rule: rtranclp_induct) (auto intro: par_holds)

lemma always:
  assumes "pars step (ps, s) (ps', s')" and "inv s" and "\<And>i. i < length ps \<Longrightarrow> asn i (ps ! i) s"
  shows "inv s' \<and> (\<forall>i < length ps'. asn i (ps' ! i) s')"
  using pars_holds [OF assms(1)] assms(2,3) by (simp add: holds_def)

end

section \<open>The contract of termination\<close>

text \<open>
  A bound on the accesses a thread still makes: every step uses one up, and the thread has
  returned exactly when none is left.
\<close>

locale thread_bound =
  fixes step :: "('p, 's) thread_step" and left :: "'p \<Rightarrow> nat"
  assumes step_uses: "step p s = Some (p', s') \<Longrightarrow> left p' < left p"
    and returned_iff: "step p s = None \<longleftrightarrow> left p = 0"
begin

definition remaining :: "'p list \<Rightarrow> nat" where
  "remaining ps = sum_list (map left ps)"

lemma par_remaining: "par step (ps, s) (ps', s') \<Longrightarrow> remaining ps' < remaining ps"
proof (erule par_cases)
  fix i p'
  assume "ps' = ps[i := p']" and i: "i < length ps" and "step (ps ! i) s = Some (p', s')"
  then have "left p' < left (ps ! i)" using step_uses by simp
  moreover have "remaining ps' + left (ps ! i) = remaining ps + left p'"
    using i \<open>ps' = ps[i := p']\<close> member_le_sum_list [of "left (ps ! i)" "map left ps"]
    by (simp add: remaining_def map_update sum_list_update)
  ultimately show ?thesis by simp
qed

text \<open>No interleaving makes more steps than the threads had left.\<close>

lemma interleaving_bounded:
  "(par step ^^ n) (ps, s) (ps', s') \<Longrightarrow> n + remaining ps' \<le> remaining ps"
proof (induction n arbitrary: ps' s')
  case (Suc n)
  then obtain ps1 s1 where "(par step ^^ n) (ps, s) (ps1, s1)" and "par step (ps1, s1) (ps', s')"
    by auto
  then show ?case using Suc.IH par_remaining by fastforce
qed simp

text \<open>A configuration in which no thread can make a step is one in which all have returned.\<close>

lemma no_deadlock: "(\<nexists>c'. par step (ps, s) c') \<longleftrightarrow> remaining ps = 0"
proof
  assume stuck: "\<nexists>c'. par step (ps, s) c'"
  have "step p s = None" if p: "p \<in> set ps" for p
  proof (rule ccontr)
    assume "step p s \<noteq> None"
    moreover obtain i where "i < length ps" and "ps ! i = p" using p by (auto simp: in_set_conv_nth)
    ultimately show False using stuck par.turn [of i ps step s] by auto
  qed
  then show "remaining ps = 0" by (auto simp: remaining_def returned_iff)
next
  assume "remaining ps = 0"
  then show "\<nexists>c'. par step (ps, s) c'" using par_remaining by fastforce
qed

text \<open>From every configuration there is an end, and every longest interleaving is one.\<close>

lemma all_return: "\<exists>ps' s'. pars step (ps, s) (ps', s') \<and> remaining ps' = 0"
proof (induction "remaining ps" arbitrary: ps s rule: less_induct)
  case less
  show ?case
  proof (cases "remaining ps = 0")
    case False
    then obtain ps1 s1 where st: "par step (ps, s) (ps1, s1)" using no_deadlock by (metis surj_pair)
    then show ?thesis using less [OF par_remaining] by (meson converse_rtranclp_into_rtranclp)
  qed auto
qed

text \<open>A thread that is left alone returns, and its bound is enough.\<close>

lemma solo_returns: "step (fst (solo step (left p) p s)) (snd (solo step (left p) p s)) = None"
proof -
  have "n = left p \<Longrightarrow> left (fst (solo step n p s)) = 0" for n
  proof (induction n arbitrary: p s rule: less_induct)
    case (less n)
    show ?case
    proof (cases "step p s")
      case None
      then show ?thesis using less.prems returned_iff by (cases n) auto
    next
      case (Some r)
      then obtain p1 s1 where st: "step p s = Some (p1, s1)" by (cases r) simp
      then have lt: "left p1 < n" using step_uses less.prems by blast
      obtain q s2 where q: "solo step (left p1) p1 s1 = (q, s2)" by fastforce
      then have "left q = 0" using less.IH [OF lt refl, of s1] by simp
      then have "step q s2 = None" by (simp add: returned_iff)
      then have "solo step (n - 1) p1 s1 = (q, s2)" using solo_more [OF q] lt by simp
      then show ?thesis using st lt \<open>left q = 0\<close> by (cases n) simp_all
    qed
  qed
  then show ?thesis by (simp add: returned_iff)
qed

lemma leads_solo:
  assumes "leads step p s q s'" and "left q = 0"
  shows "solo step (left p) p s = (q, s')"
proof -
  obtain n where n: "solo step n p s = (q, s')" using assms(1) by (auto simp: leads_def)
  have stop: "step q s' = None" using assms(2) by (simp add: returned_iff)
  obtain q2 s2 where q2: "solo step (left p) p s = (q2, s2)" by fastforce
  then have "step q2 s2 = None" using solo_returns [of p s] by simp
  then show ?thesis using n q2 stop solo_more [OF n stop, of "left p"] solo_more [OF q2, of n]
    by (cases "n \<le> left p") simp_all
qed

end

end
