(* ===== verification/Spin_Lock.thy ===== *)
theory Spin_Lock
  imports Interleaving
begin

text \<open>
  Spin locks. The threads share a lock, a flag that says whether it is held, and the data that it
  protects. Between taking the lock and releasing it a thread makes as many accesses to the data as
  it likes; the contract spin\_section is what makes all of them one atomic step: the data is written
  under the lock, or by a thread that finds the lock free, and a critical section ends with what the
  atomic step does to the data that the section started from.
\<close>

text \<open>Taking the lock. A thread that finds it held spins: it has no step.\<close>

definition acquire :: "'p \<Rightarrow> bool \<times> 't \<Rightarrow> ('p \<times> bool \<times> 't) option" where
  "acquire p s = (case s of (held, t) \<Rightarrow> if held then None else Some (p, True, t))"

section \<open>The simulation relation\<close>

text \<open>
  As long as a thread is inside its critical section, it has done nothing yet for the atomic threads:
  there it is still the thread \<open>p\<close> that entered, and their data is the data \<open>d\<close> at that moment.
  The predicate \<open>mid p d q t\<close> says that the section can lead from there to the control state q and the
  data t.
\<close>

inductive section_sim ::
  "('p \<Rightarrow> 'q) \<Rightarrow> ('p \<Rightarrow> bool) \<Rightarrow> ('p \<Rightarrow> bool) \<Rightarrow> ('p \<Rightarrow> 't \<Rightarrow> 'p \<Rightarrow> 't \<Rightarrow> bool) \<Rightarrow>
     'p list \<times> bool \<times> 't \<Rightarrow> 'q list \<times> 't \<Rightarrow> bool"
  for view inside ok mid where
  free: "list_all (\<lambda>p. ok p \<and> \<not> inside p) ps \<Longrightarrow>
    section_sim view inside ok mid (ps, False, t) (map view ps, t)"
| held: "i < length ps \<Longrightarrow> inside (ps ! i) \<Longrightarrow> mid p d (ps ! i) t \<Longrightarrow>
    list_all (\<lambda>p. ok p \<and> \<not> inside p) (ps[i := p]) \<Longrightarrow>
    section_sim view inside ok mid (ps, True, t) (map view (ps[i := p]), d)"

lemma list_all_update: "list_all P xs \<Longrightarrow> P x \<Longrightarrow> list_all P (xs[i := x])"
  by (auto simp: list_all_iff dest!: subsetD [OF set_update_subset_insert])

lemma list_all_at: "list_all P (xs[i := x]) \<Longrightarrow> i < length xs \<Longrightarrow> P x"
  by (auto simp: list_all_length dest!: spec [of _ i])

lemma list_all_other: "list_all P (xs[i := x]) \<Longrightarrow> j < length xs \<Longrightarrow> j \<noteq> i \<Longrightarrow> P (xs ! j)"
  by (auto simp: list_all_length dest!: spec [of _ j])

section \<open>The contract of a critical section\<close>

locale spin_section =
  fixes step :: "('p, bool \<times> 't) thread_step" and abs_step :: "('q, 't) thread_step"
    and view :: "'p \<Rightarrow> 'q" and inside ok :: "'p \<Rightarrow> bool" and mid :: "'p \<Rightarrow> 't \<Rightarrow> 'p \<Rightarrow> 't \<Rightarrow> bool"
  assumes outside: "ok p \<Longrightarrow> \<not> inside p \<Longrightarrow> step p (h, t) = Some (p', h', t') \<Longrightarrow> \<not> inside p' \<Longrightarrow>
      h' = h \<and> ok p' \<and>
      (view p' = view p \<and> t' = t \<or> \<not> h \<and> abs_step (view p) t = Some (view p', t') \<or>
       t' = t \<and> (\<forall>d. abs_step (view p) d = Some (view p', d)))"
    and enter: "ok p \<Longrightarrow> \<not> inside p \<Longrightarrow> step p (h, t) = Some (p', h', t') \<Longrightarrow> inside p' \<Longrightarrow>
      \<not> h \<and> h' \<and> mid p t p' t'"
    and keep: "ok p \<Longrightarrow> \<not> inside p \<Longrightarrow> inside q \<Longrightarrow> mid p d q t \<Longrightarrow>
      step q (True, t) = Some (q', h', t') \<Longrightarrow> inside q' \<Longrightarrow> h' \<and> mid p d q' t'"
    and leave: "ok p \<Longrightarrow> \<not> inside p \<Longrightarrow> inside q \<Longrightarrow> mid p d q t \<Longrightarrow>
      step q (True, t) = Some (q', h', t') \<Longrightarrow> \<not> inside q' \<Longrightarrow>
      \<not> h' \<and> ok q' \<and> abs_step (view p) d = Some (view q', t')"
begin

abbreviation sim :: "'p list \<times> bool \<times> 't \<Rightarrow> 'q list \<times> 't \<Rightarrow> bool" where
  "sim \<equiv> section_sim view inside ok mid"

lemma abs_turn:
  "i < length ps \<Longrightarrow> abs_step (view p) d = Some (view q, d') \<Longrightarrow>
     par abs_step (map view (ps[i := p]), d) (map view (ps[i := q]), d')"
  using par.turn [of i "map view (ps[i := p])" abs_step d "view q" d'] by (simp add: map_update)

text \<open>A turn of a thread while none is inside.\<close>

lemma free_step:
  assumes all: "list_all (\<lambda>p. ok p \<and> \<not> inside p) ps" and i: "i < length ps"
    and st: "step (ps ! i) (False, t) = Some (p', h', t')"
  shows "\<exists>a'. pars abs_step (map view ps, t) a' \<and> sim (ps[i := p'], h', t') a'"
proof -
  have p: "ok (ps ! i)" "\<not> inside (ps ! i)" using all i by (simp_all add: list_all_length)
  have same: "ps[i := ps ! i] = ps" by simp
  show ?thesis
  proof (cases "inside p'")
    case True
    have "sim (ps[i := p'], True, t') (map view ((ps[i := p'])[i := ps ! i]), t)"
      using enter [OF p st True] i all True by (intro held) simp_all
    then show ?thesis using enter [OF p st True] by auto
  next
    case False
    note out = outside [OF p st False]
    have "list_all (\<lambda>p. ok p \<and> \<not> inside p) (ps[i := p'])"
      using all out False by (intro list_all_update) simp_all
    then have sim: "sim (ps[i := p'], h', t') (map view (ps[i := p']), t')"
      using out by (simp add: free)
    consider "view p' = view (ps ! i)" "t' = t" | "abs_step (view (ps ! i)) t = Some (view p', t')"
      using out by auto
    then show ?thesis
    proof cases
      case 1
      then have "map view (ps[i := p']) = map view ps"
        using i by (metis list_update_id map_update nth_map)
      then show ?thesis using sim 1 by auto
    next
      case 2
      from abs_turn [OF i this] show ?thesis using sim by (auto simp: same)
    qed
  qed
qed

text \<open>A turn while the thread at position i is inside: its own, or that of another thread.\<close>

lemma held_step:
  assumes i: "i < length ps" and ins: "inside (ps ! i)" and mid: "mid p d (ps ! i) t"
    and all: "list_all (\<lambda>p. ok p \<and> \<not> inside p) (ps[i := p])"
    and j: "j < length ps" and st: "step (ps ! j) (True, t) = Some (p', h', t')"
  shows "\<exists>a'. pars abs_step (map view (ps[i := p]), d) a' \<and> sim (ps[j := p'], h', t') a'"
proof (cases "j = i")
  case True
  have p: "ok p" "\<not> inside p" using list_all_at [OF all i] by simp_all
  note st' = st [unfolded True]
  show ?thesis
  proof (cases "inside p'")
    case inside: True
    have "sim (ps[i := p'], True, t') (map view ((ps[i := p'])[i := p]), d)"
      using keep [OF p ins mid st' inside] i all inside by (intro held) simp_all
    then show ?thesis using keep [OF p ins mid st' inside] True by auto
  next
    case False
    note out = leave [OF p ins mid st' False]
    have "list_all (\<lambda>p. ok p \<and> \<not> inside p) (ps[i := p'])"
      using list_all_update [OF all, of p' i] out False by simp
    then have "sim (ps[i := p'], h', t') (map view (ps[i := p']), t')"
      using out by (simp add: free)
    then show ?thesis using abs_turn [OF i, of p d p' t'] out True by blast
  qed
next
  case False
  have p: "ok (ps ! j)" "\<not> inside (ps ! j)" using list_all_other [OF all j False] by simp_all
  have "\<not> inside p'" using enter [OF p st] by blast
  note out = outside [OF p st this]
  let ?ps = "ps[j := p']"
  have "list_all (\<lambda>p. ok p \<and> \<not> inside p) ((ps[i := p])[j := p'])"
    using list_all_update [OF all, of p' j] out \<open>\<not> inside p'\<close> by simp
  then have sim: "sim (?ps, True, t) (map view (?ps[i := p]), d)"
    using i ins mid False by (intro held) (simp_all add: list_update_swap)
  have eq: "(ps[i := p])[j := ps ! j] = ps[i := p]"
    using list_update_id [of "ps[i := p]" j] False by simp
  consider "view p' = view (ps ! j)" | "abs_step (view (ps ! j)) d = Some (view p', d)"
    using out by auto
  then show ?thesis
  proof cases
    case 1
    then have "map view (?ps[i := p]) = map view (ps[i := p])"
      using j False by (metis eq list_update_swap map_update)
    then show ?thesis using sim out by auto
  next
    case 2
    have "par abs_step (map view ((ps[i := p])[j := ps ! j]), d) (map view ((ps[i := p])[j := p']), d)"
      using j 2 by (intro abs_turn) simp_all
    then show ?thesis using sim out False by (auto simp: eq list_update_swap)
  qed
qed

lemma sections_are_atomic:
  "pars step c c' \<Longrightarrow> sim c a \<Longrightarrow> \<exists>a'. pars abs_step a a' \<and> sim c' a'"
proof (induction rule: rtranclp_induct)
  case (step c1 c2)
  then obtain a1 where a1: "pars abs_step a a1" "sim c1 a1" by blast
  from step(2) obtain i ps s p' s' where turn: "c1 = (ps, s)" "c2 = (ps[i := p'], s')"
    "i < length ps" "step (ps ! i) s = Some (p', s')" by (auto elim: par.cases)
  obtain h t h' t' where s: "s = (h, t)" "s' = (h', t')" by (metis surj_pair)
  have "\<exists>a'. pars abs_step a1 a' \<and> sim (ps[i := p'], h', t') a'"
    using a1(2) unfolding turn(1) s
  proof (cases rule: section_sim.cases)
    case free
    then show ?thesis using free_step [of ps i t p' h' t'] turn(3,4) s by simp
  next
    case (held k p d)
    then show ?thesis using held_step [of k ps p d t i p' h' t'] turn(3,4) s by simp
  qed
  then have "\<exists>a'. pars abs_step a1 a' \<and> sim c2 a'" unfolding turn(2) s .
  then show ?case using a1(1) by (meson rtranclp_trans)
qed blast

lemma started: "list_all (\<lambda>p. ok p \<and> \<not> inside p) ps \<Longrightarrow> sim (ps, False, t) (map view ps, t)"
  by (rule free)

text \<open>At most one thread is inside.\<close>

lemma exclusive:
  assumes "sim (ps, h, t) a" and "i < length ps" and "inside (ps ! i)"
  shows "h \<and> (\<forall>j < length ps. inside (ps ! j) \<longrightarrow> j = i)"
  using assms(1)
proof (cases rule: section_sim.cases)
  case (held k p d)
  then show ?thesis using assms(2,3) list_all_other [of _ ps k p] by blast
qed (use assms(2,3) in \<open>auto simp: list_all_length\<close>)

text \<open>When none is inside, the data is the one of the atomic threads.\<close>

lemma quiescent:
  assumes "sim (ps, h, t) a" and "list_all (\<lambda>p. \<not> inside p) ps"
  shows "\<not> h \<and> a = (map view ps, t)"
  using assms(1) by (cases rule: section_sim.cases) (use assms(2) in \<open>auto simp: list_all_length\<close>)

end

end
