(* ===== verification/Concurrent_Tables.thy ===== *)
theory Concurrent_Tables
  imports App_Policy Route_Assignment Interleaving
begin

text \<open>
  The tables of policy/app_policy.c and route/route_assignment.c under concurrency. Control requests
  are handled in parallel and classify calls come at any time. What one acquisition of the spin
  lock covers is one step: a set, a removal, a lookup, the emptying of the list. A sync is not one
  step: it empties the table, initialises it again without the lock, in two writes, and then sets
  one element after the other. The initialisation of the lock itself is not represented, so the
  interleavings here are those in which no thread holds the lock at that moment.

  The two files have the same text up to names, so the threads are defined once over a record of
  the operations; run alone, a sync is the function of App\_Policy or of Route\_Assignment.
\<close>

section \<open>The calls as threads\<close>

record ('e, 't, 'v, 'r) table_ops =
  op_Limit :: u32
  op_Version :: u32
  op_Shutdown :: "'t \<Rightarrow> 't"
  op_InitList :: "'t \<Rightarrow> 't"
  op_InitCount :: "'t \<Rightarrow> 't"
  op_Set :: "bool \<Rightarrow> 'e option \<Rightarrow> 't \<Rightarrow> ntstatus \<times> 't"
  op_Remove :: "bytes \<Rightarrow> 't \<Rightarrow> ntstatus \<times> 't"
  op_Lookup :: "'v \<Rightarrow> 't \<Rightarrow> 'r"

datatype ('e, 'v, 'r) table_call =
  SyncEntry "nat \<Rightarrow> bool" "(nat \<Rightarrow> 'e cell) option" u32
| SyncInitList "nat \<Rightarrow> bool" "nat \<Rightarrow> 'e cell" nat
| SyncInitCount "nat \<Rightarrow> bool" "nat \<Rightarrow> 'e cell" nat
| SyncLoop "nat \<Rightarrow> bool" "nat \<Rightarrow> 'e cell" nat nat
| SetEntry bool "'e option"
| RemoveEntry bytes
| LookupEntry 'v
| Returned ntstatus
| LookedUp 'v 'r
| Faulted

text \<open>
  An element that the memory ends in: the version is compared when it lies inside, then the
  allocation decides, then the rest is read. The checks before the lock and the allocation touch
  nothing shared, so they are part of the step that holds the lock.
\<close>

definition truncated_element :: "u32 \<Rightarrow> bool \<Rightarrow> u32 option \<Rightarrow> fault + ntstatus" where
  "truncated_element current alloc version =
     (case version of
        None \<Rightarrow> Inl OutOfBounds
      | Some w \<Rightarrow>
          if w \<noteq> current then Inr STATUS_INVALID_PARAMETER
          else if \<not> alloc then Inr STATUS_INSUFFICIENT_RESOURCES
          else Inl OutOfBounds)"

definition sync_iteration ::
  "('e, 't, 'v, 'r) table_ops \<Rightarrow> (nat \<Rightarrow> bool) \<Rightarrow> (nat \<Rightarrow> 'e cell) \<Rightarrow> nat \<Rightarrow> nat \<Rightarrow> 't \<Rightarrow>
     ('e, 'v, 'r) table_call \<times> 't" where
  "sync_iteration ops alloc rd i n t =
     (case rd i of
        Truncated v \<Rightarrow>
          (case truncated_element (op_Version ops) (alloc i) v of
             Inl _ \<Rightarrow> (Faulted, t) | Inr status \<Rightarrow> (Returned status, t))
      | Readable e \<Rightarrow>
          (case op_Set ops (alloc i) (Some e) t of (status, t') \<Rightarrow>
             (if NT_SUCCESS status then SyncLoop alloc rd (Suc i) n else Returned status, t')))"

fun table_step :: "('e, 't, 'v, 'r) table_ops \<Rightarrow> (('e, 'v, 'r) table_call, 't) thread_step" where
  "table_step ops (SyncEntry alloc elements count) t =
     Some (case elements of
             None \<Rightarrow> (Returned STATUS_INVALID_PARAMETER, t)
           | Some rd \<Rightarrow>
               if op_Limit ops < count then (Returned STATUS_INVALID_PARAMETER, t)
               else (SyncInitList alloc rd (unat count), op_Shutdown ops t))"
| "table_step ops (SyncInitList alloc rd n) t = Some (SyncInitCount alloc rd n, op_InitList ops t)"
| "table_step ops (SyncInitCount alloc rd n) t = Some (SyncLoop alloc rd 0 n, op_InitCount ops t)"
| "table_step ops (SyncLoop alloc rd i 0) t = Some (Returned STATUS_SUCCESS, t)"
| "table_step ops (SyncLoop alloc rd i (Suc n)) t = Some (sync_iteration ops alloc rd i n t)"
| "table_step ops (SetEntry alloc e) t =
     (case op_Set ops alloc e t of (status, t') \<Rightarrow> Some (Returned status, t'))"
| "table_step ops (RemoveEntry appId) t =
     (case op_Remove ops appId t of (status, t') \<Rightarrow> Some (Returned status, t'))"
| "table_step ops (LookupEntry v) t = Some (LookedUp v (op_Lookup ops v t), t)"
| "table_step ops (Returned status) t = None"
| "table_step ops (LookedUp v r) t = None"
| "table_step ops Faulted t = None"

definition policy_ops ::
  "(GUARDIAN_APP_POLICY_V1, policy_table, FWPS_INCOMING_VALUES0 option,
    ntstatus \<times> GUARDIAN_APP_POLICY_V1 \<times> bool) table_ops" where
  "policy_ops =
     \<lparr>op_Limit = GUARDIAN_MAX_SYNC_POLICIES, op_Version = GUARDIAN_APP_POLICY_VERSION,
      op_Shutdown = GuardianAppPolicyShutdown,
      op_InitList = (\<lambda>t. t\<lparr>pt_list := []\<rparr>), op_InitCount = (\<lambda>t. t\<lparr>pt_count := 0\<rparr>),
      op_Set = GuardianAppPolicySet, op_Remove = GuardianAppPolicyRemove,
      op_Lookup = GuardianAppPolicyLookup\<rparr>"

definition route_ops ::
  "(GUARDIAN_ROUTE_ASSIGNMENT_V1, route_table, bytes,
    ntstatus \<times> GUARDIAN_ROUTE_ASSIGNMENT_V1 \<times> bool) table_ops" where
  "route_ops =
     \<lparr>op_Limit = GUARDIAN_MAX_SYNC_ROUTES, op_Version = GUARDIAN_ROUTE_ASSIGNMENT_VERSION,
      op_Shutdown = GuardianRouteShutdown,
      op_InitList = (\<lambda>t. t\<lparr>rt_list := []\<rparr>), op_InitCount = (\<lambda>t. t\<lparr>rt_count := 0\<rparr>),
      op_Set = GuardianRouteSet, op_Remove = GuardianRouteClear,
      op_Lookup = GuardianRouteLookup\<rparr>"

section \<open>Every call returns\<close>

fun accesses_left :: "('e, 'v, 'r) table_call \<Rightarrow> nat" where
  "accesses_left (SyncEntry alloc es count) = unat count + 4"
| "accesses_left (SyncInitList alloc rd n) = n + 3"
| "accesses_left (SyncInitCount alloc rd n) = n + 2"
| "accesses_left (SyncLoop alloc rd i n) = n + 1"
| "accesses_left (SetEntry alloc e) = 1"
| "accesses_left (RemoveEntry appId) = 1"
| "accesses_left (LookupEntry v) = 1"
| "accesses_left (Returned status) = 0"
| "accesses_left (LookedUp v r) = 0"
| "accesses_left Faulted = 0"

lemma iteration_left: "sync_iteration ops alloc rd i n t = (p', t') \<Longrightarrow> accesses_left p' \<le> n + 1"
  by (auto simp: sync_iteration_def split: cell.splits sum.splits prod.splits if_splits)

interpretation table_bound: thread_bound "table_step ops" accesses_left for ops
proof
  show "accesses_left p' < accesses_left p" if "table_step ops p s = Some (p', s')" for p s p' s'
    using that
  proof (cases "(ops, p, s)" rule: table_step.cases)
    case (5 ops alloc rd i n t)
    then show ?thesis using that iteration_left [of ops alloc rd i n t p' s'] by auto
  qed (auto split: option.splits if_splits prod.splits)
  show "table_step ops p s = None \<longleftrightarrow> accesses_left p = 0" for p s
    by (cases "(ops, p, s)" rule: table_step.cases) (auto split: prod.splits)
qed

section \<open>The contract of a table whose sync is a thread\<close>

locale concurrent_table = app_table_sync key wf inv lookup empty set_entry remove loop
  for key :: "'e \<Rightarrow> bytes" and wf and inv :: "'t \<Rightarrow> bool" and lookup and empty
    and set_entry and remove and loop +
  fixes ops :: "('e, 't, 'v, 'r) table_ops"
    and sync :: "(nat \<Rightarrow> bool) \<Rightarrow> (nat \<Rightarrow> 'e cell) option \<Rightarrow> u32 \<Rightarrow> 't \<Rightarrow> fault + (ntstatus \<times> 't)"
  assumes set_op: "op_Set ops = set_entry"
    and shutdown_empties: "op_Shutdown ops t = empty"
    and init_list_empty: "op_InitList ops empty = empty"
    and init_count_empty: "op_InitCount ops empty = empty"
    and loop_truncated_element: "rd i = Truncated v \<Longrightarrow>
      loop alloc rd i (Suc n) t =
        (case truncated_element (op_Version ops) (alloc i) v of
           Inl f \<Rightarrow> Inl f | Inr status \<Rightarrow> Inr (status, t))"
    and sync_none: "sync alloc None count t = Inr (STATUS_INVALID_PARAMETER, t)"
    and sync_some: "sync alloc (Some rd) count t =
      (if op_Limit ops < count then Inr (STATUS_INVALID_PARAMETER, t)
       else loop alloc rd 0 (unat count) empty)"
begin

text \<open>What an iteration of the thread does is what the loop of the function does.\<close>

lemma iteration_cases:
  assumes "sync_iteration ops alloc rd i n t = (p', t')"
  obtains (go) "p' = SyncLoop alloc rd (Suc i) n" and "loop alloc rd i 1 t = Inr (STATUS_SUCCESS, t')"
      and "loop alloc rd i (Suc n) t = loop alloc rd (Suc i) n t'"
  | (stop) st where "p' = Returned st" and "t' = t" and "loop alloc rd i (Suc n) t = Inr (st, t)"
  | (fault) "p' = Faulted" and "t' = t" and "loop alloc rd i (Suc n) t = Inl OutOfBounds"
proof (cases "rd i")
  case (Truncated v)
  have fault: "f = OutOfBounds" for f by (cases f) simp
  show thesis
    using assms loop_truncated_element [of rd i v alloc n t, OF Truncated] Truncated that(2,3) fault
    by (auto simp: sync_iteration_def split: sum.splits)
next
  case (Readable e)
  obtain s1 t1 where st: "set_entry (alloc i) (Some e) t = (s1, t1)" by fastforce
  note step = loop_step [of rd i e alloc, OF Readable st]
  show thesis
  proof (cases "NT_SUCCESS s1")
    case True
    then show thesis using assms Readable st step [of 0] step [of n] that(1)
      by (simp add: sync_iteration_def set_op loop_done)
  next
    case False
    then have "t1 = t" by (rule set_failure [OF st])
    then show thesis using assms Readable st step [of n] False that(2)
      by (auto simp: sync_iteration_def set_op)
  qed
qed

section \<open>A sync and its readers\<close>

text \<open>The tables a reader may see: the one before, and those after a prefix of the array.\<close>

definition seen :: "(nat \<Rightarrow> bool) \<Rightarrow> (nat \<Rightarrow> 'e cell) \<Rightarrow> u32 \<Rightarrow> 't \<Rightarrow> 't \<Rightarrow> bool" where
  "seen alloc rd count t0 u \<longleftrightarrow>
     u = t0 \<or> (\<exists>m \<le> unat count. loop alloc rd 0 m empty = Inr (STATUS_SUCCESS, u))"

fun sync_asn ::
  "(nat \<Rightarrow> bool) \<Rightarrow> (nat \<Rightarrow> 'e cell) \<Rightarrow> u32 \<Rightarrow> 't \<Rightarrow> ('e, 'v, 'r) table_call \<Rightarrow> 't \<Rightarrow> bool" where
  "sync_asn alloc rd count t0 (SyncEntry a es c) t \<longleftrightarrow>
     a = alloc \<and> es = Some rd \<and> c = count \<and> t = t0"
| "sync_asn alloc rd count t0 (SyncInitList a es n) t \<longleftrightarrow>
     a = alloc \<and> es = rd \<and> n = unat count \<and> t = empty \<and> \<not> op_Limit ops < count"
| "sync_asn alloc rd count t0 (SyncInitCount a es n) t \<longleftrightarrow>
     a = alloc \<and> es = rd \<and> n = unat count \<and> t = empty \<and> \<not> op_Limit ops < count"
| "sync_asn alloc rd count t0 (SyncLoop a es i n) t \<longleftrightarrow>
     a = alloc \<and> es = rd \<and> i + n = unat count \<and> \<not> op_Limit ops < count \<and>
     loop alloc rd 0 i empty = Inr (STATUS_SUCCESS, t)"
| "sync_asn alloc rd count t0 (Returned st) t \<longleftrightarrow> sync alloc (Some rd) count t0 = Inr (st, t)"
| "sync_asn alloc rd count t0 Faulted t \<longleftrightarrow> sync alloc (Some rd) count t0 = Inl OutOfBounds"
| "sync_asn alloc rd count t0 _ t \<longleftrightarrow> False"

fun reader_asn ::
  "(nat \<Rightarrow> bool) \<Rightarrow> (nat \<Rightarrow> 'e cell) \<Rightarrow> u32 \<Rightarrow> 't \<Rightarrow> 'v \<Rightarrow> ('e, 'v, 'r) table_call \<Rightarrow> bool" where
  "reader_asn alloc rd count t0 v (LookupEntry w) \<longleftrightarrow> w = v"
| "reader_asn alloc rd count t0 v (LookedUp w r) \<longleftrightarrow>
     w = v \<and> (\<exists>u. seen alloc rd count t0 u \<and> r = op_Lookup ops v u)"
| "reader_asn alloc rd count t0 v _ \<longleftrightarrow> False"

definition asn ::
  "(nat \<Rightarrow> bool) \<Rightarrow> (nat \<Rightarrow> 'e cell) \<Rightarrow> u32 \<Rightarrow> 't \<Rightarrow> 'v list \<Rightarrow> nat \<Rightarrow> ('e, 'v, 'r) table_call \<Rightarrow> 't \<Rightarrow> bool"
  where
  "asn alloc rd count t0 vs i p t \<longleftrightarrow>
     (if i = 0 then sync_asn alloc rd count t0 p t else reader_asn alloc rd count t0 (vs ! (i - 1)) p)"

lemma seen_empty: "seen alloc rd count t0 empty"
  unfolding seen_def by (intro disjI2 exI [of _ 0]) (simp add: loop_done)

lemma sync_own_step:
  assumes "seen alloc rd count t0 t" and "sync_asn alloc rd count t0 p t"
    and "table_step ops p t = Some (p', t')"
  shows "seen alloc rd count t0 t' \<and> sync_asn alloc rd count t0 p' t'"
proof (cases p)
  case (SyncLoop a es i k)
  with assms(2) have eq: "a = alloc" "es = rd" "i + k = unat count" "\<not> op_Limit ops < count"
    and prefix: "loop alloc rd 0 i empty = Inr (STATUS_SUCCESS, t)" by simp_all
  have rest: "sync alloc (Some rd) count t0 = loop alloc rd i k t"
    using loop_append [OF prefix, of k] eq by (simp add: sync_some)
  show ?thesis
  proof (cases k)
    case 0
    with assms SyncLoop rest show ?thesis by (auto simp: loop_done)
  next
    case (Suc n)
    with assms(3) SyncLoop eq have "sync_iteration ops alloc rd i n t = (p', t')" by simp
    then show ?thesis
    proof (cases rule: iteration_cases)
      case go
      have "loop alloc rd 0 (i + 1) empty = Inr (STATUS_SUCCESS, t')"
        using loop_append [OF prefix, of 1] go(2) by simp
      moreover have "Suc i \<le> unat count" using eq Suc by simp
      ultimately show ?thesis using go(1) eq Suc by (auto simp: seen_def)
    qed (use assms(1) rest Suc in simp_all)
  qed
next
  case (SyncEntry a es c)
  show ?thesis
  proof (cases "op_Limit ops < count")
    case True
    then show ?thesis using assms SyncEntry by (auto simp: sync_some)
  next
    case False
    then have "t' = empty" and "p' = SyncInitList alloc rd (unat count)"
      using assms SyncEntry by (simp_all add: shutdown_empties)
    then show ?thesis using False seen_empty by simp
  qed
next
  case (SyncInitList a es n)
  then have "t' = empty" and "p' = SyncInitCount alloc rd (unat count)"
    using assms by (simp_all add: init_list_empty)
  then show ?thesis using SyncInitList assms(2) seen_empty by simp
next
  case (SyncInitCount a es n)
  then have "t' = empty" and "p' = SyncLoop alloc rd 0 (unat count)"
    using assms by (simp_all add: init_count_empty)
  then show ?thesis using SyncInitCount assms(2) seen_empty by (simp add: loop_done)
qed (use assms in simp_all)

lemma reader_step:
  assumes "seen alloc rd count t0 t" and "reader_asn alloc rd count t0 v p"
    and "table_step ops p t = Some (p', t')"
  shows "t' = t \<and> reader_asn alloc rd count t0 v p'"
  using assms by (cases p) auto

lemma readers_invariant:
  "thread_invariant (table_step ops) (seen alloc rd count t0) (asn alloc rd count t0 vs)"
proof
  fix t t' i p p'
  assume seen: "seen alloc rd count t0 t" and asn: "asn alloc rd count t0 vs i p t"
    and step: "table_step ops p t = Some (p', t')"
  have other: "t' = t \<and> asn alloc rd count t0 vs i p' t" if "i \<noteq> 0"
    using reader_step [OF seen _ step] asn that by (simp add: asn_def)
  show "seen alloc rd count t0 t' \<and> asn alloc rd count t0 vs i p' t'"
  proof (cases "i = 0")
    case True
    then show ?thesis using sync_own_step [OF seen _ step] asn by (simp add: asn_def)
  qed (use other seen in simp)
  fix j q
  assume "j \<noteq> i" and "asn alloc rd count t0 vs j q t"
  then show "asn alloc rd count t0 vs j q t'"
    using other by (cases "i = 0") (simp_all add: asn_def)
qed

text \<open>
  In every interleaving of one sync with lookups, the sync has the effect it has alone, and each
  lookup has the result of a lookup before the sync or after a prefix of its array.
\<close>

lemma sync_with_readers:
  assumes "pars (table_step ops) (SyncEntry alloc (Some rd) count # map LookupEntry vs, t) (ps, t')"
  shows "(\<forall>st. ps ! 0 = Returned st \<longrightarrow> sync alloc (Some rd) count t = Inr (st, t')) \<and>
    (\<forall>j < length vs. \<forall>w r. ps ! Suc j = LookedUp w r \<longrightarrow>
       (\<exists>u. seen alloc rd count t u \<and> r = op_Lookup ops (vs ! j) u))"
proof -
  let ?ps = "SyncEntry alloc (Some rd) count # map LookupEntry vs"
  have "asn alloc rd count t vs i (?ps ! i) t" if "i < length ?ps" for i
    using that by (cases i) (simp_all add: asn_def)
  then have all: "\<forall>i < length ps. asn alloc rd count t vs i (ps ! i) t'"
    using thread_invariant.always [OF readers_invariant assms] by (simp add: seen_def)
  have len: "length ps = Suc (length vs)" using pars_length [OF assms] by simp
  then have "sync_asn alloc rd count t (ps ! 0) t'" using all by (simp add: asn_def)
  moreover have "reader_asn alloc rd count t (vs ! j) (ps ! Suc j)" if "j < length vs" for j
    using all len that by (auto simp: asn_def dest!: spec [of _ "Suc j"])
  ultimately show ?thesis by fastforce
qed

section \<open>A sync alone, and with a lookup in its window\<close>

lemma sync_loop_alone:
  "loop alloc rd i n t = Inr (st, t') \<Longrightarrow>
     solo (table_step ops) (Suc n) (SyncLoop alloc rd i n) t = (Returned st, t')"
proof (induction n arbitrary: i t)
  case 0
  then show ?case by (simp add: loop_done)
next
  case (Suc n)
  obtain p1 t1 where it: "sync_iteration ops alloc rd i n t = (p1, t1)" by fastforce
  then have first: "solo (table_step ops) (Suc (Suc n)) (SyncLoop alloc rd i (Suc n)) t =
      solo (table_step ops) (Suc n) p1 t1" by simp
  from it show ?case
  proof (cases rule: iteration_cases)
    case go
    then show ?thesis using Suc first by simp
  qed (use Suc.prems first in simp_all)
qed

text \<open>A sync that runs alone is the function.\<close>

lemma sync_alone:
  assumes "sync alloc es count t = Inr (st, t')"
  shows "solo (table_step ops) (unat count + 4) (SyncEntry alloc es count) t = (Returned st, t')"
proof (cases "\<exists>rd. es = Some rd \<and> \<not> op_Limit ops < count")
  case True
  then obtain rd where es: "es = Some rd" and le: "\<not> op_Limit ops < count" by blast
  have "solo (table_step ops) 3 (SyncEntry alloc es count) t =
      (SyncLoop alloc rd 0 (unat count), empty)"
    using es le by (simp add: numeral_eq_Suc shutdown_empties init_list_empty init_count_empty)
  moreover have "loop alloc rd 0 (unat count) empty = Inr (st, t')"
    using assms es le by (simp add: sync_some)
  ultimately have "solo (table_step ops) (3 + Suc (unat count)) (SyncEntry alloc es count) t =
      (Returned st, t')" using solo_trans sync_loop_alone by metis
  moreover have "3 + Suc (unat count) = unat count + 4" by simp
  ultimately show ?thesis by (simp only:)
next
  case False
  then have "solo (table_step ops) 1 (SyncEntry alloc es count) t = (Returned st, t')"
    using assms by (cases es) (auto simp: sync_none sync_some)
  then show ?thesis by (rule solo_more) simp_all
qed

lemma sync_loop_faults:
  "loop alloc rd i n t = Inl f \<Longrightarrow>
     \<exists>t'. solo (table_step ops) (Suc n) (SyncLoop alloc rd i n) t = (Faulted, t')"
proof (induction n arbitrary: i t)
  case 0
  then show ?case by (simp add: loop_done)
next
  case (Suc n)
  obtain p1 t1 where it: "sync_iteration ops alloc rd i n t = (p1, t1)" by fastforce
  then have first: "solo (table_step ops) (Suc (Suc n)) (SyncLoop alloc rd i (Suc n)) t =
      solo (table_step ops) (Suc n) p1 t1" by simp
  from it show ?case
  proof (cases rule: iteration_cases)
    case go
    then show ?thesis using Suc first by simp
  next
    case (stop st)
    then show ?thesis using Suc.prems by simp
  next
    case fault
    then show ?thesis using first by simp
  qed
qed

lemma sync_leads:
  "case sync alloc es count t of
     Inl f \<Rightarrow> \<exists>t'. leads (table_step ops) (SyncEntry alloc es count) t Faulted t'
   | Inr (st, t') \<Rightarrow> leads (table_step ops) (SyncEntry alloc es count) t (Returned st) t'"
proof (cases "sync alloc es count t")
  case (Inl f)
  then obtain rd where es: "es = Some rd" and le: "\<not> op_Limit ops < count"
    by (cases es) (auto simp: sync_none sync_some split: if_splits)
  then have start: "solo (table_step ops) 3 (SyncEntry alloc es count) t =
      (SyncLoop alloc rd 0 (unat count), empty)"
    by (simp add: numeral_eq_Suc shutdown_empties init_list_empty init_count_empty)
  obtain t' where "solo (table_step ops) (Suc (unat count)) (SyncLoop alloc rd 0 (unat count)) empty =
      (Faulted, t')"
    using sync_loop_faults [of alloc rd 0 "unat count" empty f] Inl es le
    by (auto simp: sync_some simp del: solo.simps)
  from solo_trans [OF start this] have "leads (table_step ops) (SyncEntry alloc es count) t Faulted t'"
    unfolding leads_def by blast
  then show ?thesis using Inl by auto
next
  case (Inr r)
  then show ?thesis using sync_alone [of alloc es count t] unfolding leads_def by (cases r) auto
qed

text \<open>A lookup between the emptying and the first element, followed by the rest of the sync.\<close>

lemma sync_loop_finishes:
  "loop alloc rd i n t = Inr (st, t') \<Longrightarrow>
     pars (table_step ops) ([SyncLoop alloc rd i n, q], t) ([Returned st, q], t')"
  using solo_pars [of 0 "[SyncLoop alloc rd i n, q]" "table_step ops" "Suc n" t] sync_loop_alone
  by simp

lemma lookup_in_window:
  assumes "sync alloc (Some rd) count t = Inr (st, t')" and "\<not> op_Limit ops < count"
  shows "pars (table_step ops) ([SyncEntry alloc (Some rd) count, LookupEntry v], t)
    ([Returned st, LookedUp v (op_Lookup ops v empty)], t')"
proof -
  have "schedule (table_step ops) [0, 0, 0, 1] ([SyncEntry alloc (Some rd) count, LookupEntry v], t) =
      ([SyncLoop alloc rd 0 (unat count), LookedUp v (op_Lookup ops v empty)], empty)"
    using assms(2) by (simp add: shutdown_empties init_list_empty init_count_empty)
  then have window: "pars (table_step ops) ([SyncEntry alloc (Some rd) count, LookupEntry v], t)
      ([SyncLoop alloc rd 0 (unat count), LookedUp v (op_Lookup ops v empty)], empty)"
    using schedule_pars by metis
  have rest: "loop alloc rd 0 (unat count) empty = Inr (st, t')"
    using assms by (simp add: sync_some)
  show ?thesis by (rule rtranclp_trans [OF window sync_loop_finishes [OF rest]])
qed

end

lemma policy_ops_empty:
  "op_Shutdown policy_ops t = GuardianAppPolicyInitialize"
  "op_InitList policy_ops GuardianAppPolicyInitialize = GuardianAppPolicyInitialize"
  "op_InitCount policy_ops GuardianAppPolicyInitialize = GuardianAppPolicyInitialize"
  by (simp_all add: policy_ops_def GuardianAppPolicyShutdown_def GuardianAppPolicyInitialize_def)

lemma route_ops_empty:
  "op_Shutdown route_ops t = GuardianRouteInitialize"
  "op_InitList route_ops GuardianRouteInitialize = GuardianRouteInitialize"
  "op_InitCount route_ops GuardianRouteInitialize = GuardianRouteInitialize"
  by (simp_all add: route_ops_def GuardianRouteShutdown_def GuardianRouteInitialize_def)

interpretation policy_threads: concurrent_table ap_AppId "\<lambda>p. length (ap_AppId p) = 16" policy_inv
  GuardianPolicyFindLocked GuardianAppPolicyInitialize GuardianAppPolicySet
  GuardianAppPolicyRemove policy_sync_loop policy_ops GuardianAppPolicySync
proof (unfold_locales, goal_cases)
  case (5 rd i v alloc n t)
  then show ?case by (simp add: policy_ops_def truncated_element_def split: option.split)
qed (simp_all add: policy_ops_empty, simp_all add: policy_ops_def GuardianAppPolicySync_def)

interpretation route_threads: concurrent_table ra_AppId "\<lambda>r. length (ra_AppId r) = 16" route_inv
  GuardianRouteFindLocked GuardianRouteInitialize GuardianRouteSet GuardianRouteClear
  route_sync_loop route_ops GuardianRouteSync
proof (unfold_locales, goal_cases)
  case (5 rd i v alloc n t)
  then show ?case by (simp add: route_ops_def truncated_element_def split: option.split)
qed (simp_all add: route_ops_empty, simp_all add: route_ops_def GuardianRouteSync_def)

section \<open>Properties\<close>

lemma policy_sync_opens_a_window:
  assumes "GuardianAppPolicySync alloc (Some policies) count t = Inr (st, t')"
    and "count \<le> GUARDIAN_MAX_SYNC_POLICIES"
  shows "pars (table_step policy_ops)
    ([SyncEntry alloc (Some policies) count, LookupEntry (Some v)], t)
    ([Returned st, LookedUp (Some v) (STATUS_SUCCESS, zero_app_policy, False)], t')"
  using policy_threads.lookup_in_window [OF assms(1), of "Some v"] assms(2)
  by (simp add: policy_ops_def GuardianAppPolicyLookup_def GuardianAppPolicyInitialize_def not_less)

lemma policy_sync_opens_a_window_witness:
  "\<exists>t'. pars (table_step policy_ops)
     ([SyncEntry (\<lambda>_. True) (Some (\<lambda>_. Readable (zero_app_policy\<lparr>ap_Version := 1\<rparr>))) 1,
       LookupEntry (Some (connect_v4 None))], \<lparr>pt_list = [zero_app_policy], pt_count = 1\<rparr>)
     ([Returned STATUS_SUCCESS,
       LookedUp (Some (connect_v4 None)) (STATUS_SUCCESS, zero_app_policy, False)], t') \<and>
   pt_list t' = [zero_app_policy\<lparr>ap_Version := 1\<rparr>]"
proof -
  have one: "unat (1 :: u32) = Suc 0" by simp
  have "GuardianAppPolicySync (\<lambda>_. True) (Some (\<lambda>_. Readable (zero_app_policy\<lparr>ap_Version := 1\<rparr>))) 1
      \<lparr>pt_list = [zero_app_policy], pt_count = 1\<rparr> =
      Inr (STATUS_SUCCESS, \<lparr>pt_list = [zero_app_policy\<lparr>ap_Version := 1\<rparr>], pt_count = 1\<rparr>)"
    unfolding GuardianAppPolicySync_def one
    by (simp add: GUARDIAN_MAX_SYNC_POLICIES_def Let_def GuardianAppPolicySet_def
        GUARDIAN_APP_POLICY_VERSION_def GuardianPolicyFindLocked_def key_find_def
        GuardianAppPolicyInitialize_def GUARDIAN_MAX_POLICIES_def)
  from policy_sync_opens_a_window [OF this, of "connect_v4 None"] show ?thesis
    by (auto simp: GUARDIAN_MAX_SYNC_POLICIES_def)
qed

text \<open>
  The unlocked initialisation inside a sync loses counts: a \<open>SET_ROUTE\<close>
  between the two writes of the initialisation of a \<open>SYNC_ROUTES\<close> of no elements
  succeeds and leaves its route in the table with a counter of 0; clearing this route then wraps
  the counter to 2 to the 32 minus 1, and from there every \<open>SET_ROUTE\<close> fails.
\<close>

lemma route_set_during_sync_corrupts_count:
  assumes "ra_Version r = GUARDIAN_ROUTE_ASSIGNMENT_VERSION" and "length (ra_AppId r) = 16"
  shows "\<exists>u u'. pars (table_step route_ops)
      ([SyncEntry alloc (Some routes) 0, SetEntry True (Some r)], t)
      ([Returned STATUS_SUCCESS, Returned STATUS_SUCCESS], u) \<and>
    rt_list u = [r] \<and> GuardianRouteActiveCount u = 0 \<and>
    GuardianRouteClear (ra_AppId r) u = (STATUS_SUCCESS, u') \<and>
    GuardianRouteActiveCount u' = 0xFFFFFFFF \<and>
    (\<forall>a q. \<not> NT_SUCCESS (fst (GuardianRouteSet a (Some q) u')) \<and>
       snd (GuardianRouteSet a (Some q) u') = u')"
proof -
  let ?u = "\<lparr>rt_list = [r], rt_count = 0\<rparr>" and ?u' = "\<lparr>rt_list = [], rt_count = 0xFFFFFFFF\<rparr>"
  let ?c = "([SyncEntry alloc (Some routes) 0, SetEntry True (Some r)], t)"
  have "schedule (table_step route_ops) [0, 0, 1, 0, 0] ?c =
      ([Returned STATUS_SUCCESS, Returned STATUS_SUCCESS], ?u)"
    using assms(1)
    by (simp add: route_ops_def GuardianRouteShutdown_def GuardianRouteSet_def
        GuardianRouteFindLocked_def key_find_def GUARDIAN_MAX_ROUTES_def)
  then have "pars (table_step route_ops) ?c ([Returned STATUS_SUCCESS, Returned STATUS_SUCCESS], ?u)"
    using schedule_pars by metis
  moreover have "GuardianRouteClear (ra_AppId r) ?u = (STATUS_SUCCESS, ?u')"
    using assms(2)
    by (simp add: GuardianRouteClear_def GuardianRouteFindLocked_def key_find_def)
  moreover have "\<not> NT_SUCCESS (fst (GuardianRouteSet a (Some q) ?u')) \<and>
      snd (GuardianRouteSet a (Some q) ?u') = ?u'" for a q
    by (simp add: GuardianRouteSet_def GuardianRouteFindLocked_def key_find_def
        GUARDIAN_MAX_ROUTES_def)
  ultimately show ?thesis
    by (intro exI [of _ ?u] exI [of _ ?u']) (simp add: GuardianRouteActiveCount_def)
qed

lemma route_set_during_sync_corrupts_count_witness:
  "\<exists>u. pars (table_step route_ops)
     ([SyncEntry (\<lambda>_. True) (Some (\<lambda>_. Truncated None)) 0,
       SetEntry True (Some (zero_route\<lparr>ra_Version := 1\<rparr>))], GuardianRouteInitialize)
     ([Returned STATUS_SUCCESS, Returned STATUS_SUCCESS], u) \<and> GuardianRouteActiveCount u = 0"
  using route_set_during_sync_corrupts_count [of "zero_route\<lparr>ra_Version := 1\<rparr>" "\<lambda>_. True"
      "\<lambda>_. Truncated None" GuardianRouteInitialize]
  by (auto simp: zero_route_def GUARDIAN_ROUTE_ASSIGNMENT_VERSION_def)

text \<open>
  Calls on a table always return, however they interleave: no execution makes more steps
  than the calls bound at the start, no state is stuck before all have returned, and from every
  point all can return; a sync of n elements takes at most n + 4 steps.
\<close>

lemma table_calls_return:
  assumes "(par (table_step ops) ^^ n) (ps, t) (ps', t')"
  shows "n \<le> sum_list (map accesses_left ps) \<and>
    ((\<nexists>c. par (table_step ops) (ps', t') c) \<longleftrightarrow> sum_list (map accesses_left ps') = 0) \<and>
    (\<exists>ps'' t''. pars (table_step ops) (ps', t') (ps'', t'') \<and>
       sum_list (map accesses_left ps'') = 0)"
  using table_bound.interleaving_bounded [OF assms] table_bound.no_deadlock [of ops ps' t']
    table_bound.all_return [of ops ps' t']
  by (simp add: table_bound.remaining_def)

lemma table_calls_return_witness:
  "\<exists>ps'' t''. pars (table_step route_ops) ([LookupEntry [], LookupEntry []], GuardianRouteInitialize)
     (ps'', t'') \<and> sum_list (map accesses_left ps'') = 0"
  using table_calls_return [of 0 route_ops "[LookupEntry [], LookupEntry []]"
      GuardianRouteInitialize "[LookupEntry [], LookupEntry []]" GuardianRouteInitialize]
  by simp

end
