(* ===== verification/Linked_List.thy ===== *)
theory Linked_List
  imports App_Table
begin

text \<open>
  The tables in memory. Each is a circular doubly linked list of pool blocks behind a static list
  head: every block has a LIST_ENTRY with its two links and the structure it stores. Memory is a
  record of maps from pointers; a pointer is the head or a block, and a block that is not allocated
  holds nothing. The list routines InitializeListHead, InsertTailList, RemoveEntryList,
  RemoveHeadList and IsListEmpty are the platform's and a parameter of the model; the contract
  list\_routines states what their documentation says of a well-formed list. It holds of the link
  updates that the documentation describes.
\<close>

section \<open>Memory\<close>

datatype list_ptr = Head | Block nat

record 'e list_memory =
  lm_Flink :: "list_ptr \<Rightarrow> list_ptr"
  lm_Blink :: "list_ptr \<Rightarrow> list_ptr"
  lm_Pool :: "nat \<Rightarrow> 'e option"
  lm_Count :: u32

section \<open>Segments\<close>

text \<open>The pointers ps lie in this order between x and y, linked in both directions.\<close>

fun segment :: "'e list_memory \<Rightarrow> list_ptr \<Rightarrow> list_ptr list \<Rightarrow> list_ptr \<Rightarrow> bool" where
  "segment m x [] y \<longleftrightarrow> lm_Flink m x = y \<and> lm_Blink m y = x"
| "segment m x (p # ps) y \<longleftrightarrow> lm_Flink m x = p \<and> lm_Blink m p = x \<and> segment m p ps y"

lemma segment_append:
  "segment m x (ps @ p # qs) y \<longleftrightarrow> segment m x ps p \<and> segment m p qs y"
  by (induction ps arbitrary: x) auto

lemma segment_cong:
  "(\<And>p. p \<in> set (x # ps) \<Longrightarrow> lm_Flink m' p = lm_Flink m p) \<Longrightarrow>
   (\<And>p. p \<in> set (ps @ [y]) \<Longrightarrow> lm_Blink m' p = lm_Blink m p) \<Longrightarrow>
     segment m' x ps y \<longleftrightarrow> segment m x ps y"
  by (induction ps arbitrary: x) auto

text \<open>The whole list: a segment from the head back to it, without repetition.\<close>

definition ring :: "'e list_memory \<Rightarrow> nat list \<Rightarrow> bool" where
  "ring m bs \<longleftrightarrow> segment m Head (map Block bs) Head \<and> distinct bs"

lemma segment_data [simp]:
  "segment (m\<lparr>lm_Pool := p\<rparr>) x ps y = segment m x ps y"
  "segment (m\<lparr>lm_Count := n\<rparr>) x ps y = segment m x ps y"
  by (induction ps arbitrary: x) auto

lemma ring_data [simp]:
  "ring (m\<lparr>lm_Pool := p\<rparr>) bs = ring m bs" "ring (m\<lparr>lm_Count := n\<rparr>) bs = ring m bs"
  by (simp_all add: ring_def)

lemma ring_distinct: "ring m bs \<Longrightarrow> distinct bs"
  by (simp add: ring_def)

section \<open>The contract of the list routines\<close>

record 'e list_api =
  la_Initialize :: "'e list_memory \<Rightarrow> 'e list_memory"
  la_IsEmpty :: "'e list_memory \<Rightarrow> bool"
  la_InsertTail :: "list_ptr \<Rightarrow> 'e list_memory \<Rightarrow> 'e list_memory"
  la_RemoveEntry :: "list_ptr \<Rightarrow> 'e list_memory \<Rightarrow> 'e list_memory"
  la_RemoveHead :: "'e list_memory \<Rightarrow> list_ptr \<times> 'e list_memory"

text \<open>The routines touch links only: what the blocks hold and the counter stay.\<close>

definition same_data :: "'e list_memory \<Rightarrow> 'e list_memory \<Rightarrow> bool" where
  "same_data m' m \<longleftrightarrow> lm_Pool m' = lm_Pool m \<and> lm_Count m' = lm_Count m"

locale list_routines =
  fixes api :: "'e list_api"
  assumes initialize: "ring (la_Initialize api m) [] \<and> same_data (la_Initialize api m) m"
    and is_empty: "ring m bs \<Longrightarrow> la_IsEmpty api m \<longleftrightarrow> bs = []"
    and insert_tail: "ring m bs \<Longrightarrow> b \<notin> set bs \<Longrightarrow>
      ring (la_InsertTail api (Block b) m) (bs @ [b]) \<and> same_data (la_InsertTail api (Block b) m) m"
    and remove_entry: "ring m (as @ b # bs) \<Longrightarrow>
      ring (la_RemoveEntry api (Block b) m) (as @ bs) \<and> same_data (la_RemoveEntry api (Block b) m) m"
    and remove_head: "ring m (b # bs) \<Longrightarrow>
      (\<exists>m'. la_RemoveHead api m = (Block b, m') \<and> ring m' bs \<and> same_data m' m)"

section \<open>The documented link updates\<close>

definition InitializeListHead :: "'e list_memory \<Rightarrow> 'e list_memory" where
  "InitializeListHead m =
     m\<lparr>lm_Flink := (lm_Flink m)(Head := Head), lm_Blink := (lm_Blink m)(Head := Head)\<rparr>"

definition IsListEmpty :: "'e list_memory \<Rightarrow> bool" where
  "IsListEmpty m \<longleftrightarrow> lm_Flink m Head = Head"

definition InsertTailList :: "list_ptr \<Rightarrow> 'e list_memory \<Rightarrow> 'e list_memory" where
  "InsertTailList e m =
     (let prev = lm_Blink m Head
      in m\<lparr>lm_Flink := (lm_Flink m)(e := Head, prev := e),
           lm_Blink := (lm_Blink m)(e := prev, Head := e)\<rparr>)"

definition RemoveEntryList :: "list_ptr \<Rightarrow> 'e list_memory \<Rightarrow> 'e list_memory" where
  "RemoveEntryList e m =
     (let flink = lm_Flink m e; blink = lm_Blink m e
      in m\<lparr>lm_Flink := (lm_Flink m)(blink := flink), lm_Blink := (lm_Blink m)(flink := blink)\<rparr>)"

definition RemoveHeadList :: "'e list_memory \<Rightarrow> list_ptr \<times> 'e list_memory" where
  "RemoveHeadList m = (let e = lm_Flink m Head in (e, RemoveEntryList e m))"

lemma ring_init: "ring (InitializeListHead m) []"
  by (simp add: ring_def InitializeListHead_def)

lemma ring_empty_iff: "ring m bs \<Longrightarrow> IsListEmpty m \<longleftrightarrow> bs = []"
  by (cases bs) (auto simp: ring_def IsListEmpty_def)

lemma ring_insert_tail:
  assumes "ring m bs" and "b \<notin> set bs"
  shows "ring (InsertTailList (Block b) m) (bs @ [b])"
proof (cases bs rule: rev_cases)
  case Nil
  then show ?thesis using assms by (simp add: ring_def InsertTailList_def Let_def)
next
  case (snoc cs c)
  let ?m = "InsertTailList (Block b) m"
  have seg: "segment m Head (map Block cs) (Block c)" and "segment m (Block c) [] Head"
    using assms(1) segment_append [of m Head "map Block cs" "Block c" "[]" Head]
    by (simp_all add: ring_def snoc)
  then have last: "lm_Blink m Head = Block c" by simp
  have d: "distinct (cs @ [c, b])" using assms by (auto simp: ring_def snoc)
  have "segment ?m Head (map Block cs) (Block c)"
    using seg d by (subst segment_cong [of _ _ ?m m]) (auto simp: InsertTailList_def last Let_def)
  moreover have "segment ?m (Block c) [Block b] Head"
    using d by (simp add: InsertTailList_def last Let_def)
  ultimately have "segment ?m Head (map Block cs @ Block c # [Block b]) Head"
    by (simp only: segment_append)
  with d show ?thesis by (simp add: ring_def snoc)
qed

lemma segment_remove:
  assumes "segment m x (ps @ e # qs) y" and "distinct (x # ps @ e # qs)"
    and "distinct (ps @ e # qs @ [y])"
  shows "segment (RemoveEntryList e m) x (ps @ qs) y"
proof -
  let ?m = "RemoveEntryList e m"
  have l: "segment m x ps e" and r: "segment m e qs y"
    using assms(1) by (simp_all add: segment_append)
  have flinks: "lm_Flink ?m = (lm_Flink m)(lm_Blink m e := lm_Flink m e)"
    and blinks: "lm_Blink ?m = (lm_Blink m)(lm_Flink m e := lm_Blink m e)"
    by (simp_all add: RemoveEntryList_def Let_def)
  show ?thesis
  proof (cases ps rule: rev_cases)
    case ps: Nil
    then have be: "lm_Blink m e = x" using l by simp
    show ?thesis
    proof (cases qs)
      case Nil
      then show ?thesis using ps be r by (simp add: flinks blinks)
    next
      case (Cons q qs')
      then have fe: "lm_Flink m e = q" and r': "segment m q qs' y" using r by simp_all
      have "segment ?m q qs' y" using r' assms(2,3) Cons ps
        by (subst segment_cong [of _ _ ?m m]) (auto simp: flinks blinks be fe)
      then show ?thesis using ps Cons by (simp add: flinks blinks be fe)
    qed
  next
    case ps: (snoc ps' p)
    then have l': "segment m x ps' p" and be: "lm_Blink m e = p"
      using l segment_append [of m x ps' p "[]" e] by simp_all
    show ?thesis
    proof (cases qs)
      case Nil
      then have fe: "lm_Flink m e = y" using r by simp
      have "segment ?m x ps' p" using l' assms(2,3) Nil ps
        by (subst segment_cong [of _ _ ?m m]) (auto simp: flinks blinks be fe)
      moreover have "segment ?m p [] y" by (simp add: flinks blinks be fe)
      ultimately show ?thesis using ps Nil by (simp add: segment_append)
    next
      case (Cons q qs')
      then have fe: "lm_Flink m e = q" and r': "segment m q qs' y" using r by simp_all
      have "segment ?m x ps' p" using l' assms(2,3) Cons ps
        by (subst segment_cong [of _ _ ?m m]) (auto simp: flinks blinks be fe)
      moreover have "segment ?m q qs' y" using r' assms(2,3) Cons ps
        by (subst segment_cong [of _ _ ?m m]) (auto simp: flinks blinks be fe)
      ultimately show ?thesis using ps Cons by (simp add: segment_append flinks blinks be fe)
    qed
  qed
qed

lemma ring_remove:
  assumes "ring m (as @ b # bs)"
  shows "ring (RemoveEntryList (Block b) m) (as @ bs)"
proof -
  have d: "distinct (as @ b # bs)" and "segment m Head (map Block as @ Block b # map Block bs) Head"
    using assms by (simp_all add: ring_def)
  moreover have "distinct (map Block (as @ b # bs))" using d by (auto simp: distinct_map inj_on_def)
  ultimately have "segment (RemoveEntryList (Block b) m) Head (map Block as @ map Block bs) Head"
    by (intro segment_remove) auto
  with d show ?thesis by (simp add: ring_def)
qed

definition wdm_list_api :: "'e list_api" where
  "wdm_list_api =
     \<lparr>la_Initialize = InitializeListHead, la_IsEmpty = IsListEmpty, la_InsertTail = InsertTailList,
      la_RemoveEntry = RemoveEntryList, la_RemoveHead = RemoveHeadList\<rparr>"

interpretation wdm: list_routines wdm_list_api
proof
  fix m :: "'e list_memory" and as bs b
  show "ring (la_Initialize wdm_list_api m) [] \<and> same_data (la_Initialize wdm_list_api m) m"
    using ring_init by (simp add: wdm_list_api_def same_data_def InitializeListHead_def)
  show "ring m bs \<Longrightarrow> la_IsEmpty wdm_list_api m \<longleftrightarrow> bs = []"
    using ring_empty_iff by (simp add: wdm_list_api_def)
  show "ring m bs \<Longrightarrow> b \<notin> set bs \<Longrightarrow>
      ring (la_InsertTail wdm_list_api (Block b) m) (bs @ [b]) \<and>
      same_data (la_InsertTail wdm_list_api (Block b) m) m"
    using ring_insert_tail by (simp add: wdm_list_api_def same_data_def InsertTailList_def Let_def)
  show "ring m (as @ b # bs) \<Longrightarrow>
      ring (la_RemoveEntry wdm_list_api (Block b) m) (as @ bs) \<and>
      same_data (la_RemoveEntry wdm_list_api (Block b) m) m"
    using ring_remove by (simp add: wdm_list_api_def same_data_def RemoveEntryList_def Let_def)
  assume "ring m (b # bs)"
  then show "\<exists>m'. la_RemoveHead wdm_list_api m = (Block b, m') \<and> ring m' bs \<and> same_data m' m"
    using ring_remove [of m "[]" b bs]
    by (simp add: wdm_list_api_def RemoveHeadList_def Let_def ring_def same_data_def
        RemoveEntryList_def)
qed

end
