(* ===== verification/Pool_Tables.thy ===== *)
theory Pool_Tables
  imports Linked_List App_Policy Route_Assignment
begin

text \<open>
  policy/app_policy.c and route/route_assignment.c over memory: the traversal of the links, the pool
  allocations and their release, on the list of the theory Linked\_List. Reading a block that is not
  allocated is a fault, and so is releasing one or the head; a traversal that never comes back to
  the head is None. The two files have the same text up to the structure, so the operations are
  defined once over a record that says what the structure's id, version and limits are. Memory that
  represents a table goes on representing it: each operation is a refinement of the operation of
  App\_Policy or Route\_Assignment, without faults, and with no block allocated but the list's
  and those that were lost before.
\<close>

section \<open>Operations on memory\<close>

datatype pool_fault = UseAfterFree | BadFree

type_synonym ('r, 'e) on_memory = "(pool_fault + 'r \<times> 'e list_memory) option"

record 'e entry_class =
  ec_AppId :: "'e \<Rightarrow> bytes"
  ec_Version :: "'e \<Rightarrow> u32"
  ec_CurrentVersion :: u32
  ec_MaxEntries :: u32
  ec_MaxSync :: u32

definition policy_class :: "GUARDIAN_APP_POLICY_V1 entry_class" where
  "policy_class =
     \<lparr>ec_AppId = ap_AppId, ec_Version = ap_Version,
      ec_CurrentVersion = GUARDIAN_APP_POLICY_VERSION, ec_MaxEntries = GUARDIAN_MAX_POLICIES,
      ec_MaxSync = GUARDIAN_MAX_SYNC_POLICIES\<rparr>"

definition route_class :: "GUARDIAN_ROUTE_ASSIGNMENT_V1 entry_class" where
  "route_class =
     \<lparr>ec_AppId = ra_AppId, ec_Version = ra_Version,
      ec_CurrentVersion = GUARDIAN_ROUTE_ASSIGNMENT_VERSION, ec_MaxEntries = GUARDIAN_MAX_ROUTES,
      ec_MaxSync = GUARDIAN_MAX_SYNC_ROUTES\<rparr>"

definition free_block :: "list_ptr \<Rightarrow> 'e list_memory \<Rightarrow> pool_fault + 'e list_memory" where
  "free_block p m =
     (case p of
        Head \<Rightarrow> Inl BadFree
      | Block b \<Rightarrow>
          if lm_Pool m b = None then Inl BadFree
          else Inr (m\<lparr>lm_Pool := (lm_Pool m)(b := None)\<rparr>))"

definition free_then :: "list_ptr \<Rightarrow> 'r \<Rightarrow> 'e list_memory \<Rightarrow> ('r, 'e) on_memory" where
  "free_then p r m = Some (case free_block p m of Inl f \<Rightarrow> Inl f | Inr m' \<Rightarrow> Inr (r, m'))"

text \<open>The traversal from an entry to the first block whose structure satisfies a condition.\<close>

partial_function (option) scan_loop ::
  "('e \<Rightarrow> bool) \<Rightarrow> 'e list_memory \<Rightarrow> list_ptr \<Rightarrow> (pool_fault + nat option) option" where
  "scan_loop P m entry =
     (case entry of
        Head \<Rightarrow> Some (Inr None)
      | Block b \<Rightarrow>
          (case lm_Pool m b of
             None \<Rightarrow> Some (Inl UseAfterFree)
           | Some item \<Rightarrow>
               if P item then Some (Inr (Some b)) else scan_loop P m (lm_Flink m entry)))"

definition find_locked ::
  "'e entry_class \<Rightarrow> bytes \<Rightarrow> 'e list_memory \<Rightarrow> (pool_fault + nat option) option" where
  "find_locked c appId m =
     scan_loop (\<lambda>item. same_app_id (ec_AppId c item) appId) m (lm_Flink m Head)"

text \<open>A lookup copies the structure that its traversal finds.\<close>

definition table_lookup :: "('e \<Rightarrow> bool) \<Rightarrow> 'e list_memory \<Rightarrow> (pool_fault + 'e option) option" where
  "table_lookup P m =
     Option.bind (scan_loop P m (lm_Flink m Head)) (\<lambda>r.
       Some (case r of
               Inl f \<Rightarrow> Inl f
             | Inr None \<Rightarrow> Inr None
             | Inr (Some b) \<Rightarrow>
                 (case lm_Pool m b of None \<Rightarrow> Inl UseAfterFree | Some item \<Rightarrow> Inr (Some item))))"

definition table_initialize :: "'e list_api \<Rightarrow> 'e list_memory \<Rightarrow> 'e list_memory" where
  "table_initialize api m = (la_Initialize api m)\<lparr>lm_Count := 0\<rparr>"

text \<open>\<open>entry\<close> is the address that the pool allocation returns, None for NULL.\<close>

definition table_set ::
  "'e list_api \<Rightarrow> 'e entry_class \<Rightarrow> nat option \<Rightarrow> 'e option \<Rightarrow> 'e list_memory \<Rightarrow>
     (ntstatus, 'e) on_memory" where
  "table_set api c entry e m =
     (case e of
        None \<Rightarrow> Some (Inr (STATUS_INVALID_PARAMETER, m))
      | Some p \<Rightarrow>
          if ec_Version c p \<noteq> ec_CurrentVersion c then Some (Inr (STATUS_INVALID_PARAMETER, m))
          else (case entry of
            None \<Rightarrow> Some (Inr (STATUS_INSUFFICIENT_RESOURCES, m))
          | Some b \<Rightarrow>
              let m1 = m\<lparr>lm_Pool := (lm_Pool m)(b \<mapsto> p)\<rparr>
              in Option.bind (find_locked c (ec_AppId c p) m1) (\<lambda>r.
                   case r of
                     Inl f \<Rightarrow> Some (Inl f)
                   | Inr (Some existing) \<Rightarrow>
                       free_then (Block b) STATUS_SUCCESS
                         (m1\<lparr>lm_Pool := (lm_Pool m1)(existing \<mapsto> p)\<rparr>)
                   | Inr None \<Rightarrow>
                       if ec_MaxEntries c \<le> lm_Count m1
                       then free_then (Block b) STATUS_INSUFFICIENT_RESOURCES m1
                       else let m2 = la_InsertTail api (Block b) m1
                            in Some (Inr (STATUS_SUCCESS, m2\<lparr>lm_Count := lm_Count m2 + 1\<rparr>)))))"

definition table_remove ::
  "'e list_api \<Rightarrow> 'e entry_class \<Rightarrow> bytes \<Rightarrow> 'e list_memory \<Rightarrow> (ntstatus, 'e) on_memory" where
  "table_remove api c appId m =
     Option.bind (find_locked c appId m) (\<lambda>r.
       case r of
         Inl f \<Rightarrow> Some (Inl f)
       | Inr None \<Rightarrow> Some (Inr (STATUS_NOT_FOUND, m))
       | Inr (Some existing) \<Rightarrow>
           let m1 = la_RemoveEntry api (Block existing) m
           in free_then (Block existing) STATUS_SUCCESS (m1\<lparr>lm_Count := lm_Count m1 - 1\<rparr>))"

partial_function (option) shutdown_loop ::
  "'e list_api \<Rightarrow> 'e list_memory \<Rightarrow> (pool_fault + 'e list_memory) option" where
  "shutdown_loop api m =
     (if la_IsEmpty api m then Some (Inr m)
      else case la_RemoveHead api m of
        (entry, m1) \<Rightarrow>
          (case free_block entry m1 of
             Inl f \<Rightarrow> Some (Inl f)
           | Inr m2 \<Rightarrow> shutdown_loop api m2))"

definition table_shutdown ::
  "'e list_api \<Rightarrow> 'e list_memory \<Rightarrow> (pool_fault + 'e list_memory) option" where
  "table_shutdown api m =
     Option.bind (shutdown_loop api m) (\<lambda>r.
       Some (case r of Inl f \<Rightarrow> Inl f | Inr m1 \<Rightarrow> Inr (m1\<lparr>lm_Count := 0\<rparr>)))"

text \<open>
  The pool as a call uses it: \<open>pool i used\<close> is the address that the call's allocation i returns when
  the blocks of \<open>used\<close> are allocated.
\<close>

type_synonym block_pool = "nat \<Rightarrow> nat set \<Rightarrow> nat option"

fun table_sync_loop ::
  "'e list_api \<Rightarrow> 'e entry_class \<Rightarrow> block_pool \<Rightarrow> (nat \<Rightarrow> 'e) \<Rightarrow> nat \<Rightarrow> nat \<Rightarrow> 'e list_memory \<Rightarrow>
     (ntstatus, 'e) on_memory" where
  "table_sync_loop api c pool es i 0 m = Some (Inr (STATUS_SUCCESS, m))"
| "table_sync_loop api c pool es i (Suc n) m =
     Option.bind (table_set api c (pool i (dom (lm_Pool m))) (Some (es i)) m) (\<lambda>r.
       case r of
         Inl f \<Rightarrow> Some (Inl f)
       | Inr (status, m') \<Rightarrow>
           if NT_SUCCESS status then table_sync_loop api c pool es (Suc i) n m'
           else Some (Inr (status, m')))"

definition table_sync ::
  "'e list_api \<Rightarrow> 'e entry_class \<Rightarrow> block_pool \<Rightarrow> (nat \<Rightarrow> 'e) option \<Rightarrow> u32 \<Rightarrow> 'e list_memory \<Rightarrow>
     (ntstatus, 'e) on_memory" where
  "table_sync api c pool elements count m =
     (case elements of
        None \<Rightarrow> Some (Inr (STATUS_INVALID_PARAMETER, m))
      | Some es \<Rightarrow>
          if ec_MaxSync c < count then Some (Inr (STATUS_INVALID_PARAMETER, m))
          else Option.bind (table_shutdown api m) (\<lambda>r.
                 case r of
                   Inl f \<Rightarrow> Some (Inl f)
                 | Inr m1 \<Rightarrow>
                     table_sync_loop api c pool es 0 (unat count) (table_initialize api m1)))"

section \<open>Sequences of calls\<close>

datatype 'e pool_call =
  CallSet "'e option" | CallRemove bytes | CallSync "(nat \<Rightarrow> 'e) option" u32

fun memory_call ::
  "'e list_api \<Rightarrow> 'e entry_class \<Rightarrow> block_pool \<Rightarrow> 'e pool_call \<Rightarrow> 'e list_memory \<Rightarrow>
     (ntstatus, 'e) on_memory" where
  "memory_call api c pool (CallSet e) m = table_set api c (pool 0 (dom (lm_Pool m))) e m"
| "memory_call api c pool (CallRemove appId) m = table_remove api c appId m"
| "memory_call api c pool (CallSync elements count) m = table_sync api c pool elements count m"

fun memory_calls ::
  "'e list_api \<Rightarrow> 'e entry_class \<Rightarrow> (block_pool \<times> 'e pool_call) list \<Rightarrow> 'e list_memory \<Rightarrow>
     (ntstatus list, 'e) on_memory" where
  "memory_calls api c [] m = Some (Inr ([], m))"
| "memory_calls api c ((pool, call) # calls) m =
     Option.bind (memory_call api c pool call m) (\<lambda>r.
       case r of
         Inl f \<Rightarrow> Some (Inl f)
       | Inr (status, m1) \<Rightarrow>
           Option.bind (memory_calls api c calls m1) (\<lambda>r.
             Some (case r of
                     Inl f \<Rightarrow> Inl f
                   | Inr (statuses, m2) \<Rightarrow> Inr (status # statuses, m2))))"

text \<open>
  The same calls on the table of App\_Policy or Route\_Assignment, each with the outcomes of its
  allocations. The elements of an array can all be read.
\<close>

record ('e, 't) table_functions =
  tf_Set :: "bool \<Rightarrow> 'e option \<Rightarrow> 't \<Rightarrow> ntstatus \<times> 't"
  tf_Remove :: "bytes \<Rightarrow> 't \<Rightarrow> ntstatus \<times> 't"
  tf_Sync :: "(nat \<Rightarrow> bool) \<Rightarrow> (nat \<Rightarrow> 'e cell) option \<Rightarrow> u32 \<Rightarrow> 't \<Rightarrow> fault + (ntstatus \<times> 't)"

definition policy_functions :: "(GUARDIAN_APP_POLICY_V1, policy_table) table_functions" where
  "policy_functions =
     \<lparr>tf_Set = GuardianAppPolicySet, tf_Remove = GuardianAppPolicyRemove,
      tf_Sync = GuardianAppPolicySync\<rparr>"

definition route_functions :: "(GUARDIAN_ROUTE_ASSIGNMENT_V1, route_table) table_functions" where
  "route_functions =
     \<lparr>tf_Set = GuardianRouteSet, tf_Remove = GuardianRouteClear, tf_Sync = GuardianRouteSync\<rparr>"

fun function_call ::
  "('e, 't) table_functions \<Rightarrow> (nat \<Rightarrow> bool) \<Rightarrow> 'e pool_call \<Rightarrow> 't \<Rightarrow> fault + (ntstatus \<times> 't)" where
  "function_call fs alloc (CallSet e) t = Inr (tf_Set fs (alloc 0) e t)"
| "function_call fs alloc (CallRemove appId) t = Inr (tf_Remove fs appId t)"
| "function_call fs alloc (CallSync elements count) t =
     tf_Sync fs alloc (map_option (\<lambda>es j. Readable (es j)) elements) count t"

fun function_calls ::
  "('e, 't) table_functions \<Rightarrow> ((nat \<Rightarrow> bool) \<times> 'e pool_call) list \<Rightarrow> 't \<Rightarrow>
     fault + (ntstatus list \<times> 't)" where
  "function_calls fs [] t = Inr ([], t)"
| "function_calls fs ((alloc, call) # calls) t =
     (case function_call fs alloc call t of
        Inl f \<Rightarrow> Inl f
      | Inr (status, t1) \<Rightarrow>
          (case function_calls fs calls t1 of
             Inl f \<Rightarrow> Inl f
           | Inr (statuses, t2) \<Rightarrow> Inr (status # statuses, t2)))"

section \<open>What memory represents\<close>

text \<open>
  Memory represents a list of entries and a counter: the ring's blocks hold the entries in order.
  The blocks of \<open>lost\<close> are allocated besides, and no list reaches them; without leaks there are none.
\<close>

definition holds ::
  "(nat \<rightharpoonup> 'e) \<Rightarrow> 'e list_memory \<Rightarrow> nat list \<Rightarrow> 'e list \<Rightarrow> u32 \<Rightarrow> bool" where
  "holds lost m bs es n \<longleftrightarrow>
     ring m bs \<and> map (lm_Pool m) bs = map Some es \<and> lm_Count m = n \<and>
     finite (dom lost) \<and> set bs \<inter> dom lost = {} \<and> (\<forall>b. b \<notin> set bs \<longrightarrow> lm_Pool m b = lost b)"

definition represents :: "(nat \<rightharpoonup> 'e) \<Rightarrow> 'e list_memory \<Rightarrow> 'e list \<Rightarrow> u32 \<Rightarrow> bool" where
  "represents lost m es n \<longleftrightarrow> (\<exists>bs. holds lost m bs es n)"

lemma representsE:
  assumes "represents lost m es n"
  obtains bs where "ring m bs" and "map (lm_Pool m) bs = map Some es" and "lm_Count m = n"
    and "finite (dom lost)" and "set bs \<inter> dom lost = {}"
    and "\<forall>b. b \<notin> set bs \<longrightarrow> lm_Pool m b = lost b"
  using assms by (auto simp: represents_def holds_def)

lemma pool_at: "map (lm_Pool m) bs = map Some es \<Longrightarrow> b \<in> set bs \<Longrightarrow> lm_Pool m b \<noteq> None"
  by (induction bs arbitrary: es) (auto simp: Cons_eq_map_conv)

lemma represents_finite:
  assumes "represents lost m es n"
  shows "finite (dom (lm_Pool m))"
proof -
  obtain bs where "finite (dom lost)" and rest: "\<forall>b. b \<notin> set bs \<longrightarrow> lm_Pool m b = lost b"
    using assms by (rule representsE)
  moreover have "dom (lm_Pool m) \<subseteq> set bs \<union> dom lost" using rest by (force simp: dom_def)
  ultimately show ?thesis by (meson List.finite_set finite_UnI finite_subset)
qed

text \<open>An allocation never returns a block in use; its outcome is one the pool can have.\<close>

definition fresh_pool :: "block_pool \<Rightarrow> bool" where
  "fresh_pool pool \<longleftrightarrow> (\<forall>i used b. finite used \<and> pool i used = Some b \<longrightarrow> b \<notin> used)"

definition pool_outcome :: "block_pool \<Rightarrow> (nat \<Rightarrow> bool) \<Rightarrow> bool" where
  "pool_outcome pool alloc \<longleftrightarrow> (\<forall>i. \<exists>used. finite used \<and> (alloc i \<longleftrightarrow> pool i used \<noteq> None))"

lemma pool_outcome_at: "finite used \<Longrightarrow> pool_outcome pool (\<lambda>i. pool i used \<noteq> None)"
  by (auto simp: pool_outcome_def)

lemma pool_outcome_update:
  "pool_outcome pool alloc \<Longrightarrow> finite used \<Longrightarrow> pool_outcome pool (alloc(i := pool i used \<noteq> None))"
  by (auto simp: pool_outcome_def)

text \<open>What a traversal finds: nothing, or the first block whose entry satisfies the condition.\<close>

definition first_match :: "('e \<Rightarrow> bool) \<Rightarrow> 'e list \<Rightarrow> nat list \<Rightarrow> nat option \<Rightarrow> bool" where
  "first_match P es bs r \<longleftrightarrow>
     (case r of
        None \<Rightarrow> list_all (\<lambda>e. \<not> P e) es
      | Some b \<Rightarrow> \<exists>bs1 bs2 es1 e es2. bs = bs1 @ b # bs2 \<and> es = es1 @ e # es2 \<and>
          length bs1 = length es1 \<and> P e \<and> list_all (\<lambda>e. \<not> P e) es1)"

lemma first_match_here: "P e \<Longrightarrow> first_match P (e # es) (b # bs) (Some b)"
  unfolding first_match_def
  by (simp, intro exI [of _ "[]"] exI [of _ bs] exI [of _ "[]"] exI [of _ e] exI [of _ es]) simp

lemma first_match_later:
  assumes "\<not> P e" and "first_match P es bs r"
  shows "first_match P (e # es) (b # bs) r"
proof (cases r)
  case None
  then show ?thesis using assms by (simp add: first_match_def)
next
  case (Some b')
  then obtain bs1 bs2 es1 e' es2 where "bs = bs1 @ b' # bs2" "es = es1 @ e' # es2"
    "length bs1 = length es1" "P e'" "list_all (\<lambda>e. \<not> P e) es1"
    using assms(2) by (auto simp: first_match_def)
  then show ?thesis using assms(1) unfolding first_match_def Some option.case
    by (intro exI [of _ "b # bs1"] exI [of _ bs2] exI [of _ "e # es1"] exI [of _ e']
        exI [of _ es2]) simp
qed

lemma scan_loop_segment:
  assumes "segment m x (map Block bs) Head" and "map (lm_Pool m) bs = map Some es"
  shows "\<exists>r. scan_loop P m (lm_Flink m x) = Some (Inr r) \<and> first_match P es bs r"
  using assms
proof (induction bs arbitrary: x es)
  case Nil
  then show ?case by (auto simp: scan_loop.simps first_match_def)
next
  case (Cons b bs)
  then obtain e es' where es: "es = e # es'" and pool: "lm_Pool m b = Some e"
    and rest: "map (lm_Pool m) bs = map Some es'" by (cases es) auto
  have link: "lm_Flink m x = Block b" and seg: "segment m (Block b) (map Block bs) Head"
    using Cons.prems(1) by simp_all
  note step = scan_loop.simps [of P m "Block b"]
  show ?case
  proof (cases "P e")
    case True
    then show ?thesis using first_match_here [of P e es' b bs] by (auto simp: link pool step es)
  next
    case False
    then show ?thesis
      using Cons.IH [OF seg rest] first_match_later [of P e es' bs] by (auto simp: link pool step es)
  qed
qed

lemma ring_scan:
  assumes "ring m bs" and "map (lm_Pool m) bs = map Some es"
  obtains (absent) "scan_loop P m (lm_Flink m Head) = Some (Inr None)"
      and "list_all (\<lambda>e. \<not> P e) es"
  | (found) bs1 b bs2 es1 e es2 where "scan_loop P m (lm_Flink m Head) = Some (Inr (Some b))"
      and "bs = bs1 @ b # bs2" and "es = es1 @ e # es2" and "length bs1 = length es1" and "P e"
      and "list_all (\<lambda>e. \<not> P e) es1"
proof -
  obtain r where r: "scan_loop P m (lm_Flink m Head) = Some (Inr r)" and "first_match P es bs r"
    using assms scan_loop_segment [of m Head bs es P] by (auto simp: ring_def)
  then show thesis using that unfolding first_match_def by (cases r) auto
qed

lemma find_absent: "list_all (\<lambda>e. \<not> P e) es \<Longrightarrow> List.find P es = None"
  by (auto simp: find_None_iff list_all_iff)

lemma find_at:
  "es = es1 @ e # es2 \<Longrightarrow> P e \<Longrightarrow> list_all (\<lambda>e. \<not> P e) es1 \<Longrightarrow> List.find P es = Some e"
  by (induction es1 arbitrary: es) auto

text \<open>The lookups find what they find in the list.\<close>

lemma represents_lookup:
  assumes "represents lost m es n"
  shows "table_lookup P m = Some (Inr (List.find P es))"
proof -
  obtain bs where ring: "ring m bs" and pool: "map (lm_Pool m) bs = map Some es"
    using assms by (rule representsE)
  from ring pool show ?thesis
  proof (cases rule: ring_scan [of m bs es P])
    case absent
    then show ?thesis by (simp add: table_lookup_def find_absent)
  next
    case (found bs1 b bs2 es1 e es2)
    then have "lm_Pool m b = Some e" using pool by simp
    then show ?thesis using found find_at [of es es1 e es2 P] by (simp add: table_lookup_def)
  qed
qed

end
