(* ===== verification/Pool_Refinement.thy ===== *)
theory Pool_Refinement
  imports Pool_Tables
begin

text \<open>
  The operations of Pool\_Tables refine those of App\_Policy and Route\_Assignment. The contract
  listed\_table says what each operation of a table does to its list of entries and its counter; the
  refinement is proved once from it and from the contract of the list routines.
\<close>

section \<open>The contract of a table as a list\<close>

locale listed_table =
  fixes c :: "'e entry_class" and fs :: "('e, 't) table_functions"
    and els :: "'t \<Rightarrow> 'e list" and cnt :: "'t \<Rightarrow> u32" and empty :: 't
    and loop :: "(nat \<Rightarrow> bool) \<Rightarrow> (nat \<Rightarrow> 'e cell) \<Rightarrow> nat \<Rightarrow> nat \<Rightarrow> 't \<Rightarrow> fault + (ntstatus \<times> 't)"
  assumes els_empty: "els empty = []"
    and cnt_empty: "cnt empty = 0"
    and capacity: "ec_MaxEntries c \<noteq> 0"
    and set_null: "tf_Set fs a None t = (STATUS_INVALID_PARAMETER, t)"
    and set_version: "ec_Version c e \<noteq> ec_CurrentVersion c \<Longrightarrow>
      tf_Set fs a (Some e) t = (STATUS_INVALID_PARAMETER, t)"
    and set_no_memory: "ec_Version c e = ec_CurrentVersion c \<Longrightarrow>
      tf_Set fs False (Some e) t = (STATUS_INSUFFICIENT_RESOURCES, t)"
    and set_found: "ec_Version c e = ec_CurrentVersion c \<Longrightarrow> els t = es1 @ x # es2 \<Longrightarrow>
      same_app_id (ec_AppId c x) (ec_AppId c e) \<Longrightarrow>
      list_all (\<lambda>y. \<not> same_app_id (ec_AppId c y) (ec_AppId c e)) es1 \<Longrightarrow>
      \<exists>t'. tf_Set fs True (Some e) t = (STATUS_SUCCESS, t') \<and> els t' = es1 @ e # es2 \<and> cnt t' = cnt t"
    and set_full: "ec_Version c e = ec_CurrentVersion c \<Longrightarrow>
      list_all (\<lambda>y. \<not> same_app_id (ec_AppId c y) (ec_AppId c e)) (els t) \<Longrightarrow>
      ec_MaxEntries c \<le> cnt t \<Longrightarrow>
      tf_Set fs True (Some e) t = (STATUS_INSUFFICIENT_RESOURCES, t)"
    and set_append: "ec_Version c e = ec_CurrentVersion c \<Longrightarrow>
      list_all (\<lambda>y. \<not> same_app_id (ec_AppId c y) (ec_AppId c e)) (els t) \<Longrightarrow>
      \<not> ec_MaxEntries c \<le> cnt t \<Longrightarrow>
      \<exists>t'. tf_Set fs True (Some e) t = (STATUS_SUCCESS, t') \<and> els t' = els t @ [e] \<and>
        cnt t' = cnt t + 1"
    and remove_found: "els t = es1 @ x # es2 \<Longrightarrow> same_app_id (ec_AppId c x) k \<Longrightarrow>
      list_all (\<lambda>y. \<not> same_app_id (ec_AppId c y) k) es1 \<Longrightarrow>
      \<exists>t'. tf_Remove fs k t = (STATUS_SUCCESS, t') \<and> els t' = es1 @ es2 \<and> cnt t' = cnt t - 1"
    and remove_absent: "list_all (\<lambda>y. \<not> same_app_id (ec_AppId c y) k) (els t) \<Longrightarrow>
      tf_Remove fs k t = (STATUS_NOT_FOUND, t)"
    and sync_null: "tf_Sync fs alloc None count t = Inr (STATUS_INVALID_PARAMETER, t)"
    and sync_limit: "ec_MaxSync c < count \<Longrightarrow>
      tf_Sync fs alloc (Some rd) count t = Inr (STATUS_INVALID_PARAMETER, t)"
    and sync_refill: "\<not> ec_MaxSync c < count \<Longrightarrow>
      tf_Sync fs alloc (Some rd) count t = loop alloc rd 0 (unat count) empty"
    and refill_done: "loop alloc rd i 0 t = Inr (STATUS_SUCCESS, t)"
    and refill_step: "rd i = Readable e \<Longrightarrow> tf_Set fs (alloc i) (Some e) t = (s, t') \<Longrightarrow>
      loop alloc rd i (Suc n) t =
        (if NT_SUCCESS s then loop alloc rd (Suc i) n t' else Inr (s, t'))"

lemma replace_first_at:
  "P x \<Longrightarrow> list_all (\<lambda>y. \<not> P y) es1 \<Longrightarrow> replace_first P e (es1 @ x # es2) = es1 @ e # es2"
  by (induction es1) auto

lemma remove_first_at:
  "P x \<Longrightarrow> list_all (\<lambda>y. \<not> P y) es1 \<Longrightarrow> remove_first P (es1 @ x # es2) = es1 @ es2"
  by (induction es1) auto

interpretation policy_listed: listed_table policy_class policy_functions pt_list pt_count
  GuardianAppPolicyInitialize policy_sync_loop
  by unfold_locales (simp_all add: policy_functions_def policy_class_def GuardianAppPolicySet_def
    GuardianAppPolicyRemove_def GuardianPolicyFindLocked_def key_find_def find_at find_absent
    replace_first_at remove_first_at GuardianAppPolicyInitialize_def GuardianAppPolicySync_def
    GUARDIAN_MAX_POLICIES_def)

interpretation route_listed: listed_table route_class route_functions rt_list rt_count
  GuardianRouteInitialize route_sync_loop
  by unfold_locales (simp_all add: route_functions_def route_class_def GuardianRouteSet_def
    GuardianRouteClear_def GuardianRouteFindLocked_def key_find_def find_at find_absent
    replace_first_at remove_first_at GuardianRouteInitialize_def GuardianRouteSync_def
    GUARDIAN_MAX_ROUTES_def)

section \<open>The refinement\<close>

locale pool_refinement = list_routines api + listed_table c fs els cnt empty loop
  for api :: "'e list_api" and c :: "'e entry_class" and fs :: "('e, 't) table_functions"
    and els and cnt and empty and loop
begin

definition table_at :: "(nat \<rightharpoonup> 'e) \<Rightarrow> 'e list_memory \<Rightarrow> 't \<Rightarrow> bool" where
  "table_at lost m t \<longleftrightarrow> represents lost m (els t) (cnt t)"

lemma table_at_finite: "table_at lost m t \<Longrightarrow> finite (dom (lm_Pool m))"
  unfolding table_at_def by (rule represents_finite)

lemma initialize_refines:
  assumes "lm_Pool m = lost" and "finite (dom lost)"
  shows "table_at lost (table_initialize api m) empty"
  using initialize [of m] assms
  by (auto simp: table_at_def represents_def holds_def table_initialize_def els_empty
      cnt_empty same_data_def intro!: exI [of _ "[]"])

lemma initialize_empty:
  "lm_Pool m = Map.empty \<Longrightarrow> table_at Map.empty (table_initialize api m) empty"
  by (simp add: initialize_refines)

text \<open>
  A set with a block: the block ends up in the ring or is released, whatever the traversal finds.
\<close>

lemma set_allocated:
  assumes "table_at lost m t" and fresh: "b \<notin> dom (lm_Pool m)"
    and version: "ec_Version c p = ec_CurrentVersion c"
  shows "\<exists>s m' t'. table_set api c (Some b) (Some p) m = Some (Inr (s, m')) \<and>
    tf_Set fs True (Some p) t = (s, t') \<and> table_at lost m' t'"
proof -
  let ?P = "\<lambda>x. same_app_id (ec_AppId c x) (ec_AppId c p)" and ?es = "els t"
  let ?m1 = "m\<lparr>lm_Pool := (lm_Pool m)(b \<mapsto> p)\<rparr>"
  obtain bs where ring: "ring m bs" and pool: "map (lm_Pool m) bs = map Some ?es"
    and count: "lm_Count m = cnt t" and fin: "finite (dom lost)" and apart: "set bs \<inter> dom lost = {}"
    and rest: "\<forall>b. b \<notin> set bs \<longrightarrow> lm_Pool m b = lost b"
    using assms(1) unfolding table_at_def by (rule representsE)
  have b: "b \<notin> set bs" using fresh pool_at [OF pool] by blast
  have b_lost: "b \<notin> dom lost" using rest b fresh by (simp add: dom_def)
  have pool1: "map (lm_Pool ?m1) bs = map Some ?es" using pool b by simp
  note defs = table_set_def find_locked_def version free_then_def free_block_def count
  have "ring ?m1 bs" using ring by simp
  from this pool1 show ?thesis
  proof (cases rule: ring_scan [of ?m1 bs ?es ?P])
    case absent
    show ?thesis
    proof (cases "ec_MaxEntries c \<le> cnt t")
      case True
      have "(lm_Pool m)(b := None) = lm_Pool m" using fresh by auto
      then show ?thesis using absent set_full [OF version absent(2) True] assms(1) True
        by (simp add: defs)
    next
      case False
      obtain t' where t': "tf_Set fs True (Some p) t = (STATUS_SUCCESS, t')"
        "els t' = ?es @ [p]" "cnt t' = cnt t + 1"
        using set_append [OF version absent(2) False] by blast
      have "holds lost ((la_InsertTail api (Block b) ?m1)\<lparr>lm_Count := cnt t + 1\<rparr>) (bs @ [b])
          (?es @ [p]) (cnt t + 1)"
        using insert_tail [of ?m1 bs b] ring b pool1 fin apart b_lost rest
        by (auto simp: holds_def same_data_def)
      then show ?thesis using absent False t' insert_tail [of ?m1 bs b] ring b
        by (auto simp: defs Let_def table_at_def represents_def same_data_def)
    qed
  next
    case (found bs1 b' bs2 es1 x es2)
    obtain t' where t': "tf_Set fs True (Some p) t = (STATUS_SUCCESS, t')"
      "els t' = es1 @ p # es2" "cnt t' = cnt t"
      using set_found [OF version found(3,5,6)] by blast
    have d: "distinct bs" using ring by (rule ring_distinct)
    have "holds lost (m\<lparr>lm_Pool := (lm_Pool m)(b' \<mapsto> p)\<rparr>) bs (es1 @ p # es2) (cnt t)"
      using ring pool count found d fin apart rest by (auto simp: holds_def)
    moreover have "((lm_Pool m)(b \<mapsto> p, b' \<mapsto> p))(b := None) = (lm_Pool m)(b' \<mapsto> p)"
      using fresh b found(2) by (auto simp: fun_eq_iff)
    ultimately show ?thesis using found t' b
      by (auto simp: defs Let_def table_at_def represents_def)
  qed
qed

lemma set_refines:
  assumes "table_at lost m t" and "\<And>b. entry = Some b \<Longrightarrow> b \<notin> dom (lm_Pool m)"
  shows "\<exists>s m' t'. table_set api c entry e m = Some (Inr (s, m')) \<and>
    tf_Set fs (entry \<noteq> None) e t = (s, t') \<and> table_at lost m' t'"
proof (cases e)
  case None
  then show ?thesis using assms(1) by (simp add: table_set_def set_null)
next
  case e: (Some p)
  show ?thesis
  proof (cases "ec_Version c p = ec_CurrentVersion c")
    case False
    then show ?thesis using assms(1) e by (simp add: table_set_def set_version)
  next
    case version: True
    show ?thesis
    proof (cases entry)
      case None
      then show ?thesis using assms(1) e version by (simp add: table_set_def set_no_memory)
    next
      case (Some b)
      then show ?thesis using assms set_allocated [of lost m t b p] e version by simp
    qed
  qed
qed

lemma remove_refines:
  assumes "table_at lost m t"
  shows "\<exists>s m' t'. table_remove api c k m = Some (Inr (s, m')) \<and> tf_Remove fs k t = (s, t') \<and>
    table_at lost m' t'"
proof -
  let ?P = "\<lambda>x. same_app_id (ec_AppId c x) k" and ?es = "els t"
  obtain bs where ring: "ring m bs" and pool: "map (lm_Pool m) bs = map Some ?es"
    and count: "lm_Count m = cnt t" and fin: "finite (dom lost)" and apart: "set bs \<inter> dom lost = {}"
    and rest: "\<forall>b. b \<notin> set bs \<longrightarrow> lm_Pool m b = lost b"
    using assms unfolding table_at_def by (rule representsE)
  note defs = table_remove_def find_locked_def free_then_def free_block_def count
  from ring pool show ?thesis
  proof (cases rule: ring_scan [of m bs ?es ?P])
    case absent
    then show ?thesis using assms remove_absent [OF absent(2)] by (simp add: defs)
  next
    case (found bs1 b bs2 es1 x es2)
    obtain t' where t': "tf_Remove fs k t = (STATUS_SUCCESS, t')" "els t' = es1 @ es2"
      "cnt t' = cnt t - 1"
      using remove_found [OF found(3,5,6)] by blast
    let ?m1 = "la_RemoveEntry api (Block b) m"
    have m1: "ring ?m1 (bs1 @ bs2)" "lm_Pool ?m1 = lm_Pool m" "lm_Count ?m1 = lm_Count m"
      using remove_entry [of m bs1 b bs2] ring found(2) by (simp_all add: same_data_def)
    have d: "distinct (bs1 @ b # bs2)" using ring_distinct [OF ring] found(2) by simp
    have "lm_Pool m b \<noteq> None" using pool_at [OF pool] found(2) by simp
    moreover have "lost b = None" using apart found(2) by auto
    then have "holds lost (?m1\<lparr>lm_Count := cnt t - 1, lm_Pool := (lm_Pool m)(b := None)\<rparr>)
        (bs1 @ bs2) (es1 @ es2) (cnt t - 1)"
      using m1 pool found(2-4) d fin apart rest by (auto simp: holds_def)
    ultimately show ?thesis using found m1 t'
      by (auto simp: defs Let_def table_at_def represents_def)
  qed
qed

lemma shutdown_loop_empties:
  "ring m bs \<Longrightarrow> \<forall>b \<in> set bs. lm_Pool m b \<noteq> None \<and> lost b = None \<Longrightarrow>
     \<forall>b. b \<notin> set bs \<longrightarrow> lm_Pool m b = lost b \<Longrightarrow>
     \<exists>m'. shutdown_loop api m = Some (Inr m') \<and> lm_Pool m' = lost \<and> ring m' []"
proof (induction bs arbitrary: m)
  case Nil
  then show ?case using is_empty [of m "[]"]
    by (auto simp: shutdown_loop.simps [of api m] fun_eq_iff)
next
  case (Cons b bs)
  obtain m1 where m1: "la_RemoveHead api m = (Block b, m1)" "ring m1 bs" "lm_Pool m1 = lm_Pool m"
    using remove_head [OF Cons.prems(1)] by (auto simp: same_data_def)
  let ?m2 = "m1\<lparr>lm_Pool := (lm_Pool m)(b := None)\<rparr>"
  have "b \<notin> set bs" using Cons.prems(1) by (simp add: ring_def)
  then have "\<exists>m'. shutdown_loop api ?m2 = Some (Inr m') \<and> lm_Pool m' = lost \<and> ring m' []"
    using m1(2) Cons.prems(2,3) by (intro Cons.IH) auto
  moreover have "lm_Pool m b \<noteq> None" using Cons.prems(2) by simp
  ultimately show ?case using m1 is_empty [OF Cons.prems(1)]
    by (auto simp: shutdown_loop.simps [of api m] free_block_def)
qed

lemma shutdown_empties:
  assumes "table_at lost m t"
  obtains m' where "table_shutdown api m = Some (Inr m')" and "lm_Pool m' = lost"
    and "lm_Count m' = 0" and "ring m' []"
proof -
  obtain bs where bs: "ring m bs" "map (lm_Pool m) bs = map Some (els t)" "set bs \<inter> dom lost = {}"
    "\<forall>b. b \<notin> set bs \<longrightarrow> lm_Pool m b = lost b"
    using assms unfolding table_at_def by (rule representsE)
  have "\<forall>b \<in> set bs. lm_Pool m b \<noteq> None \<and> lost b = None"
    using pool_at [OF bs(2)] bs(3) by blast
  from shutdown_loop_empties [OF bs(1) this bs(4)] obtain m' where
    "shutdown_loop api m = Some (Inr m')" "lm_Pool m' = lost" "ring m' []" by blast
  then show thesis using that [of "m'\<lparr>lm_Count := 0\<rparr>"] by (simp add: table_shutdown_def)
qed

lemma refill_outcomes:
  "(\<And>j. i \<le> j \<Longrightarrow> alloc j = alloc' j) \<Longrightarrow>
     loop alloc (\<lambda>j. Readable (es j)) i n t = loop alloc' (\<lambda>j. Readable (es j)) i n t"
proof (induction n arbitrary: i t)
  case 0
  then show ?case by (simp add: refill_done)
next
  case (Suc n)
  obtain s t' where st: "tf_Set fs (alloc i) (Some (es i)) t = (s, t')" by fastforce
  moreover have "alloc i = alloc' i" using Suc.prems by simp
  moreover have "loop alloc (\<lambda>j. Readable (es j)) (Suc i) n t' = loop alloc' (\<lambda>j. Readable (es j)) (Suc i) n t'"
    using Suc.IH [of "Suc i" t'] Suc.prems by simp
  ultimately show ?case
    using refill_step [of "\<lambda>j. Readable (es j)" i "es i" alloc t s t' n]
      refill_step [of "\<lambda>j. Readable (es j)" i "es i" alloc' t s t' n] by simp
qed

lemma sync_loop_refines:
  assumes "fresh_pool pool" and "table_at lost m t"
  shows "\<exists>s m' t' alloc. table_sync_loop api c pool es i n m = Some (Inr (s, m')) \<and>
    loop alloc (\<lambda>j. Readable (es j)) i n t = Inr (s, t') \<and> table_at lost m' t' \<and> pool_outcome pool alloc"
  using assms(2)
proof (induction n arbitrary: i m t)
  case 0
  then show ?case
    using pool_outcome_at [of "{}" pool] by (auto simp: refill_done)
next
  case (Suc n)
  let ?entry = "pool i (dom (lm_Pool m))"
  obtain s m1 t1 where step: "table_set api c ?entry (Some (es i)) m = Some (Inr (s, m1))"
    "tf_Set fs (?entry \<noteq> None) (Some (es i)) t = (s, t1)" "table_at lost m1 t1"
    using set_refines [OF Suc.prems, of ?entry "Some (es i)"] assms(1) table_at_finite [OF Suc.prems]
    by (auto simp: fresh_pool_def)
  note used = table_at_finite [OF Suc.prems]
  show ?case
  proof (cases "NT_SUCCESS s")
    case False
    let ?alloc = "\<lambda>j. pool j (dom (lm_Pool m)) \<noteq> None"
    have "loop ?alloc (\<lambda>j. Readable (es j)) i (Suc n) t = Inr (s, t1)"
      using refill_step [of "\<lambda>j. Readable (es j)" i "es i" ?alloc, OF _ step(2)] False by simp
    moreover have "pool_outcome pool ?alloc" by (rule pool_outcome_at [OF used])
    ultimately show ?thesis using step(1,3) False
      by (intro exI [of _ s] exI [of _ m1] exI [of _ t1] exI [of _ ?alloc]) simp
  next
    case True
    obtain s' m' t' alloc where rest:
      "table_sync_loop api c pool es (Suc i) n m1 = Some (Inr (s', m'))"
      "loop alloc (\<lambda>j. Readable (es j)) (Suc i) n t1 = Inr (s', t')" "table_at lost m' t'"
      "pool_outcome pool alloc"
      using Suc.IH [OF step(3), of "Suc i"] by blast
    let ?alloc = "alloc(i := ?entry \<noteq> None)"
    have "loop ?alloc (\<lambda>j. Readable (es j)) i (Suc n) t = Inr (s', t')"
      using refill_step [of "\<lambda>j. Readable (es j)" i "es i" ?alloc t s t1 n] step(2) True rest(2)
        refill_outcomes [of "Suc i" ?alloc alloc es n t1] by simp
    moreover have "pool_outcome pool ?alloc" by (rule pool_outcome_update [OF rest(4) used])
    ultimately show ?thesis using step(1) True rest(1,3) by auto
  qed
qed

lemma call_refines:
  assumes "fresh_pool pool" and "table_at lost m t"
  shows "\<exists>s m' t' alloc. memory_call api c pool call m = Some (Inr (s, m')) \<and>
    function_call fs alloc call t = Inr (s, t') \<and> table_at lost m' t' \<and> pool_outcome pool alloc"
proof (cases call)
  case (CallSet e)
  let ?alloc = "\<lambda>j. pool j (dom (lm_Pool m)) \<noteq> None"
  have "pool_outcome pool ?alloc" by (rule pool_outcome_at [OF table_at_finite [OF assms(2)]])
  then show ?thesis
    using set_refines [OF assms(2), of "pool 0 (dom (lm_Pool m))" e] assms(1) CallSet
      table_at_finite [OF assms(2)]
    by (force simp: fresh_pool_def)
next
  case (CallRemove k)
  have "pool_outcome pool (\<lambda>j. pool j {} \<noteq> None)" by (rule pool_outcome_at) simp
  then show ?thesis using remove_refines [OF assms(2), of k] CallRemove by auto
next
  case (CallSync elements count)
  have outcome: "pool_outcome pool (\<lambda>j. pool j {} \<noteq> None)" by (rule pool_outcome_at) simp
  consider "elements = None \<or> ec_MaxSync c < count" 
    | es where "elements = Some es" and "\<not> ec_MaxSync c < count" by (cases elements) auto
  then show ?thesis
  proof cases
    case 1
    then show ?thesis using outcome assms(2) CallSync
      by (auto simp: table_sync_def sync_null sync_limit split: option.splits)
  next
    case 2
    obtain m1 where m1: "table_shutdown api m = Some (Inr m1)" "lm_Pool m1 = lost"
      using shutdown_empties [OF assms(2)] by blast
    have fin: "finite (dom lost)" using assms(2) unfolding table_at_def by (blast elim: representsE)
    show ?thesis
      using sync_loop_refines [OF assms(1) initialize_refines [OF m1(2) fin], of es 0 "unat count"]
        m1(1) 2 CallSync by (auto simp: table_sync_def sync_refill)
  qed
qed

lemma calls_refine:
  assumes "list_all fresh_pool (map fst calls)" and "table_at lost m t"
  shows "\<exists>ss m' t' allocs. memory_calls api c calls m = Some (Inr (ss, m')) \<and>
    list_all2 pool_outcome (map fst calls) allocs \<and>
    function_calls fs (zip allocs (map snd calls)) t = Inr (ss, t') \<and> table_at lost m' t'"
  using assms
proof (induction calls arbitrary: m t)
  case Nil
  then show ?case by auto
next
  case (Cons x calls)
  obtain pool call where x: "x = (pool, call)" by fastforce
  obtain s m1 t1 alloc where step: "memory_call api c pool call m = Some (Inr (s, m1))"
    "function_call fs alloc call t = Inr (s, t1)" "table_at lost m1 t1" "pool_outcome pool alloc"
    using call_refines [of pool lost m t call] Cons.prems x by auto
  obtain ss m' t' allocs where "memory_calls api c calls m1 = Some (Inr (ss, m'))"
    "list_all2 pool_outcome (map fst calls) allocs"
    "function_calls fs (zip allocs (map snd calls)) t1 = Inr (ss, t')" "table_at lost m' t'"
    using Cons.IH [OF _ step(3)] Cons.prems(1) by auto
  with step x show ?case
    by (intro exI [of _ "s # ss"] exI [of _ m'] exI [of _ t'] exI [of _ "alloc # allocs"]) simp
qed

text \<open>Up to the shutdown.\<close>

lemma calls_until_shutdown:
  assumes "list_all fresh_pool (map fst calls)" and "table_at lost m t"
  shows "\<exists>ss m1 m2 t' allocs. memory_calls api c calls m = Some (Inr (ss, m1)) \<and>
    list_all2 pool_outcome (map fst calls) allocs \<and>
    function_calls fs (zip allocs (map snd calls)) t = Inr (ss, t') \<and>
    represents lost m1 (els t') (cnt t') \<and>
    (\<forall>P. table_lookup P m1 = Some (Inr (List.find P (els t')))) \<and>
    table_shutdown api m1 = Some (Inr m2) \<and> lm_Pool m2 = lost \<and> lm_Count m2 = 0"
proof -
  obtain ss m1 t' allocs where run: "memory_calls api c calls m = Some (Inr (ss, m1))"
    "list_all2 pool_outcome (map fst calls) allocs"
    "function_calls fs (zip allocs (map snd calls)) t = Inr (ss, t')" "table_at lost m1 t'"
    using calls_refine [OF assms] by blast
  moreover obtain m2 where "table_shutdown api m1 = Some (Inr m2)" "lm_Pool m2 = lost"
    "lm_Count m2 = 0" using shutdown_empties [OF run(4)] by blast
  moreover have "table_lookup P m1 = Some (Inr (List.find P (els t')))" for P
    using run(4) unfolding table_at_def by (rule represents_lookup)
  ultimately show ?thesis unfolding table_at_def by blast
qed

text \<open>
  A set between the two unlocked halves of a sync: its block is linked, then the head forgets it.
\<close>

lemma set_before_initialize:
  assumes "table_at lost m t" and "ec_Version c p = ec_CurrentVersion c" and "b \<notin> dom lost"
  shows "\<exists>m1 m2. table_shutdown api m = Some (Inr m1) \<and>
    table_set api c (Some b) (Some p) m1 = Some (Inr (STATUS_SUCCESS, m2)) \<and>
    table_at (lost(b \<mapsto> p)) (table_initialize api m2) empty"
proof -
  obtain m1 where m1: "table_shutdown api m = Some (Inr m1)" "lm_Pool m1 = lost"
    "lm_Count m1 = 0" "ring m1 []" using shutdown_empties [OF assms(1)] by blast
  let ?m = "m1\<lparr>lm_Pool := lost(b \<mapsto> p)\<rparr>"
  let ?m2 = "(la_InsertTail api (Block b) ?m)\<lparr>lm_Count := 1\<rparr>"
  have ring: "ring ?m []" using m1(4) by simp
  have "find_locked c (ec_AppId c p) ?m = Some (Inr None)"
    using ring by (simp add: find_locked_def scan_loop.simps ring_def)
  then have "table_set api c (Some b) (Some p) m1 = Some (Inr (STATUS_SUCCESS, ?m2))"
    using insert_tail [OF ring, of b] m1(2,3) assms(2) capacity
    by (simp add: table_set_def Let_def same_data_def not_le)
  moreover have "finite (dom lost)"
    using assms(1) unfolding table_at_def by (blast elim: representsE)
  then have "table_at (lost(b \<mapsto> p)) (table_initialize api ?m2) empty"
    using insert_tail [OF ring, of b] by (intro initialize_refines) (simp_all add: same_data_def)
  ultimately show ?thesis using m1(1) by blast
qed

lemma set_in_sync_leaks:
  assumes "represents Map.empty m (els t) (cnt t)" and "ec_Version c p = ec_CurrentVersion c"
    and "fresh_pool pool" and "list_all fresh_pool (map fst calls)"
  shows "\<exists>m1 m2 s m3 t3 alloc ss m4 m5. table_shutdown api m = Some (Inr m1) \<and>
    table_set api c (Some b) (Some p) m1 = Some (Inr (STATUS_SUCCESS, m2)) \<and>
    table_sync_loop api c pool es 0 n (table_initialize api m2) = Some (Inr (s, m3)) \<and>
    loop alloc (\<lambda>j. Readable (es j)) 0 n empty = Inr (s, t3) \<and>
    represents [b \<mapsto> p] m3 (els t3) (cnt t3) \<and>
    memory_calls api c calls m3 = Some (Inr (ss, m4)) \<and>
    table_shutdown api m4 = Some (Inr m5) \<and> lm_Pool m5 = [b \<mapsto> p]"
proof -
  obtain m1 m2 where window: "table_shutdown api m = Some (Inr m1)"
    "table_set api c (Some b) (Some p) m1 = Some (Inr (STATUS_SUCCESS, m2))"
    "table_at [b \<mapsto> p] (table_initialize api m2) empty"
    using set_before_initialize [of Map.empty m t p b] assms(1,2) by (auto simp: table_at_def)
  obtain s m3 t3 alloc where refill:
    "table_sync_loop api c pool es 0 n (table_initialize api m2) = Some (Inr (s, m3))"
    "loop alloc (\<lambda>j. Readable (es j)) 0 n empty = Inr (s, t3)" "table_at [b \<mapsto> p] m3 t3"
    using sync_loop_refines [OF assms(3) window(3), of es 0 n] by blast
  from calls_until_shutdown [OF assms(4) refill(3)] obtain ss m4 m5 where
    "memory_calls api c calls m3 = Some (Inr (ss, m4))"
    "table_shutdown api m4 = Some (Inr m5)" "lm_Pool m5 = [b \<mapsto> p]" by blast
  with window(1,2) refill show ?thesis unfolding table_at_def by blast
qed

end

interpretation policy_pool: pool_refinement wdm_list_api policy_class policy_functions pt_list
  pt_count GuardianAppPolicyInitialize policy_sync_loop ..

interpretation route_pool: pool_refinement wdm_list_api route_class route_functions rt_list
  rt_count GuardianRouteInitialize route_sync_loop ..

section \<open>Properties\<close>

lemmas policy_pools = pool_refinement.intro [OF _ policy_listed.listed_table_axioms]
lemmas route_pools = pool_refinement.intro [OF _ route_listed.listed_table_axioms]

lemma route_memory_implements_table:
  assumes "list_routines api" and "lm_Pool m = Map.empty" and "list_all fresh_pool (map fst calls)"
  shows "\<exists>ss m1 m2 t allocs.
    memory_calls api route_class calls (table_initialize api m) = Some (Inr (ss, m1)) \<and>
    list_all2 pool_outcome (map fst calls) allocs \<and>
    function_calls route_functions (zip allocs (map snd calls)) GuardianRouteInitialize =
      Inr (ss, t) \<and>
    represents Map.empty m1 (rt_list t) (rt_count t) \<and>
    (\<forall>k. table_lookup (\<lambda>r. same_app_id (ra_AppId r) k) m1 =
       Some (Inr (GuardianRouteFindLocked k t))) \<and>
    table_shutdown api m1 = Some (Inr m2) \<and> lm_Pool m2 = Map.empty \<and> lm_Count m2 = 0"
  using pool_refinement.calls_until_shutdown [OF route_pools [OF assms(1)] assms(3)
      pool_refinement.initialize_empty [OF route_pools [OF assms(1)] assms(2)]]
  unfolding GuardianRouteFindLocked_def key_find_def
  by - (elim exE conjE, intro exI conjI, assumption+, simp, assumption+)

text \<open>
  C5: In memory, with any list routines that keep their documented contract and any pool that
  never returns a block in use, every sequence of sets, removals and syncs of the policy table
  from its initialisation runs to its end, without using a released block or releasing one
  twice. The statuses, and the table that memory then holds, are those of the functions on lists
  for some outcomes the allocations can have; a lookup's traversal finds the policy that the
  lookup on lists finds; only the blocks of the list are allocated, and the shutdown releases
  them all.
\<close>

theorem policy_memory_implements_table:
  assumes "list_routines api" and "lm_Pool m = Map.empty" and "list_all fresh_pool (map fst calls)"
  shows "\<exists>ss m1 m2 t allocs.
    memory_calls api policy_class calls (table_initialize api m) = Some (Inr (ss, m1)) \<and>
    list_all2 pool_outcome (map fst calls) allocs \<and>
    function_calls policy_functions (zip allocs (map snd calls)) GuardianAppPolicyInitialize =
      Inr (ss, t) \<and>
    represents Map.empty m1 (pt_list t) (pt_count t) \<and>
    (\<forall>blob. table_lookup (policy_matches blob) m1 =
       Some (Inr (policy_lookup_loop blob (pt_list t)))) \<and>
    table_shutdown api m1 = Some (Inr m2) \<and> lm_Pool m2 = Map.empty \<and> lm_Count m2 = 0"
  using pool_refinement.calls_until_shutdown [OF policy_pools [OF assms(1)] assms(3)
      pool_refinement.initialize_empty [OF policy_pools [OF assms(1)] assms(2)]]
  unfolding policy_lookup_loop_find
  by - (elim exE conjE, intro exI conjI, assumption+, simp, assumption+)

text \<open>A pool that always has another block.\<close>

definition next_block :: block_pool where
  "next_block i used = Some (Suc (Max (insert 0 used)))"

lemma next_block_fresh: "fresh_pool next_block"
  unfolding fresh_pool_def
proof (intro allI impI)
  fix i b and used :: "nat set"
  assume b: "finite used \<and> next_block i used = Some b"
  then have "x \<le> Max (insert 0 used)" if "x \<in> used" for x
    using that by (intro Max_ge) auto
  then have "x < b" if "x \<in> used" for x
    using that b by (fastforce simp: next_block_def less_Suc_eq_le)
  then show "b \<notin> used" by blast
qed

lemma next_block_outcomes:
  "list_all2 pool_outcome (replicate n next_block) allocs \<Longrightarrow> allocs = replicate n (\<lambda>_. True)"
  by (induction n arbitrary: allocs) (auto simp: list_all2_Cons1 pool_outcome_def next_block_def)

theorem policy_memory_implements_table_witness:
  "\<exists>m1 m2. memory_calls wdm_list_api policy_class
      [(next_block, CallSet (Some (zero_app_policy\<lparr>ap_Version := 1\<rparr>))),
       (next_block, CallSet (Some (zero_app_policy\<lparr>ap_Version := 1, ap_Action := 2\<rparr>))),
       (next_block, CallSync (Some (\<lambda>i. zero_app_policy\<lparr>ap_Version := 1\<rparr>)) 1),
       (next_block, CallRemove (replicate 16 1))]
      (table_initialize wdm_list_api
         \<lparr>lm_Flink = \<lambda>_. Head, lm_Blink = \<lambda>_. Head, lm_Pool = Map.empty, lm_Count = 0\<rparr>) =
     Some (Inr ([STATUS_SUCCESS, STATUS_SUCCESS, STATUS_SUCCESS, STATUS_NOT_FOUND], m1)) \<and>
   table_lookup (policy_matches None) m1 = Some (Inr (Some (zero_app_policy\<lparr>ap_Version := 1\<rparr>))) \<and>
   table_shutdown wdm_list_api m1 = Some (Inr m2) \<and> lm_Pool m2 = Map.empty"
proof -
  let ?p = "zero_app_policy\<lparr>ap_Version := 1\<rparr>"
    and ?q = "zero_app_policy\<lparr>ap_Version := 1, ap_Action := 2\<rparr>"
    and ?m = "\<lparr>lm_Flink = \<lambda>_. Head, lm_Blink = \<lambda>_. Head, lm_Pool = Map.empty, lm_Count = 0\<rparr>"
    and ?statuses = "[STATUS_SUCCESS, STATUS_SUCCESS, STATUS_SUCCESS, STATUS_NOT_FOUND]"
  define calls where "calls = [(next_block, CallSet (Some ?p)), (next_block, CallSet (Some ?q)),
    (next_block, CallSync (Some (\<lambda>i. ?p)) 1), (next_block, CallRemove (replicate 16 1))]"
  have blocks: "map fst calls = replicate 4 next_block"
    by (simp add: calls_def numeral_eq_Suc)
  have one: "unat (1 :: u32) = Suc 0" by simp
  have zips: "zip (replicate 4 (\<lambda>_. True)) (map snd calls) =
    [(\<lambda>_. True, CallSet (Some ?p)), (\<lambda>_. True, CallSet (Some ?q)),
     (\<lambda>_. True, CallSync (Some (\<lambda>i. ?p)) 1), (\<lambda>_. True, CallRemove (replicate 16 1))]"
    by (simp add: calls_def eval_nat_numeral)
  have run: "function_calls policy_functions (zip (replicate 4 (\<lambda>_. True)) (map snd calls))
      GuardianAppPolicyInitialize = Inr (?statuses, \<lparr>pt_list = [?p], pt_count = 1\<rparr>)"
    unfolding zips policy_functions_def
    by (simp add: GuardianAppPolicySync_def one
        GUARDIAN_MAX_SYNC_POLICIES_def Let_def GuardianAppPolicySet_def
        GUARDIAN_APP_POLICY_VERSION_def GuardianPolicyFindLocked_def GuardianAppPolicyInitialize_def
        key_find_Cons GUARDIAN_MAX_POLICIES_def zero_app_policy_def GuardianAppPolicyRemove_def)
  obtain ss m1 m2 t allocs where
    mem: "memory_calls wdm_list_api policy_class calls (table_initialize wdm_list_api ?m) =
      Some (Inr (ss, m1))"
    and allocs: "list_all2 pool_outcome (map fst calls) allocs"
    and abs: "function_calls policy_functions (zip allocs (map snd calls))
      GuardianAppPolicyInitialize = Inr (ss, t)"
    and look: "table_lookup (policy_matches None) m1 = Some (Inr (policy_lookup_loop None (pt_list t)))"
    and down: "table_shutdown wdm_list_api m1 = Some (Inr m2)" "lm_Pool m2 = Map.empty"
    using policy_memory_implements_table [OF wdm.list_routines_axioms, of ?m calls]
      next_block_fresh by (auto simp: blocks list_all_iff)
  have "allocs = replicate 4 (\<lambda>_. True)"
    using allocs by (simp only: blocks next_block_outcomes)
  then have "ss = ?statuses" and "pt_list t = [?p]" using abs run by auto
  then show ?thesis using mem look down unfolding calls_def
    by (auto simp: zero_app_policy_def)
qed

text \<open>
  C16: The unlocked initialisation inside a sync also leaks memory: from any well-formed policy
  table, a \<open>SET_APP_POLICY\<close> of a policy of the current version whose allocation
  succeeds and that runs between the emptying and the initialisation of a sync succeeds, but its
  policy is in no table afterwards: the sync goes on to the table that it gives without it, and
  the block of the policy stays allocated through every later sequence of operations and through
  the shutdown of the driver.
\<close>

theorem policy_set_during_sync_leaks:
  assumes "list_routines api" and "represents Map.empty m (pt_list (t :: policy_table)) (pt_count t)"
    and "ap_Version p = GUARDIAN_APP_POLICY_VERSION"
    and "fresh_pool pool" and "list_all fresh_pool (map fst calls)"
  shows "\<exists>m1 m2 s m3 t3 alloc ss m4 m5. table_shutdown api m = Some (Inr m1) \<and>
    table_set api policy_class (Some b) (Some p) m1 = Some (Inr (STATUS_SUCCESS, m2)) \<and>
    table_sync_loop api policy_class pool es 0 n (table_initialize api m2) = Some (Inr (s, m3)) \<and>
    policy_sync_loop alloc (\<lambda>j. Readable (es j)) 0 n GuardianAppPolicyInitialize = Inr (s, t3) \<and>
    represents [b \<mapsto> p] m3 (pt_list t3) (pt_count t3) \<and>
    memory_calls api policy_class calls m3 = Some (Inr (ss, m4)) \<and>
    table_shutdown api m4 = Some (Inr m5) \<and> lm_Pool m5 = [b \<mapsto> p]"
proof -
  have "ec_Version policy_class p = ec_CurrentVersion policy_class"
    by (simp add: policy_class_def assms(3))
  from pool_refinement.set_in_sync_leaks [OF policy_pools [OF assms(1)], OF assms(2) this assms(4,5)]
  show ?thesis .
qed

theorem policy_set_during_sync_leaks_witness:
  "\<exists>m1 m2 m4 m5.
    table_shutdown wdm_list_api (table_initialize wdm_list_api
      \<lparr>lm_Flink = \<lambda>_. Head, lm_Blink = \<lambda>_. Head, lm_Pool = Map.empty, lm_Count = 0\<rparr>) =
      Some (Inr m1) \<and>
    table_set wdm_list_api policy_class (Some 7) (Some (zero_app_policy\<lparr>ap_Version := 1\<rparr>)) m1 =
      Some (Inr (STATUS_SUCCESS, m2)) \<and>
    table_shutdown wdm_list_api (table_initialize wdm_list_api m2) = Some (Inr m5) \<and>
    lm_Pool m5 = [7 \<mapsto> zero_app_policy\<lparr>ap_Version := 1\<rparr>]"
proof -
  let ?m = "table_initialize wdm_list_api
    \<lparr>lm_Flink = \<lambda>_. Head, lm_Blink = \<lambda>_. Head, lm_Pool = Map.empty, lm_Count = 0\<rparr>"
  let ?p = "zero_app_policy\<lparr>ap_Version := 1\<rparr>"
  have "represents Map.empty ?m (pt_list GuardianAppPolicyInitialize)
      (pt_count GuardianAppPolicyInitialize)"
    using policy_pool.initialize_empty by (simp add: policy_pool.table_at_def)
  from policy_set_during_sync_leaks [OF wdm.list_routines_axioms this _ next_block_fresh,
      of ?p "[]" 7 undefined 0]
  show ?thesis by (auto simp: zero_app_policy_def GUARDIAN_APP_POLICY_VERSION_def)
qed

end
