(* ===== verification/Locked_Tables.thy ===== *)
theory Locked_Tables
  imports Spin_Lock Concurrent_Tables Pool_Refinement
begin

text \<open>
  policy/app_policy.c and route/route_assignment.c at the granularity of single accesses: taking and
  releasing the spin lock, each comparison of a traversal, each write of the list and of the counter
  is a step of its own. This justifies the steps of Concurrent\_Tables: in every interleaving in
  which the unlocked initialisation of a sync finds the lock free, the tables go through what they
  go through there. It also shows what that assumption hides, because KeInitializeSpinLock frees a
  lock that another thread holds. A traversal is at a position in the list; while its thread is the
  only one in a critical section, the position stands for the entry that the pointer is at.
\<close>

section \<open>The calls as threads\<close>

text \<open>How the code gets at the two static variables of a table, and what a lookup looks for.\<close>

record ('e, 't, 'v, 'r) table_access =
  ac_List :: "'t \<Rightarrow> 'e list"
  ac_SetList :: "'e list \<Rightarrow> 't \<Rightarrow> 't"
  ac_Count :: "'t \<Rightarrow> u32"
  ac_SetCount :: "u32 \<Rightarrow> 't \<Rightarrow> 't"
  ac_Matches :: "'v \<Rightarrow> ('e \<Rightarrow> bool) option"
  ac_Result :: "'v \<Rightarrow> 'e option \<Rightarrow> 'r"

definition policy_access ::
  "(GUARDIAN_APP_POLICY_V1, policy_table, FWPS_INCOMING_VALUES0 option,
    ntstatus \<times> GUARDIAN_APP_POLICY_V1 \<times> bool) table_access" where
  "policy_access =
     \<lparr>ac_List = pt_list, ac_SetList = (\<lambda>l t. t\<lparr>pt_list := l\<rparr>),
      ac_Count = pt_count, ac_SetCount = (\<lambda>n t. t\<lparr>pt_count := n\<rparr>),
      ac_Matches = map_option (\<lambda>v. policy_matches (app_id_blob v)),
      ac_Result = (\<lambda>v found.
        case v of
          None \<Rightarrow> (STATUS_INVALID_PARAMETER, zero_app_policy, False)
        | Some _ \<Rightarrow>
            (case found of
               Some p \<Rightarrow> (STATUS_SUCCESS, p, True)
             | None \<Rightarrow> (STATUS_SUCCESS, zero_app_policy, False)))\<rparr>"

definition route_access ::
  "(GUARDIAN_ROUTE_ASSIGNMENT_V1, route_table, bytes,
    ntstatus \<times> GUARDIAN_ROUTE_ASSIGNMENT_V1 \<times> bool) table_access" where
  "route_access =
     \<lparr>ac_List = rt_list, ac_SetList = (\<lambda>l t. t\<lparr>rt_list := l\<rparr>),
      ac_Count = rt_count, ac_SetCount = (\<lambda>n t. t\<lparr>rt_count := n\<rparr>),
      ac_Matches = (\<lambda>appId. Some (\<lambda>r. same_app_id (ra_AppId r) appId)),
      ac_Result = (\<lambda>appId found.
        case found of
          Some r \<Rightarrow> (STATUS_SUCCESS, r, True)
        | None \<Rightarrow> (STATUS_SUCCESS, zero_route, False))\<rparr>"

text \<open>Where a set returns to: its own caller, or element i of a sync with n elements after it.\<close>

datatype 'e after_set = ToCaller | ToSync "nat \<Rightarrow> bool" "nat \<Rightarrow> 'e cell" nat nat

datatype ('e, 'v, 'r) locked_call =
  LSync "nat \<Rightarrow> bool" "(nat \<Rightarrow> 'e cell) option" u32
| LDrain "nat \<Rightarrow> bool" "nat \<Rightarrow> 'e cell" nat
| LShutCount "nat \<Rightarrow> bool" "nat \<Rightarrow> 'e cell" nat
| LShutRelease "nat \<Rightarrow> bool" "nat \<Rightarrow> 'e cell" nat
| LInitList "nat \<Rightarrow> bool" "nat \<Rightarrow> 'e cell" nat
| LInitLock "nat \<Rightarrow> bool" "nat \<Rightarrow> 'e cell" nat
| LInitCount "nat \<Rightarrow> bool" "nat \<Rightarrow> 'e cell" nat
| LLoop "nat \<Rightarrow> bool" "nat \<Rightarrow> 'e cell" nat nat
| LSet "'e after_set" bool "'e option"
| LSetFind "'e after_set" 'e nat
| LSetCopy "'e after_set" 'e nat
| LSetCheck "'e after_set" 'e
| LSetInsert "'e after_set" 'e
| LSetCount "'e after_set"
| LRelease "'e after_set" ntstatus
| LRemove bytes
| LRemoveFind bytes nat
| LUnlink nat
| LRemoveCount
| LLookup 'v
| LLookFind 'v "'e \<Rightarrow> bool" nat
| LLookRelease 'v 'r
| LReturned ntstatus
| LLookedUp 'v 'r
| LFaulted

fun finish :: "'e after_set \<Rightarrow> ntstatus \<Rightarrow> ('e, 'v, 'r) locked_call" where
  "finish ToCaller status = LReturned status"
| "finish (ToSync alloc rd i n) status =
     (if NT_SUCCESS status then LLoop alloc rd (Suc i) n else LReturned status)"

text \<open>
  The checks before the lock and the pool allocation touch nothing shared; they are part of the step
  that takes the lock.
\<close>

fun locked_step ::
  "'e entry_class \<Rightarrow> ('e, 't, 'v, 'r) table_access \<Rightarrow> (('e, 'v, 'r) locked_call, bool \<times> 't) thread_step"
  where
  "locked_step c acc (LSync alloc elements count) s =
     (case elements of
        None \<Rightarrow> Some (LReturned STATUS_INVALID_PARAMETER, s)
      | Some rd \<Rightarrow>
          if ec_MaxSync c < count then Some (LReturned STATUS_INVALID_PARAMETER, s)
          else acquire (LDrain alloc rd (unat count)) s)"
| "locked_step c acc (LDrain alloc rd n) (h, t) =
     (case ac_List acc t of
        [] \<Rightarrow> Some (LShutCount alloc rd n, h, t)
      | x # xs \<Rightarrow> Some (LDrain alloc rd n, h, ac_SetList acc xs t))"
| "locked_step c acc (LShutCount alloc rd n) (h, t) =
     Some (LShutRelease alloc rd n, h, ac_SetCount acc 0 t)"
| "locked_step c acc (LShutRelease alloc rd n) (h, t) = Some (LInitList alloc rd n, False, t)"
| "locked_step c acc (LInitList alloc rd n) (h, t) =
     Some (LInitLock alloc rd n, h, ac_SetList acc [] t)"
| "locked_step c acc (LInitLock alloc rd n) (h, t) = Some (LInitCount alloc rd n, False, t)"
| "locked_step c acc (LInitCount alloc rd n) (h, t) =
     Some (LLoop alloc rd 0 n, h, ac_SetCount acc 0 t)"
| "locked_step c acc (LLoop alloc rd i 0) s = Some (LReturned STATUS_SUCCESS, s)"
| "locked_step c acc (LLoop alloc rd i (Suc n)) s =
     (case rd i of
        Truncated v \<Rightarrow>
          (case truncated_element (ec_CurrentVersion c) (alloc i) v of
             Inl _ \<Rightarrow> Some (LFaulted, s) | Inr status \<Rightarrow> Some (LReturned status, s))
      | Readable e \<Rightarrow> Some (LSet (ToSync alloc rd i n) (alloc i) (Some e), s))"
| "locked_step c acc (LSet k alloc e) s =
     (case e of
        None \<Rightarrow> Some (finish k STATUS_INVALID_PARAMETER, s)
      | Some p \<Rightarrow>
          if ec_Version c p \<noteq> ec_CurrentVersion c then Some (finish k STATUS_INVALID_PARAMETER, s)
          else if \<not> alloc then Some (finish k STATUS_INSUFFICIENT_RESOURCES, s)
          else acquire (LSetFind k p 0) s)"
| "locked_step c acc (LSetFind k p i) (h, t) =
     Some (if i < length (ac_List acc t)
           then if same_app_id (ec_AppId c (ac_List acc t ! i)) (ec_AppId c p)
                then LSetCopy k p i else LSetFind k p (Suc i)
           else LSetCheck k p, h, t)"
| "locked_step c acc (LSetCopy k p i) (h, t) =
     Some (LRelease k STATUS_SUCCESS, h, ac_SetList acc ((ac_List acc t)[i := p]) t)"
| "locked_step c acc (LSetCheck k p) (h, t) =
     Some (if ec_MaxEntries c \<le> ac_Count acc t then LRelease k STATUS_INSUFFICIENT_RESOURCES
           else LSetInsert k p, h, t)"
| "locked_step c acc (LSetInsert k p) (h, t) =
     Some (LSetCount k, h, ac_SetList acc (ac_List acc t @ [p]) t)"
| "locked_step c acc (LSetCount k) (h, t) =
     Some (LRelease k STATUS_SUCCESS, h, ac_SetCount acc (ac_Count acc t + 1) t)"
| "locked_step c acc (LRelease k status) (h, t) = Some (finish k status, False, t)"
| "locked_step c acc (LRemove appId) s = acquire (LRemoveFind appId 0) s"
| "locked_step c acc (LRemoveFind appId i) (h, t) =
     Some (if i < length (ac_List acc t)
           then if same_app_id (ec_AppId c (ac_List acc t ! i)) appId
                then LUnlink i else LRemoveFind appId (Suc i)
           else LRelease ToCaller STATUS_NOT_FOUND, h, t)"
| "locked_step c acc (LUnlink i) (h, t) =
     Some (LRemoveCount, h,
           ac_SetList acc (take i (ac_List acc t) @ drop (Suc i) (ac_List acc t)) t)"
| "locked_step c acc LRemoveCount (h, t) =
     Some (LRelease ToCaller STATUS_SUCCESS, h, ac_SetCount acc (ac_Count acc t - 1) t)"
| "locked_step c acc (LLookup v) s =
     (case ac_Matches acc v of
        None \<Rightarrow> Some (LLookedUp v (ac_Result acc v None), s)
      | Some P \<Rightarrow> acquire (LLookFind v P 0) s)"
| "locked_step c acc (LLookFind v P i) (h, t) =
     Some (if i < length (ac_List acc t)
           then if P (ac_List acc t ! i)
                then LLookRelease v (ac_Result acc v (Some (ac_List acc t ! i)))
                else LLookFind v P (Suc i)
           else LLookRelease v (ac_Result acc v None), h, t)"
| "locked_step c acc (LLookRelease v r) (h, t) = Some (LLookedUp v r, False, t)"
| "locked_step c acc (LReturned status) s = None"
| "locked_step c acc (LLookedUp v r) s = None"
| "locked_step c acc LFaulted s = None"

text \<open>
  The code as it is, restricted to the executions in which the unlocked initialisation finds the lock
  free: here it waits while another thread holds the lock. The code has no such wait; this is the
  condition of the properties that are stated over quiet\_step.
\<close>

fun initialising :: "('e, 'v, 'r) locked_call \<Rightarrow> bool" where
  "initialising (LInitList alloc rd n) \<longleftrightarrow> True"
| "initialising (LInitLock alloc rd n) \<longleftrightarrow> True"
| "initialising (LInitCount alloc rd n) \<longleftrightarrow> True"
| "initialising _ \<longleftrightarrow> False"

definition quiet_step ::
  "'e entry_class \<Rightarrow> ('e, 't, 'v, 'r) table_access \<Rightarrow> (('e, 'v, 'r) locked_call, bool \<times> 't) thread_step"
  where
  "quiet_step c acc p s = (if fst s \<and> initialising p then None else locked_step c acc p s)"

section \<open>The atomic call behind each step\<close>

fun inside_section :: "('e, 'v, 'r) locked_call \<Rightarrow> bool" where
  "inside_section (LDrain alloc rd n) \<longleftrightarrow> True"
| "inside_section (LShutCount alloc rd n) \<longleftrightarrow> True"
| "inside_section (LShutRelease alloc rd n) \<longleftrightarrow> True"
| "inside_section (LSetFind k p i) \<longleftrightarrow> True"
| "inside_section (LSetCopy k p i) \<longleftrightarrow> True"
| "inside_section (LSetCheck k p) \<longleftrightarrow> True"
| "inside_section (LSetInsert k p) \<longleftrightarrow> True"
| "inside_section (LSetCount k) \<longleftrightarrow> True"
| "inside_section (LRelease k status) \<longleftrightarrow> True"
| "inside_section (LRemoveFind appId i) \<longleftrightarrow> True"
| "inside_section (LUnlink i) \<longleftrightarrow> True"
| "inside_section LRemoveCount \<longleftrightarrow> True"
| "inside_section (LLookFind v P i) \<longleftrightarrow> True"
| "inside_section (LLookRelease v r) \<longleftrightarrow> True"
| "inside_section _ \<longleftrightarrow> False"

text \<open>The call that a thread outside the critical sections is, in Concurrent\_Tables.\<close>

fun atomic_call :: "('e, 'v, 'r) locked_call \<Rightarrow> ('e, 'v, 'r) table_call" where
  "atomic_call (LSync alloc elements count) = SyncEntry alloc elements count"
| "atomic_call (LInitList alloc rd n) = SyncInitList alloc rd n"
| "atomic_call (LInitLock alloc rd n) = SyncInitCount alloc rd n"
| "atomic_call (LInitCount alloc rd n) = SyncInitCount alloc rd n"
| "atomic_call (LLoop alloc rd i n) = SyncLoop alloc rd i n"
| "atomic_call (LSet ToCaller alloc e) = SetEntry alloc e"
| "atomic_call (LSet (ToSync alloc rd i n) a e) = SyncLoop alloc rd i (Suc n)"
| "atomic_call (LRemove appId) = RemoveEntry appId"
| "atomic_call (LLookup v) = LookupEntry v"
| "atomic_call (LReturned status) = Returned status"
| "atomic_call (LLookedUp v r) = LookedUp v r"
| "atomic_call _ = Faulted"

text \<open>A set inside a sync sets the element that the sync is at.\<close>

fun proper_call :: "('e, 'v, 'r) locked_call \<Rightarrow> bool" where
  "proper_call (LSet (ToSync alloc rd i n) a e) \<longleftrightarrow>
     a = alloc i \<and> (case e of None \<Rightarrow> False | Some x \<Rightarrow> rd i = Readable x)"
| "proper_call _ \<longleftrightarrow> True"

lemma finish_outside [simp]:
  "\<not> inside_section (finish k status)" "proper_call (finish k status)"
  "\<not> initialising (finish k status)"
  by (cases k; simp)+

section \<open>Critical sections of a table are atomic\<close>

locale locked_table = listed_table c fs els cnt empty loop
  for c :: "'e entry_class" and fs :: "('e, 't) table_functions" and els and cnt and empty and loop +
  fixes acc :: "('e, 't, 'v, 'r) table_access" and ops :: "('e, 't, 'v, 'r) table_ops"
  assumes access: "ac_List acc = els" "ac_Count acc = cnt"
    and stored: "els (ac_SetList acc l t) = l" "cnt (ac_SetList acc l t) = cnt t"
      "els (ac_SetCount acc n t) = els t" "cnt (ac_SetCount acc n t) = n"
    and extensional: "els t = els t' \<Longrightarrow> cnt t = cnt t' \<Longrightarrow> t = t'"
    and same_limits: "op_Limit ops = ec_MaxSync c" "op_Version ops = ec_CurrentVersion c"
    and same_set: "op_Set ops = tf_Set fs"
    and same_remove: "op_Remove ops = tf_Remove fs"
    and same_shutdown: "op_Shutdown ops t = empty"
    and same_init: "op_InitList ops t = ac_SetList acc [] t" "op_InitCount ops t = ac_SetCount acc 0 t"
    and same_lookup: "op_Lookup ops v t =
      ac_Result acc v (case ac_Matches acc v of None \<Rightarrow> None | Some P \<Rightarrow> List.find P (els t))"
begin

text \<open>What holds inside a section that the thread p entered with the table d.\<close>

fun mid ::
  "('e, 'v, 'r) locked_call \<Rightarrow> 't \<Rightarrow> ('e, 'v, 'r) locked_call \<Rightarrow> 't \<Rightarrow> bool" where
  "mid p d (LDrain alloc rd n) t \<longleftrightarrow> table_step ops (atomic_call p) d = Some (SyncInitList alloc rd n, empty)"
| "mid p d (LShutCount alloc rd n) t \<longleftrightarrow>
     table_step ops (atomic_call p) d = Some (SyncInitList alloc rd n, empty) \<and> els t = []"
| "mid p d (LShutRelease alloc rd n) t \<longleftrightarrow>
     table_step ops (atomic_call p) d = Some (SyncInitList alloc rd n, empty) \<and> t = empty"
| "mid p d (LSetFind k e i) t \<longleftrightarrow> p = LSet k True (Some e) \<and> ec_Version c e = ec_CurrentVersion c \<and>
     t = d \<and> list_all (\<lambda>x. \<not> same_app_id (ec_AppId c x) (ec_AppId c e)) (take i (els d))"
| "mid p d (LSetCopy k e i) t \<longleftrightarrow> p = LSet k True (Some e) \<and> ec_Version c e = ec_CurrentVersion c \<and>
     t = d \<and> list_all (\<lambda>x. \<not> same_app_id (ec_AppId c x) (ec_AppId c e)) (take i (els d)) \<and>
     i < length (els d) \<and> same_app_id (ec_AppId c (els d ! i)) (ec_AppId c e)"
| "mid p d (LSetCheck k e) t \<longleftrightarrow> p = LSet k True (Some e) \<and> ec_Version c e = ec_CurrentVersion c \<and>
     t = d \<and> list_all (\<lambda>x. \<not> same_app_id (ec_AppId c x) (ec_AppId c e)) (els d)"
| "mid p d (LSetInsert k e) t \<longleftrightarrow> p = LSet k True (Some e) \<and> ec_Version c e = ec_CurrentVersion c \<and>
     t = d \<and> list_all (\<lambda>x. \<not> same_app_id (ec_AppId c x) (ec_AppId c e)) (els d) \<and>
     \<not> ec_MaxEntries c \<le> cnt d"
| "mid p d (LSetCount k) t \<longleftrightarrow> (\<exists>e t'. p = LSet k True (Some e) \<and>
     tf_Set fs True (Some e) d = (STATUS_SUCCESS, t') \<and> els t = els t' \<and> cnt t + 1 = cnt t')"
| "mid p d (LRelease k status) t \<longleftrightarrow>
     table_step ops (atomic_call p) d = Some (atomic_call (finish k status), t)"
| "mid p d (LRemoveFind appId i) t \<longleftrightarrow> p = LRemove appId \<and> t = d \<and>
     list_all (\<lambda>x. \<not> same_app_id (ec_AppId c x) appId) (take i (els d))"
| "mid p d (LUnlink i) t \<longleftrightarrow> (\<exists>appId. p = LRemove appId \<and> t = d \<and>
     list_all (\<lambda>x. \<not> same_app_id (ec_AppId c x) appId) (take i (els d)) \<and>
     i < length (els d) \<and> same_app_id (ec_AppId c (els d ! i)) appId)"
| "mid p d LRemoveCount t \<longleftrightarrow> (\<exists>appId t'. p = LRemove appId \<and>
     tf_Remove fs appId d = (STATUS_SUCCESS, t') \<and> els t = els t' \<and> cnt t - 1 = cnt t')"
| "mid p d (LLookFind v P i) t \<longleftrightarrow> p = LLookup v \<and> t = d \<and> ac_Matches acc v = Some P \<and>
     list_all (\<lambda>x. \<not> P x) (take i (els d))"
| "mid p d (LLookRelease v r) t \<longleftrightarrow> p = LLookup v \<and> t = d \<and> r = op_Lookup ops v d"
| "mid p d _ t \<longleftrightarrow> False"

text \<open>A set that ends inside a sync ends the iteration of the sync.\<close>

lemma set_ends:
  assumes "proper_call (LSet k a (Some e))" and "op_Set ops a (Some e) d = (status, t)"
  shows "table_step ops (atomic_call (LSet k a (Some e))) d = Some (atomic_call (finish k status), t)"
  using assms by (cases k) (auto simp: sync_iteration_def)

lemma take_all_matches:
  "list_all P (take i xs) \<Longrightarrow> \<not> i < length xs \<Longrightarrow> list_all P xs"
  by simp

lemma take_Suc_matches:
  "list_all P (take i xs) \<Longrightarrow> i < length xs \<Longrightarrow> P (xs ! i) \<Longrightarrow> list_all P (take (Suc i) xs)"
  by (simp add: take_Suc_conv_app_nth)

lemma set_at:
  assumes "mid p d (LSetCopy k e i) t"
  shows "tf_Set fs True (Some e) d = (STATUS_SUCCESS, ac_SetList acc ((els d)[i := e]) d)"
proof -
  have i: "i < length (els d)" using assms by simp
  obtain t' where t': "tf_Set fs True (Some e) d = (STATUS_SUCCESS, t')"
    "els t' = take i (els d) @ e # drop (Suc i) (els d)" "cnt t' = cnt d"
    using set_found [OF _ id_take_nth_drop [OF i], of e] assms by auto
  moreover have "t' = ac_SetList acc ((els d)[i := e]) d"
    using t'(2,3) i by (intro extensional) (simp_all add: stored upd_conv_take_nth_drop)
  ultimately show ?thesis by simp
qed

lemma remove_at:
  assumes "mid p d (LUnlink i) t" and "p = LRemove appId"
  shows "\<exists>t'. tf_Remove fs appId d = (STATUS_SUCCESS, t') \<and>
    els t' = take i (els d) @ drop (Suc i) (els d) \<and> cnt t' = cnt d - 1"
  using assms remove_found [OF id_take_nth_drop [of i "els d"], of appId] by auto

lemma outside_set:
  assumes "proper_call (LSet k a e)" and "locked_step c acc (LSet k a e) (h, t) = Some (p', h', t')"
    and "\<not> inside_section p'"
  shows "h' = h \<and> t' = t \<and> proper_call p' \<and>
    (\<forall>d. table_step ops (atomic_call (LSet k a e)) d = Some (atomic_call p', d))"
proof (cases e)
  case None
  then have "k = ToCaller" using assms(1) by (cases k) auto
  then show ?thesis using assms(2) None by (auto simp: same_set set_null)
next
  case (Some x)
  show ?thesis
  proof (cases "ec_Version c x = ec_CurrentVersion c")
    case False
    then show ?thesis using assms set_ends [of k a x _ STATUS_INVALID_PARAMETER] Some
      by (auto simp: same_set set_version)
  next
    case True
    then have "\<not> a" using assms(2,3) Some by (auto simp: acquire_def split: if_splits)
    then show ?thesis using assms set_ends [of k a x _ STATUS_INSUFFICIENT_RESOURCES] Some True
      by (auto simp: same_set set_no_memory)
  qed
qed

lemma outside_step:
  assumes "proper_call p" and "\<not> inside_section p"
    and st: "quiet_step c acc p (h, t) = Some (p', h', t')" and "\<not> inside_section p'"
  shows "h' = h \<and> proper_call p' \<and>
    (atomic_call p' = atomic_call p \<and> t' = t \<or>
     \<not> h \<and> table_step ops (atomic_call p) t = Some (atomic_call p', t') \<or>
     t' = t \<and> (\<forall>d. table_step ops (atomic_call p) d = Some (atomic_call p', d)))"
proof -
  have step: "locked_step c acc p (h, t) = Some (p', h', t')" and quiet: "\<not> (h \<and> initialising p)"
    using st by (auto simp: quiet_step_def split: if_splits)
  show ?thesis
  proof (cases p)
    case (LSync alloc es n)
    then show ?thesis using step assms(4)
      by (auto simp: acquire_def same_limits split: option.splits if_splits)
  next
    case (LLoop alloc rd i n)
    then show ?thesis using step
      by (cases n) (auto simp: sync_iteration_def same_limits split: cell.splits sum.splits)
  next
    case (LSet k a e)
    then show ?thesis
      using outside_set [OF assms(1) [unfolded LSet] step [unfolded LSet] assms(4)] by blast
  next
    case (LLookup v)
    then show ?thesis using step assms(4)
      by (auto simp: acquire_def same_lookup split: option.splits if_splits)
  next
    case (LRemove k)
    then show ?thesis using step assms(4) by (auto simp: acquire_def split: if_splits)
  qed (use step quiet assms(2) in \<open>auto simp: same_init\<close>)
qed

lemma enter_section:
  assumes "proper_call p" and "\<not> inside_section p"
    and st: "quiet_step c acc p (h, t) = Some (p', h', t')" and "inside_section p'"
  shows "\<not> h \<and> h' \<and> mid p t p' t'"
proof -
  have step: "locked_step c acc p (h, t) = Some (p', h', t')"
    using st by (auto simp: quiet_step_def split: if_splits)
  show ?thesis
  proof (cases p)
    case (LSync alloc es n)
    then show ?thesis using step assms(4)
      by (auto simp: acquire_def same_limits same_shutdown split: option.splits if_splits)
  next
    case (LLoop alloc rd i n)
    then show ?thesis using step assms(4) by (cases n) (auto split: cell.splits sum.splits)
  qed (use step assms(2,4) in \<open>auto simp: acquire_def split: option.splits if_splits\<close>)
qed

lemma keep_section:
  assumes proper: "proper_call p" and "inside_section q" and mid: "mid p d q t"
    and st: "quiet_step c acc q (True, t) = Some (q', h', t')" and "inside_section q'"
  shows "h' \<and> mid p d q' t'"
proof -
  have step: "locked_step c acc q (True, t) = Some (q', h', t')"
    using st by (auto simp: quiet_step_def split: if_splits)
  show ?thesis
  proof (cases q)
    case (LDrain alloc rd n)
    then show ?thesis using step mid by (auto simp: access stored split: list.splits)
  next
    case (LShutCount alloc rd n)
    then show ?thesis using step mid
      by (auto simp: stored els_empty cnt_empty intro!: extensional)
  next
    case (LSetFind k e i)
    then show ?thesis using step mid take_Suc_matches [of _ i "els d"]
      by (auto simp: access split: if_splits)
  next
    case (LSetCopy k e i)
    then have "p = LSet k True (Some e)" and "t = d" using mid by simp_all
    then show ?thesis
      using step LSetCopy set_at [of p d k e i t] mid proper
        set_ends [of k True e d STATUS_SUCCESS "ac_SetList acc ((els d)[i := e]) d"]
      by (auto simp: access same_set)
  next
    case (LSetCheck k e)
    then have "p = LSet k True (Some e)" and "t = d" using mid by simp_all
    then show ?thesis
      using step LSetCheck set_full [of e d] mid proper
        set_ends [of k True e d STATUS_INSUFFICIENT_RESOURCES d]
      by (auto simp: access same_set split: if_splits)
  next
    case (LSetInsert k e)
    then show ?thesis using step mid set_append [of e d] by (auto simp: access stored)
  next
    case (LSetCount k)
    then obtain e u where e: "p = LSet k True (Some e)"
      and u: "tf_Set fs True (Some e) d = (STATUS_SUCCESS, u)" "els t = els u" "cnt t + 1 = cnt u"
      using mid by auto
    have "ac_SetCount acc (cnt t + 1) t = u" using u(2,3) by (intro extensional) (simp_all add: stored)
    then show ?thesis using step LSetCount set_ends [of k True e d STATUS_SUCCESS u] e u(1) proper
      by (auto simp: access same_set)
  next
    case (LRemoveFind appId i)
    then show ?thesis using step mid take_Suc_matches [of _ i "els d"] remove_absent [of appId d]
      by (auto simp: access same_remove split: if_splits)
  next
    case (LUnlink i)
    then obtain appId where p: "p = LRemove appId" and "t = d" using mid by auto
    obtain u where "tf_Remove fs appId d = (STATUS_SUCCESS, u)"
      "els u = take i (els d) @ drop (Suc i) (els d)" "cnt u = cnt d - 1"
      using remove_at [OF mid [unfolded LUnlink] p] by blast
    then show ?thesis using step LUnlink p \<open>t = d\<close> by (auto simp: access stored)
  next
    case LRemoveCount
    then obtain appId u where p: "p = LRemove appId"
      and u: "tf_Remove fs appId d = (STATUS_SUCCESS, u)" "els t = els u" "cnt t - 1 = cnt u"
      using mid by auto
    have "ac_SetCount acc (cnt t - 1) t = u" using u(2,3) by (intro extensional) (simp_all add: stored)
    then show ?thesis using step LRemoveCount p u(1) by (auto simp: access same_remove)
  next
    case (LLookFind v P i)
    have "List.find P (els d) = Some (els d ! i)"
      if "i < length (els d)" "P (els d ! i)" "list_all (\<lambda>x. \<not> P x) (take i (els d))"
      using find_at [OF id_take_nth_drop [OF that(1)] that(2,3)] .
    then show ?thesis using step mid LLookFind take_Suc_matches [of _ i "els d"]
      by (auto simp: access same_lookup find_absent split: if_splits)
  qed (use step assms in auto)
qed

lemma leave_section:
  assumes "inside_section q" and mid: "mid p d q t"
    and st: "quiet_step c acc q (True, t) = Some (q', h', t')" and "\<not> inside_section q'"
  shows "\<not> h' \<and> proper_call q' \<and> table_step ops (atomic_call p) d = Some (atomic_call q', t')"
proof -
  have step: "locked_step c acc q (True, t) = Some (q', h', t')"
    using st by (auto simp: quiet_step_def split: if_splits)
  show ?thesis
    by (cases q) (use step mid assms(1,4) in \<open>auto split: list.splits if_splits\<close>)
qed

end

sublocale locked_table \<subseteq> critical: spin_section "quiet_step c acc" "table_step ops" atomic_call
  inside_section proper_call mid
proof (unfold_locales, goal_cases)
  case 1
  then show ?case by (rule outside_step)
next
  case 2
  then show ?case by (rule enter_section)
next
  case 3
  from 3(1,3-6) show ?case by (rule keep_section)
next
  case 4
  from 4(3-6) show ?case by (rule leave_section)
qed

interpretation policy_locked: locked_table policy_class policy_functions pt_list pt_count
  GuardianAppPolicyInitialize policy_sync_loop policy_access policy_ops
  by unfold_locales (auto simp: policy_access_def policy_ops_def policy_class_def
    policy_functions_def GuardianAppPolicyShutdown_def GuardianAppPolicyInitialize_def
    GuardianAppPolicyLookup_def policy_lookup_loop_find split: option.splits)

interpretation route_locked: locked_table route_class route_functions rt_list rt_count
  GuardianRouteInitialize route_sync_loop route_access route_ops
  by unfold_locales (auto simp: route_access_def route_ops_def route_class_def
    route_functions_def GuardianRouteShutdown_def GuardianRouteInitialize_def
    GuardianRouteLookup_def GuardianRouteFindLocked_def key_find_def split: option.splits)

section \<open>Without a sync no thread initialises the lock\<close>

fun sync_free :: "('e, 'v, 'r) locked_call \<Rightarrow> bool" where
  "sync_free (LSet k a e) \<longleftrightarrow> k = ToCaller"
| "sync_free (LSetFind k e i) \<longleftrightarrow> k = ToCaller"
| "sync_free (LSetCopy k e i) \<longleftrightarrow> k = ToCaller"
| "sync_free (LSetCheck k e) \<longleftrightarrow> k = ToCaller"
| "sync_free (LSetInsert k e) \<longleftrightarrow> k = ToCaller"
| "sync_free (LSetCount k) \<longleftrightarrow> k = ToCaller"
| "sync_free (LRelease k status) \<longleftrightarrow> k = ToCaller"
| "sync_free (LSync alloc es n) \<longleftrightarrow> False"
| "sync_free (LDrain alloc rd n) \<longleftrightarrow> False"
| "sync_free (LShutCount alloc rd n) \<longleftrightarrow> False"
| "sync_free (LShutRelease alloc rd n) \<longleftrightarrow> False"
| "sync_free (LInitList alloc rd n) \<longleftrightarrow> False"
| "sync_free (LInitLock alloc rd n) \<longleftrightarrow> False"
| "sync_free (LInitCount alloc rd n) \<longleftrightarrow> False"
| "sync_free (LLoop alloc rd i n) \<longleftrightarrow> False"
| "sync_free _ \<longleftrightarrow> True"

lemma sync_free_step:
  assumes "sync_free p" and "locked_step c acc p s = Some (p', s')"
  shows "sync_free p' \<and> quiet_step c acc p s = Some (p', s')"
  using assms
  by (cases "(c, acc, p, s)" rule: locked_step.cases)
    (auto simp: quiet_step_def acquire_def split: option.splits if_splits prod.splits)

lemma sync_free_pars:
  "pars (locked_step c acc) (ps, s) c' \<Longrightarrow> list_all sync_free ps \<Longrightarrow>
     pars (quiet_step c acc) (ps, s) c' \<and> list_all sync_free (fst c')"
proof (induction rule: rtranclp_induct)
  case (step c1 c2)
  then have run: "pars (quiet_step c acc) (ps, s) c1" and free: "list_all sync_free (fst c1)" by auto
  from step(2) obtain i qs u p' u' where turn: "c1 = (qs, u)" "c2 = (qs[i := p'], u')" "i < length qs"
    "locked_step c acc (qs ! i) u = Some (p', u')" by (auto elim: par.cases)
  then have "sync_free p' \<and> quiet_step c acc (qs ! i) u = Some (p', u')"
    using free sync_free_step [OF _ turn(4)] by (simp add: list_all_length)
  then have "par (quiet_step c acc) c1 c2" and "list_all sync_free (fst c2)"
    using turn free by (auto intro: par.turn list_all_update)
  then show ?case using run by simp
qed simp

section \<open>What the interleavings show\<close>

context locked_table
begin

lemma quiet_runs_are_atomic:
  assumes "pars (quiet_step c acc) (ps, False, t) (ps', h, t')"
    and "list_all (\<lambda>p. proper_call p \<and> \<not> inside_section p) ps"
  shows "(\<forall>i < length ps'. \<forall>j < length ps'.
      inside_section (ps' ! i) \<and> inside_section (ps' ! j) \<longrightarrow> h \<and> i = j) \<and>
    (\<exists>qs d. pars (table_step ops) (map atomic_call ps, t) (qs, d) \<and> length qs = length ps' \<and>
       (\<forall>i < length ps'. \<not> inside_section (ps' ! i) \<longrightarrow> qs ! i = atomic_call (ps' ! i)) \<and>
       (\<not> h \<longrightarrow> d = t'))"
proof -
  obtain a where a: "pars (table_step ops) (map atomic_call ps, t) a" "critical.sim (ps', h, t') a"
    using critical.sections_are_atomic [OF assms(1) critical.started [OF assms(2)]] by blast
  then obtain qs d where qs: "a = (qs, d)" by (cases a)
  from a(2) have "length qs = length ps' \<and>
      (\<forall>i < length ps'. \<not> inside_section (ps' ! i) \<longrightarrow> qs ! i = atomic_call (ps' ! i)) \<and>
      (\<not> h \<longrightarrow> d = t')"
    unfolding qs by (cases rule: section_sim.cases) (auto simp: nth_list_update)
  then show ?thesis using critical.exclusive [OF a(2)] a(1) qs by blast
qed

end

lemma policy_drain_alone:
  "solo (locked_step c policy_access) (Suc (length (pt_list t))) (LDrain alloc rd n) (True, t) =
     (LShutCount alloc rd n, True, t\<lparr>pt_list := []\<rparr>)"
proof (induction "pt_list t" arbitrary: t)
  case Nil
  then show ?case by (simp add: policy_access_def)
next
  case (Cons x xs)
  from Cons(2) have "solo (locked_step c policy_access) (Suc (length (pt_list t)))
        (LDrain alloc rd n) (True, t) =
      solo (locked_step c policy_access) (Suc (length xs))
        (LDrain alloc rd n) (True, t\<lparr>pt_list := xs\<rparr>)"
    by (simp add: policy_access_def flip: Cons(2))
  then show ?case using Cons(1) [of "t\<lparr>pt_list := xs\<rparr>"] by simp
qed

text \<open>A sync up to its unlocked initialisation.\<close>

lemma policy_sync_up_to_initialisation:
  assumes "\<not> GUARDIAN_MAX_SYNC_POLICIES < count"
  shows "pars (locked_step policy_class policy_access) ([p, LSync alloc (Some rd) count, q], False, t)
    ([p, LInitList alloc rd (unat count), q], False, GuardianAppPolicyInitialize)"
proof -
  let ?step = "locked_step policy_class policy_access" and ?n = "unat count"
  have enter: "solo ?step 1 (LSync alloc (Some rd) count) (False, t) = (LDrain alloc rd ?n, True, t)"
    using assms by (simp add: acquire_def policy_class_def)
  have "solo ?step 2 (LShutCount alloc rd ?n) (True, t\<lparr>pt_list := []\<rparr>) =
      (LInitList alloc rd ?n, False, GuardianAppPolicyInitialize)"
    by (simp add: numeral_eq_Suc policy_access_def GuardianAppPolicyInitialize_def)
  note rest = solo_trans [OF policy_drain_alone this]
  let ?ps = "[p, LSync alloc (Some rd) count, q]"
  have "solo ?step (1 + (Suc (length (pt_list t)) + 2)) (?ps ! 1) (False, t) =
      (LInitList alloc rd ?n, False, GuardianAppPolicyInitialize)"
    using solo_trans [OF enter rest] by simp
  from solo_pars [OF _ this] show ?thesis by simp
qed

section \<open>Properties\<close>

text \<open>
  C9: The spin lock makes the operations of the policy table atomic: in every interleaving,
  access by access, of any number of sets, removals, lookups and syncs in which the unlocked
  initialisation inside a sync finds the lock free, at most one thread is inside a critical
  section, and there is an execution of the same calls with each critical section as one step
  that gives every thread outside the sections what it has, and the same table when the lock is
  free.
\<close>

theorem policy_critical_sections_are_atomic:
  assumes "pars (quiet_step policy_class policy_access) (ps, False, t) (ps', h, t')"
    and "list_all (\<lambda>p. proper_call p \<and> \<not> inside_section p) ps"
  shows "(\<forall>i < length ps'. \<forall>j < length ps'.
      inside_section (ps' ! i) \<and> inside_section (ps' ! j) \<longrightarrow> h \<and> i = j) \<and>
    (\<exists>qs d. pars (table_step policy_ops) (map atomic_call ps, t) (qs, d) \<and> length qs = length ps' \<and>
       (\<forall>i < length ps'. \<not> inside_section (ps' ! i) \<longrightarrow> qs ! i = atomic_call (ps' ! i)) \<and>
       (\<not> h \<longrightarrow> d = t'))"
  by (rule policy_locked.quiet_runs_are_atomic [OF assms])

theorem policy_critical_sections_are_atomic_witness:
  "\<exists>qs d. pars (table_step policy_ops)
      ([SetEntry True (Some (zero_app_policy\<lparr>ap_Version := 1\<rparr>)), RemoveEntry (replicate 16 1)],
       GuardianAppPolicyInitialize) (qs, d) \<and>
    qs ! 0 = Returned STATUS_SUCCESS \<and> qs ! 1 = Returned STATUS_NOT_FOUND \<and> pt_count d = 1"
proof -
  let ?p = "zero_app_policy\<lparr>ap_Version := 1\<rparr>"
  let ?ps = "[LSet ToCaller True (Some ?p), LRemove (replicate 16 1)]
    :: (_, FWPS_INCOMING_VALUES0 option, ntstatus \<times> GUARDIAN_APP_POLICY_V1 \<times> bool) locked_call list"
  let ?step = "quiet_step policy_class policy_access"
  have "schedule ?step [0, 1, 0, 0, 0, 1, 0, 0, 1, 1, 1, 1]
      (?ps, False, GuardianAppPolicyInitialize) =
    ([LReturned STATUS_SUCCESS, LReturned STATUS_NOT_FOUND], False, \<lparr>pt_list = [?p], pt_count = 1\<rparr>)"
    by (simp add: policy_class_def policy_access_def acquire_def quiet_step_def
        GuardianAppPolicyInitialize_def GUARDIAN_MAX_POLICIES_def GUARDIAN_APP_POLICY_VERSION_def
        zero_app_policy_def)
  then have run: "pars ?step (?ps, False, GuardianAppPolicyInitialize)
    ([LReturned STATUS_SUCCESS, LReturned STATUS_NOT_FOUND], False, \<lparr>pt_list = [?p], pt_count = 1\<rparr>)"
    using schedule_pars by metis
  have "list_all (\<lambda>p. proper_call p \<and> \<not> inside_section p) ?ps" by simp
  from policy_critical_sections_are_atomic [OF run this, THEN conjunct2] obtain qs d where
    "pars (table_step policy_ops) (map atomic_call ?ps, GuardianAppPolicyInitialize) (qs, d)"
    and "\<forall>i < 2. qs ! i = atomic_call ([LReturned STATUS_SUCCESS, LReturned STATUS_NOT_FOUND] ! i)"
    and "d = \<lparr>pt_list = [?p], pt_count = 1\<rparr>" by (auto simp: less_2_cases_iff)
  then show ?thesis by (intro exI [of _ qs] exI [of _ d]) (simp add: less_2_cases_iff)
qed

text \<open>The routes: without a sync, no assumption on the initialisation of the lock is needed.\<close>

lemma route_sections_are_atomic_without_sync:
  assumes "pars (locked_step route_class route_access) (ps, False, t) (ps', h, t')"
    and "list_all (\<lambda>p. sync_free p \<and> \<not> inside_section p) ps"
  shows "(\<forall>i < length ps'. \<forall>j < length ps'.
      inside_section (ps' ! i) \<and> inside_section (ps' ! j) \<longrightarrow> h \<and> i = j) \<and>
    (\<exists>qs d. pars (table_step route_ops) (map atomic_call ps, t) (qs, d) \<and> length qs = length ps' \<and>
       (\<forall>i < length ps'. \<not> inside_section (ps' ! i) \<longrightarrow> qs ! i = atomic_call (ps' ! i)) \<and>
       (\<not> h \<longrightarrow> d = t'))"
proof (rule route_locked.quiet_runs_are_atomic)
  show "pars (quiet_step route_class route_access) (ps, False, t) (ps', h, t')"
    using sync_free_pars [OF assms(1)] assms(2) by (auto simp: list_all_iff)
  have "proper_call p" if "sync_free p" for p :: "('a, 'b, 'c) locked_call"
    using that by (cases p) auto
  then show "list_all (\<lambda>p. proper_call p \<and> \<not> inside_section p) ps"
    using assms(2) by (auto simp: list_all_iff)
qed

lemma route_sections_are_atomic_without_sync_witness:
  "\<exists>qs d. pars (table_step route_ops)
      ([SetEntry True (Some (zero_route\<lparr>ra_Version := 1\<rparr>)), LookupEntry (replicate 16 0)],
       GuardianRouteInitialize) (qs, d) \<and> qs ! 0 = Returned STATUS_SUCCESS \<and>
    qs ! 1 = LookedUp (replicate 16 0) (STATUS_SUCCESS, zero_route\<lparr>ra_Version := 1\<rparr>, True)"
proof -
  let ?r = "zero_route\<lparr>ra_Version := 1\<rparr>" and ?k = "replicate 16 0 :: bytes"
  let ?ps = "[LSet ToCaller True (Some ?r), LLookup ?k]
    :: (_, _, ntstatus \<times> GUARDIAN_ROUTE_ASSIGNMENT_V1 \<times> bool) locked_call list"
  let ?step = "locked_step route_class route_access"
  have "schedule ?step [0, 1, 0, 0, 0, 1, 0, 0, 1, 1, 1, 1]
      (?ps, False, GuardianRouteInitialize) =
    ([LReturned STATUS_SUCCESS, LLookedUp ?k (STATUS_SUCCESS, ?r, True)], False,
     \<lparr>rt_list = [?r], rt_count = 1\<rparr>)"
    by (simp add: route_class_def route_access_def acquire_def
        GuardianRouteInitialize_def GUARDIAN_MAX_ROUTES_def GUARDIAN_ROUTE_ASSIGNMENT_VERSION_def
        zero_route_def)
  then have run: "pars ?step (?ps, False, GuardianRouteInitialize)
    ([LReturned STATUS_SUCCESS, LLookedUp ?k (STATUS_SUCCESS, ?r, True)], False,
     \<lparr>rt_list = [?r], rt_count = 1\<rparr>)" using schedule_pars by metis
  have "list_all (\<lambda>p. sync_free p \<and> \<not> inside_section p) ?ps" by simp
  from route_sections_are_atomic_without_sync [OF run this, THEN conjunct2] obtain qs d where
    "pars (table_step route_ops) (map atomic_call ?ps, GuardianRouteInitialize) (qs, d)"
    and "\<forall>i < 2. qs ! i = atomic_call ([LReturned STATUS_SUCCESS,
      LLookedUp ?k (STATUS_SUCCESS, ?r, True)] ! i)" by (auto simp: less_2_cases_iff)
  then show ?thesis by (intro exI [of _ qs] exI [of _ d]) (simp add: less_2_cases_iff)
qed

text \<open>
  C17: The initialisation inside a sync also frees a lock that another thread holds: from any
  table there is an interleaving of two sets of the same application id with a sync of no
  elements in which all three succeed and both policies are in the table, so that a removal of
  the id succeeds and a policy of the id stays.
\<close>

theorem lock_freed_by_sync_duplicates_policy:
  assumes "ap_Version p = GUARDIAN_APP_POLICY_VERSION" and "ap_Version q = GUARDIAN_APP_POLICY_VERSION"
    and "ap_AppId q = ap_AppId p" and "length (ap_AppId p) = 16"
  shows "\<exists>t'. pars (locked_step policy_class policy_access)
      ([LSet ToCaller True (Some p), LSync alloc (Some rd) 0, LSet ToCaller True (Some q)], False, t)
      ([LReturned STATUS_SUCCESS, LReturned STATUS_SUCCESS, LReturned STATUS_SUCCESS], False, t') \<and>
    pt_list t' = [p, q] \<and>
    (\<exists>t''. GuardianAppPolicyRemove (ap_AppId p) t' = (STATUS_SUCCESS, t'') \<and>
       GuardianPolicyFindLocked (ap_AppId p) t'' = Some q)"
proof -
  let ?step = "locked_step policy_class policy_access"
  let ?p = "LSet ToCaller True (Some p)" and ?q = "LSet ToCaller True (Some q)"
  have start: "pars ?step ([?p, LSync alloc (Some rd) 0, ?q], False, t)
      ([?p, LInitList alloc rd 0, ?q], False, GuardianAppPolicyInitialize)"
    using policy_sync_up_to_initialisation [of 0 ?p alloc rd ?q t]
    by (simp add: GUARDIAN_MAX_SYNC_POLICIES_def)
  have "schedule ?step [0, 0, 0, 1, 1, 2, 2, 2, 0, 2, 1, 0, 2, 0, 2, 1]
      ([?p, LInitList alloc rd 0, ?q], False, GuardianAppPolicyInitialize) =
    ([LReturned STATUS_SUCCESS, LReturned STATUS_SUCCESS, LReturned STATUS_SUCCESS], False,
     \<lparr>pt_list = [p, q], pt_count = 2\<rparr>)"
    using assms by (simp add: policy_class_def policy_access_def acquire_def
        GuardianAppPolicyInitialize_def GUARDIAN_MAX_POLICIES_def)
  then have "pars ?step ([?p, LInitList alloc rd 0, ?q], False, GuardianAppPolicyInitialize)
    ([LReturned STATUS_SUCCESS, LReturned STATUS_SUCCESS, LReturned STATUS_SUCCESS], False,
     \<lparr>pt_list = [p, q], pt_count = 2\<rparr>)" using schedule_pars by metis
  note run = rtranclp_trans [OF start this]
  have "GuardianAppPolicyRemove (ap_AppId p) \<lparr>pt_list = [p, q], pt_count = 2\<rparr> =
      (STATUS_SUCCESS, \<lparr>pt_list = [q], pt_count = 1\<rparr>)"
    using assms by (simp add: GuardianAppPolicyRemove_def GuardianPolicyFindLocked_def key_find_Cons)
  moreover have "GuardianPolicyFindLocked (ap_AppId p) \<lparr>pt_list = [q], pt_count = 1\<rparr> = Some q"
    using assms by (simp add: GuardianPolicyFindLocked_def key_find_Cons)
  ultimately show ?thesis using run by auto
qed

theorem lock_freed_by_sync_duplicates_policy_witness:
  "\<exists>t'. pars (locked_step policy_class policy_access)
      ([LSet ToCaller True (Some (zero_app_policy\<lparr>ap_Version := 1\<rparr>)),
        LSync (\<lambda>_. True) (Some (\<lambda>i. Truncated None)) 0,
        LSet ToCaller True (Some (zero_app_policy\<lparr>ap_Version := 1, ap_Action := 1\<rparr>))], False,
       GuardianAppPolicyInitialize)
      ([LReturned STATUS_SUCCESS, LReturned STATUS_SUCCESS, LReturned STATUS_SUCCESS], False, t') \<and>
    length (pt_list t') = 2"
  using lock_freed_by_sync_duplicates_policy [of "zero_app_policy\<lparr>ap_Version := 1\<rparr>"
      "zero_app_policy\<lparr>ap_Version := 1, ap_Action := 1\<rparr>" "\<lambda>_. True" "\<lambda>i. Truncated None"
      GuardianAppPolicyInitialize]
  by (auto simp: zero_app_policy_def GUARDIAN_APP_POLICY_VERSION_def)

end
