(* ===== verification/Locked_Kill_Switch.thy ===== *)
theory Locked_Kill_Switch
  imports Spin_Lock Kill_Switch
begin

text \<open>
  killswitch/killswitch.c at the granularity of single accesses: the mode and the VPN interface are
  two variables, written one after the other by a set and read one after the other by an evaluation,
  both under the spin lock. Every interleaving of sets and evaluations is one of atomic ones, so no
  evaluation combines the mode of one setting with the interface of another.
\<close>

section \<open>Sets and evaluations as threads\<close>

datatype ks_call =
  KsSet "GUARDIAN_KILL_SWITCH_V1 option"
| KsStoreMode u32 u64
| KsStoreLuid u64
| KsSetRelease
| KsEvaluate u64
| KsReadMode u64
| KsReadLuid u64 u32
| KsReadRelease u64 u32 u64
| KsDecide u64 u32 u64
| KsReturned ntstatus
| KsActed u64 "GUARDIAN_CLASSIFY_ACTION option"

text \<open>The checks of a set come before the lock, the decision of an evaluation after it.\<close>

fun ks_step :: "(ks_call, bool \<times> kill_switch_state) thread_step" where
  "ks_step (KsSet config) s =
     (case config of
        None \<Rightarrow> Some (KsReturned STATUS_INVALID_PARAMETER, s)
      | Some c \<Rightarrow>
          if kc_Version c \<noteq> GUARDIAN_KILL_SWITCH_VERSION
          then Some (KsReturned STATUS_INVALID_PARAMETER, s)
          else if ks_mode_code GuardianKsRestore < kc_Mode c
          then Some (KsReturned STATUS_INVALID_PARAMETER, s)
          else acquire (if kc_Mode c = ks_mode_code GuardianKsRestore
                        then KsStoreMode (ks_mode_code GuardianKsOff) 0
                        else KsStoreMode (kc_Mode c) (kc_VpnInterfaceLuid c)) s)"
| "ks_step (KsStoreMode mode luid) (h, s) = Some (KsStoreLuid luid, h, s\<lparr>ks_Mode := mode\<rparr>)"
| "ks_step (KsStoreLuid luid) (h, s) = Some (KsSetRelease, h, s\<lparr>ks_VpnInterfaceLuid := luid\<rparr>)"
| "ks_step KsSetRelease (h, s) = Some (KsReturned STATUS_SUCCESS, False, s)"
| "ks_step (KsEvaluate l) s = acquire (KsReadMode l) s"
| "ks_step (KsReadMode l) (h, s) = Some (KsReadLuid l (ks_Mode s), h, s)"
| "ks_step (KsReadLuid l mode) (h, s) = Some (KsReadRelease l mode (ks_VpnInterfaceLuid s), h, s)"
| "ks_step (KsReadRelease l mode luid) (h, s) = Some (KsDecide l mode luid, False, s)"
| "ks_step (KsDecide l mode luid) s =
     Some (KsActed l (GuardianKillSwitchEvaluate l \<lparr>ks_Mode = mode, ks_VpnInterfaceLuid = luid\<rparr>), s)"
| "ks_step (KsReturned status) s = None"
| "ks_step (KsActed l action) s = None"

text \<open>The same calls as one step each.\<close>

fun ks_atomic :: "(ks_call, kill_switch_state) thread_step" where
  "ks_atomic (KsSet config) s =
     (case GuardianKillSwitchSet config s of (status, s') \<Rightarrow> Some (KsReturned status, s'))"
| "ks_atomic (KsEvaluate l) s = Some (KsActed l (GuardianKillSwitchEvaluate l s), s)"
| "ks_atomic p s = None"

section \<open>The critical sections are atomic\<close>

fun ks_inside :: "ks_call \<Rightarrow> bool" where
  "ks_inside (KsStoreMode mode luid) \<longleftrightarrow> True"
| "ks_inside (KsStoreLuid luid) \<longleftrightarrow> True"
| "ks_inside KsSetRelease \<longleftrightarrow> True"
| "ks_inside (KsReadMode l) \<longleftrightarrow> True"
| "ks_inside (KsReadLuid l mode) \<longleftrightarrow> True"
| "ks_inside (KsReadRelease l mode luid) \<longleftrightarrow> True"
| "ks_inside _ \<longleftrightarrow> False"

fun ks_view :: "ks_call \<Rightarrow> ks_call" where
  "ks_view (KsDecide l mode luid) =
     KsActed l (GuardianKillSwitchEvaluate l \<lparr>ks_Mode = mode, ks_VpnInterfaceLuid = luid\<rparr>)"
| "ks_view p = p"

fun ks_mid :: "ks_call \<Rightarrow> kill_switch_state \<Rightarrow> ks_call \<Rightarrow> kill_switch_state \<Rightarrow> bool" where
  "ks_mid p d (KsStoreMode mode luid) s \<longleftrightarrow>
     ks_atomic p d = Some (KsReturned STATUS_SUCCESS, d\<lparr>ks_Mode := mode, ks_VpnInterfaceLuid := luid\<rparr>)
     \<and> s = d"
| "ks_mid p d (KsStoreLuid luid) s \<longleftrightarrow>
     ks_atomic p d = Some (KsReturned STATUS_SUCCESS, s\<lparr>ks_VpnInterfaceLuid := luid\<rparr>)"
| "ks_mid p d KsSetRelease s \<longleftrightarrow> ks_atomic p d = Some (KsReturned STATUS_SUCCESS, s)"
| "ks_mid p d (KsReadMode l) s \<longleftrightarrow> p = KsEvaluate l \<and> s = d"
| "ks_mid p d (KsReadLuid l mode) s \<longleftrightarrow> p = KsEvaluate l \<and> s = d \<and> mode = ks_Mode d"
| "ks_mid p d (KsReadRelease l mode luid) s \<longleftrightarrow>
     p = KsEvaluate l \<and> s = d \<and> mode = ks_Mode d \<and> luid = ks_VpnInterfaceLuid d"
| "ks_mid p d _ s \<longleftrightarrow> False"

lemma ks_read_again:
  "GuardianKillSwitchEvaluate l \<lparr>ks_Mode = ks_Mode s, ks_VpnInterfaceLuid = ks_VpnInterfaceLuid s\<rparr> =
     GuardianKillSwitchEvaluate l s"
  by (cases s) simp

lemma ks_view_outside: "ks_mid p d q s \<Longrightarrow> ks_view p = p"
  by (cases p; cases q) auto

interpretation ks_section: spin_section ks_step ks_atomic ks_view ks_inside "\<lambda>_. True" ks_mid
proof (unfold_locales, goal_cases)
  case (1 p h s p' h' s')
  then show ?case
    by (cases p) (auto simp: acquire_def GuardianKillSwitchSet_def simp del: ks_mode_code.simps
        split: option.splits if_splits)
next
  case (2 p h s p' h' s')
  then show ?case
    by (cases p) (auto simp: acquire_def GuardianKillSwitchSet_def simp del: ks_mode_code.simps
        split: option.splits if_splits)
next
  case (3 p q d s q' h' s')
  then show ?case by (cases q) auto
next
  case (4 p q d s q' h' s')
  then have "ks_view p = p" using ks_view_outside by blast
  with 4 show ?case by (cases q) (auto simp: ks_read_again)
qed

section \<open>Evaluations see one setting\<close>

text \<open>The states of the kill switch before, and after each of the sets.\<close>

definition ks_settings :: "GUARDIAN_KILL_SWITCH_V1 option list \<Rightarrow> kill_switch_state \<Rightarrow> kill_switch_state set" where
  "ks_settings configs s = insert s ((\<lambda>config. snd (GuardianKillSwitchSet config s)) ` set configs)"

lemma ks_settings_closed:
  assumes "config \<in> set configs" and "u \<in> ks_settings configs s"
  shows "snd (GuardianKillSwitchSet config u) \<in> ks_settings configs s"
proof (cases "NT_SUCCESS (fst (GuardianKillSwitchSet config u))")
  case True
  then have "snd (GuardianKillSwitchSet config u) = snd (GuardianKillSwitchSet config s)"
    by (auto simp: GuardianKillSwitchSet_def split: option.splits if_splits)
  then show ?thesis using assms(1) by (auto simp: ks_settings_def)
next
  case False
  then have "snd (GuardianKillSwitchSet config u) = u"
    by (auto simp: GuardianKillSwitchSet_def split: option.splits if_splits)
  then show ?thesis using assms(2) by simp
qed

fun ks_asn ::
  "GUARDIAN_KILL_SWITCH_V1 option list \<Rightarrow> kill_switch_state \<Rightarrow> u64 list \<Rightarrow> nat \<Rightarrow> ks_call \<Rightarrow> bool" where
  "ks_asn configs s luids i (KsSet config) \<longleftrightarrow> config \<in> set configs"
| "ks_asn configs s luids i (KsEvaluate l) \<longleftrightarrow> length configs \<le> i \<longrightarrow> l = luids ! (i - length configs)"
| "ks_asn configs s luids i (KsActed l action) \<longleftrightarrow>
     (length configs \<le> i \<longrightarrow> l = luids ! (i - length configs)) \<and>
     action \<in> GuardianKillSwitchEvaluate l ` ks_settings configs s"
| "ks_asn configs s luids i _ \<longleftrightarrow> True"

lemma ks_atomic_invariant:
  "thread_invariant ks_atomic (\<lambda>u. u \<in> ks_settings configs s) (\<lambda>i p u. ks_asn configs s luids i p)"
proof
  show "u' \<in> ks_settings configs s \<and> ks_asn configs s luids i p'"
    if "u \<in> ks_settings configs s" "ks_asn configs s luids i p" "ks_atomic p u = Some (p', u')"
    for u i p p' u'
  proof (cases p)
    case (KsSet config)
    then show ?thesis using that ks_settings_closed [of config configs u s]
      by (cases "GuardianKillSwitchSet config u") auto
  qed (use that in auto)
qed

text \<open>
  C18: In every interleaving, access by access, of any number of sets and evaluations of the
  kill switch, each evaluation that has returned decides for its interface as the evaluation
  does on the initial setting or on that of one of the sets: none combines the mode of one
  setting with the interface of another.
\<close>

theorem kill_switch_evaluations_see_one_setting:
  assumes "pars ks_step (map KsSet configs @ map KsEvaluate luids, False, s) (ps, h, s')"
    and "j < length luids" and "ps ! (length configs + j) = KsActed l action"
  shows "l = luids ! j \<and> (\<exists>u \<in> ks_settings configs s. action = GuardianKillSwitchEvaluate l u)"
proof -
  let ?ps = "map KsSet configs @ map KsEvaluate luids" and ?i = "length configs + j"
  have outside: "list_all (\<lambda>p. True \<and> \<not> ks_inside p) ?ps" by (auto simp: list_all_iff)
  obtain a where a: "pars ks_atomic (map ks_view ?ps, s) a"
    "section_sim ks_view ks_inside (\<lambda>_. True) ks_mid (ps, h, s') a"
    using ks_section.sections_are_atomic [OF assms(1) ks_section.started [OF outside]] by blast
  then obtain qs d where qs: "a = (qs, d)" by (cases a)
  have len: "length ps = length ?ps" using pars_length [OF assms(1)] by simp
  have at: "qs ! ?i = KsActed l action" and len': "length qs = length ps"
    using a(2) assms(2,3) len unfolding qs
    by (cases rule: section_sim.cases; auto simp: nth_list_update)+
  have start: "map ks_view ?ps = ?ps" by simp
  have "ks_asn configs s luids i (?ps ! i)" if "i < length ?ps" for i
    using that by (auto simp: nth_append)
  from thread_invariant.always [OF ks_atomic_invariant a(1) [unfolded start qs] _ this]
  have "\<forall>i < length qs. ks_asn configs s luids i (qs ! i)" by (auto simp: ks_settings_def)
  moreover have "?i < length qs" using len len' assms(2) by simp
  ultimately have "ks_asn configs s luids ?i (KsActed l action)" using at by (metis (no_types))
  then show ?thesis by auto
qed

theorem kill_switch_evaluations_see_one_setting_witness:
  "let c = \<lparr>kc_Version = 1, kc_Mode = 2, kc_VpnInterfaceLuid = 5\<rparr>;
       s = \<lparr>ks_Mode = 0, ks_VpnInterfaceLuid = 0\<rparr>
   in \<exists>s' action. pars ks_step ([KsSet (Some c), KsEvaluate 5], False, s)
        ([KsReturned STATUS_SUCCESS, KsActed 5 action], False, s') \<and>
      (\<exists>u \<in> ks_settings [Some c] s. action = GuardianKillSwitchEvaluate 5 u)"
proof -
  let ?c = "\<lparr>kc_Version = 1, kc_Mode = 2, kc_VpnInterfaceLuid = 5\<rparr>"
  let ?s = "\<lparr>ks_Mode = 0, ks_VpnInterfaceLuid = 0\<rparr>"
  let ?ps = "[KsSet (Some ?c), KsEvaluate 5]"
  have "\<exists>action s'. schedule ks_step [0, 1, 0, 0, 0, 1, 1, 1, 1, 1] (?ps, False, ?s) =
      ([KsReturned STATUS_SUCCESS, KsActed 5 action], False, s')"
    by (simp add: acquire_def GUARDIAN_KILL_SWITCH_VERSION_def)
  then obtain action s' where run: "pars ks_step (?ps, False, ?s)
      ([KsReturned STATUS_SUCCESS, KsActed 5 action], False, s')"
    using schedule_pars [of ks_step "(?ps, False, ?s)"] by metis
  then have "\<exists>u \<in> ks_settings [Some ?c] ?s. action = GuardianKillSwitchEvaluate 5 u"
    using kill_switch_evaluations_see_one_setting [of "[Some ?c]" "[5]" ?s _ _ _ 0 5 action] by auto
  then show ?thesis using run by (auto simp: Let_def)
qed

end
