(* ===== verification/Lock_Progress.thy ===== *)
theory Lock_Progress
  imports Locked_Tables Locked_Kill_Switch
begin

text \<open>
  Calls that wait for a spin lock return. A thread that finds the lock held has no step here; in the
  code it spins, and these turns are not counted. The lock of a table is a variable, so a path that
  forgot to release it would leave the waiting threads without a step for ever. The contract
  lock\_progress excludes that: a held lock has a thread inside a critical section, which can go on,
  and every step uses up a part of what is left to do. It holds for the steps of the code as they
  are, with the initialisation of a sync that frees a lock under its holder.
\<close>

section \<open>The contract\<close>

locale lock_progress =
  fixes step :: "('p, bool \<times> 't) thread_step" and inside over :: "'p \<Rightarrow> bool"
    and left :: "'p list \<Rightarrow> 't \<Rightarrow> nat"
  assumes takes: "step p (False, t) = Some (p', True, t') \<Longrightarrow> inside p'"
    and releases: "step p (h, t) = Some (p', True, t') \<Longrightarrow> inside p \<Longrightarrow> inside p'"
    and goes_on: "inside p \<Longrightarrow> step p s \<noteq> None"
    and waits: "step p (False, t) = None \<longleftrightarrow> over p"
    and over_for_good: "over p \<Longrightarrow> step p s = None"
    and uses: "i < length ps \<Longrightarrow> step (ps ! i) (h, t) = Some (p', h', t') \<Longrightarrow>
      left (ps[i := p']) t' < left ps t"
begin

text \<open>A held lock has a thread inside.\<close>

definition attended :: "'p list \<times> bool \<times> 't \<Rightarrow> bool" where
  "attended c \<longleftrightarrow> (fst (snd c) \<longrightarrow> (\<exists>i < length (fst c). inside (fst c ! i)))"

lemma par_attended:
  assumes "par step c c'" and "attended c"
  shows "attended c'"
  using assms(1)
proof (cases rule: par.cases)
  case (turn i ps s p' s')
  obtain h t h' t' where s: "s = (h, t)" "s' = (h', t')" by (metis surj_pair)
  have st: "step (ps ! i) (h, t) = Some (p', h', t')" using turn(4) s by simp
  have "\<exists>j < length ps. inside (ps[i := p'] ! j)" if h'
  proof (cases "inside p'")
    case True
    then show ?thesis using turn(3) by (intro exI [of _ i]) simp
  next
    case False
    then have "h" using takes [of "ps ! i" t p' t'] st that by (cases h) auto
    then obtain j where "j < length ps" "inside (ps ! j)"
      using assms(2) by (auto simp: attended_def turn(1) s)
    moreover have "j \<noteq> i" using releases st that False calculation by metis
    ultimately show ?thesis by (intro exI [of _ j]) simp
  qed
  then show ?thesis by (simp add: attended_def turn(2) s)
qed

lemma pars_attended: "pars step c c' \<Longrightarrow> attended c \<Longrightarrow> attended c'"
  by (induction rule: rtranclp_induct) (auto intro: par_attended)

lemma inside_not_over: "inside p \<Longrightarrow> \<not> over p"
  using goes_on over_for_good by blast

text \<open>When no thread can go on, all have returned and the lock is free.\<close>

lemma no_deadlock:
  assumes "attended (ps, h, t)"
  shows "(\<nexists>c. par step (ps, h, t) c) \<longleftrightarrow> list_all over ps"
proof
  assume stuck: "\<nexists>c. par step (ps, h, t) c"
  have none: "step (ps ! i) (h, t) = None" if "i < length ps" for i
    using stuck that par.turn [of i ps step "(h, t)"] by (cases "step (ps ! i) (h, t)") auto
  have "\<not> h"
  proof
    assume h
    then obtain i where "i < length ps" "inside (ps ! i)" using assms by (auto simp: attended_def)
    then show False using none [of i] goes_on [of "ps ! i" "(h, t)"] by simp
  qed
  then show "list_all over ps" using none waits by (auto simp: list_all_length)
next
  assume "list_all over ps"
  then show "\<nexists>c. par step (ps, h, t) c"
    using over_for_good by (fastforce simp: list_all_length elim: par.cases)
qed

lemma over_free: "attended (ps, h, t) \<Longrightarrow> list_all over ps \<Longrightarrow> \<not> h"
  using inside_not_over by (fastforce simp: attended_def list_all_length)

lemma par_uses: "par step (ps, h, t) (ps', h', t') \<Longrightarrow> left ps' t' < left ps t"
  by (auto elim!: par_cases intro: uses)

lemma steps_bounded: "(par step ^^ n) (ps, h, t) (ps', h', t') \<Longrightarrow> n + left ps' t' \<le> left ps t"
proof (induction n arbitrary: ps' h' t')
  case (Suc n)
  then obtain c1 where c1: "(par step ^^ n) (ps, h, t) c1" and st: "par step c1 (ps', h', t')" by auto
  obtain ps1 h1 t1 where "c1 = (ps1, h1, t1)" by (cases c1)
  then show ?case using Suc.IH [of ps1 h1 t1] par_uses [of ps1 h1 t1 ps' h' t'] c1 st by simp
qed simp

lemma all_return:
  "attended (ps, h, t) \<Longrightarrow> \<exists>ps' t'. pars step (ps, h, t) (ps', False, t') \<and> list_all over ps'"
proof (induction "left ps t" arbitrary: ps h t rule: less_induct)
  case less
  show ?case
  proof (cases "list_all over ps")
    case True
    then show ?thesis using over_free [OF less.prems True] by auto
  next
    case False
    then obtain c where st: "par step (ps, h, t) c" using no_deadlock [OF less.prems] by blast
    obtain ps1 h1 t1 where c: "c = (ps1, h1, t1)" by (cases c)
    obtain ps' t' where "pars step (ps1, h1, t1) (ps', False, t')" "list_all over ps'"
      using less.hyps [OF par_uses par_attended [OF st less.prems, unfolded c]] st c by blast
    then show ?thesis using st c by (blast intro: converse_rtranclp_into_rtranclp)
  qed
qed

text \<open>All of it, for executions that start with a free lock.\<close>

lemma calls_return:
  assumes "(par step ^^ n) (ps, False, t) (ps', h, t')"
  shows "n \<le> left ps t \<and> ((\<nexists>c. par step (ps', h, t') c) \<longleftrightarrow> list_all over ps') \<and>
    (list_all over ps' \<longrightarrow> \<not> h) \<and>
    (\<exists>ps'' t''. pars step (ps', h, t') (ps'', False, t'') \<and> list_all over ps'')"
proof -
  have "attended (ps', h, t')"
    using pars_attended [OF relpowp_imp_rtranclp [OF assms]] by (simp add: attended_def)
  note this = no_deadlock [OF this] over_free [OF this] all_return [OF this]
  then show ?thesis using steps_bounded [OF assms] by (intro conjI) auto
qed

end

section \<open>The calls on a table\<close>

fun call_over :: "('e, 'v, 'r) locked_call \<Rightarrow> bool" where
  "call_over (LReturned status) \<longleftrightarrow> True"
| "call_over (LLookedUp v r) \<longleftrightarrow> True"
| "call_over LFaulted \<longleftrightarrow> True"
| "call_over _ \<longleftrightarrow> False"

text \<open>How many entries a call may still insert.\<close>

fun inserts_after :: "'e after_set \<Rightarrow> nat" where
  "inserts_after ToCaller = 0"
| "inserts_after (ToSync alloc rd i n) = n"

fun inserts_left :: "('e, 'v, 'r) locked_call \<Rightarrow> nat" where
  "inserts_left (LSync alloc es count) = unat count"
| "inserts_left (LDrain alloc rd n) = n"
| "inserts_left (LShutCount alloc rd n) = n"
| "inserts_left (LShutRelease alloc rd n) = n"
| "inserts_left (LInitList alloc rd n) = n"
| "inserts_left (LInitLock alloc rd n) = n"
| "inserts_left (LInitCount alloc rd n) = n"
| "inserts_left (LLoop alloc rd i n) = n"
| "inserts_left (LSet k a e) = Suc (inserts_after k)"
| "inserts_left (LSetFind k p i) = Suc (inserts_after k)"
| "inserts_left (LSetCopy k p i) = inserts_after k"
| "inserts_left (LSetCheck k p) = Suc (inserts_after k)"
| "inserts_left (LSetInsert k p) = Suc (inserts_after k)"
| "inserts_left (LSetCount k) = inserts_after k"
| "inserts_left (LRelease k status) = inserts_after k"
| "inserts_left _ = 0"

text \<open>
  How many accesses a call still makes when the list never has more than m entries; an entry that a
  sync drains is counted with the list.
\<close>

definition loop_left :: "nat \<Rightarrow> nat \<Rightarrow> nat" where
  "loop_left m n = n * (m + 7) + 1"

fun left_after :: "nat \<Rightarrow> 'e after_set \<Rightarrow> nat" where
  "left_after m ToCaller = 0"
| "left_after m (ToSync alloc rd i n) = loop_left m n"

fun call_left :: "nat \<Rightarrow> ('e, 'v, 'r) locked_call \<Rightarrow> nat" where
  "call_left m (LSync alloc es count) = loop_left m (unat count) + 7"
| "call_left m (LDrain alloc rd n) = loop_left m n + 6"
| "call_left m (LShutCount alloc rd n) = loop_left m n + 5"
| "call_left m (LShutRelease alloc rd n) = loop_left m n + 4"
| "call_left m (LInitList alloc rd n) = loop_left m n + 3"
| "call_left m (LInitLock alloc rd n) = loop_left m n + 2"
| "call_left m (LInitCount alloc rd n) = loop_left m n + 1"
| "call_left m (LLoop alloc rd i n) = loop_left m n"
| "call_left m (LSet k a e) = left_after m k + m + 6"
| "call_left m (LSetFind k p i) = left_after m k + (m - i) + 5"
| "call_left m (LSetCopy k p i) = left_after m k + 2"
| "call_left m (LSetCheck k p) = left_after m k + 4"
| "call_left m (LSetInsert k p) = left_after m k + 3"
| "call_left m (LSetCount k) = left_after m k + 2"
| "call_left m (LRelease k status) = left_after m k + 1"
| "call_left m (LRemove appId) = m + 5"
| "call_left m (LRemoveFind appId i) = (m - i) + 4"
| "call_left m (LUnlink i) = 3"
| "call_left m LRemoveCount = 2"
| "call_left m (LLookup v) = m + 3"
| "call_left m (LLookFind v P i) = (m - i) + 2"
| "call_left m (LLookRelease v r) = 1"
| "call_left m _ = 0"

definition most_entries :: "('e, 'v, 'r) locked_call list \<Rightarrow> nat \<Rightarrow> nat" where
  "most_entries ps len = len + sum_list (map inserts_left ps)"

definition calls_left :: "('e, 'v, 'r) locked_call list \<Rightarrow> nat \<Rightarrow> nat" where
  "calls_left ps len =
     most_entries ps len + sum_list (map (call_left (most_entries ps len)) ps)"

lemma left_after_mono: "m \<le> m' \<Longrightarrow> left_after m k \<le> left_after m' k"
  by (cases k) (simp_all add: loop_left_def)

lemma call_left_mono: "m \<le> m' \<Longrightarrow> call_left m p \<le> call_left m' p"
  using left_after_mono [of m m'] by (cases p) (auto simp: loop_left_def intro!: add_mono diff_le_mono)

lemma finish_left: "call_left m (finish k status) \<le> left_after m k"
  "inserts_left (finish k status) \<le> inserts_after k"
  by (cases k; simp)+

context locked_table
begin

lemma step_uses:
  assumes "locked_step c acc p (h, t) = Some (p', h', t')" and "length (els t) \<le> m"
  shows "length (els t') + inserts_left p' \<le> length (els t) + inserts_left p \<and>
    (length (els t') + inserts_left p' < length (els t) + inserts_left p \<and> call_left m p' \<le> call_left m p \<or>
     call_left m p' < call_left m p)"
proof (cases p)
  case (LSync alloc es count)
  then show ?thesis using assms(1) by (auto simp: acquire_def loop_left_def split: option.splits if_splits)
next
  case (LDrain alloc rd n)
  then show ?thesis using assms(1) by (auto simp: access stored split: list.splits)
next
  case (LLoop alloc rd i n)
  then show ?thesis using assms(1)
    by (cases n) (auto simp: loop_left_def split: cell.splits sum.splits)
next
  case (LSet k a e)
  define q :: "ntstatus \<Rightarrow> ('e, 'v, 'r) locked_call" where "q = finish k"
  have "call_left m (q status) \<le> left_after m k" and "inserts_left (q status) \<le> inserts_after k"
    for status unfolding q_def by (rule finish_left)+
  then have "call_left m (q status) < call_left m p" and "inserts_left (q status) \<le> inserts_left p"
    for status by (simp_all add: LSet le_SucI order.strict_trans1 [where b = "left_after m k"])
  then show ?thesis using assms(1)
    by (auto simp: LSet acquire_def simp flip: q_def split: option.splits if_splits)
next
  case (LRelease k status)
  then show ?thesis using assms(1) by (auto simp: less_Suc_eq_le finish_left)
next
  case (LSetFind k e i)
  then show ?thesis using assms by (auto simp: access split: if_splits)
next
  case (LRemoveFind k i)
  then show ?thesis using assms by (auto simp: access split: if_splits)
next
  case (LLookFind v P i)
  then show ?thesis using assms by (auto simp: access split: if_splits)
qed (use assms in \<open>auto simp: access stored acquire_def loop_left_def split: option.splits if_splits\<close>)

text \<open>A step of one thread, seen from all of them.\<close>

lemma turn_uses:
  assumes i: "i < length ps" and "locked_step c acc (ps ! i) (h, t) = Some (p', h', t')"
  shows "calls_left (ps[i := p']) (length (els t')) < calls_left ps (length (els t))"
proof -
  let ?m = "most_entries ps (length (els t))" and ?m' = "most_entries (ps[i := p']) (length (els t'))"
  let ?rest = "\<lambda>f. sum_list (map f (take i ps)) + sum_list (map f (drop (Suc i) ps)) :: nat"
  have old: "sum_list (map f ps) = ?rest f + f (ps ! i)" for f :: "_ \<Rightarrow> nat"
    by (subst id_take_nth_drop [OF i]) simp
  have new: "sum_list (map f (ps[i := p'])) = ?rest f + f p'" for f :: "_ \<Rightarrow> nat"
    using i by (simp add: upd_conv_take_nth_drop)
  have "length (els t) \<le> ?m" by (simp add: most_entries_def)
  note step = step_uses [OF assms(2) this]
  have m: "?m' \<le> ?m" "?m' + (length (els t) + inserts_left (ps ! i)) =
      ?m + (length (els t') + inserts_left p')"
    using step by (simp_all add: most_entries_def old new)
  have rest: "?rest (call_left ?m') \<le> ?rest (call_left ?m)"
    by (intro add_mono sum_list_mono call_left_mono m)
  have "call_left ?m' p' \<le> call_left ?m p'" by (rule call_left_mono [OF m(1)])
  then have "?m' + call_left ?m' p' < ?m + call_left ?m (ps ! i)"
    using step m by auto
  then show ?thesis using rest unfolding calls_left_def old new by simp
qed

end

sublocale locked_table \<subseteq> progress: lock_progress "locked_step c acc" inside_section call_over
  "\<lambda>ps t. calls_left ps (length (els t))"
proof (unfold_locales, goal_cases)
  case (1 p t p' t')
  then show ?case
    by (cases "(c, acc, p, (False, t))" rule: locked_step.cases)
      (auto simp: acquire_def split: option.splits if_splits cell.splits sum.splits list.splits)
next
  case (2 p h t p' t')
  then show ?case
    by (cases "(c, acc, p, (h, t))" rule: locked_step.cases) (auto split: if_splits list.splits)
next
  case (3 p s)
  then show ?case
    by (cases "(c, acc, p, s)" rule: locked_step.cases) (auto split: list.splits)
next
  case (4 p t)
  then show ?case
    by (cases "(c, acc, p, (False, t))" rule: locked_step.cases)
      (auto simp: acquire_def split: option.splits if_splits cell.splits sum.splits list.splits)
next
  case (5 p s)
  then show ?case by (cases p) simp_all
next
  case 6
  then show ?case by (rule turn_uses)
qed

section \<open>The kill switch\<close>

fun ks_over :: "ks_call \<Rightarrow> bool" where
  "ks_over (KsReturned status) \<longleftrightarrow> True"
| "ks_over (KsActed l action) \<longleftrightarrow> True"
| "ks_over _ \<longleftrightarrow> False"

fun ks_left :: "ks_call \<Rightarrow> nat" where
  "ks_left (KsSet config) = 4"
| "ks_left (KsStoreMode mode luid) = 3"
| "ks_left (KsStoreLuid luid) = 2"
| "ks_left KsSetRelease = 1"
| "ks_left (KsEvaluate l) = 5"
| "ks_left (KsReadMode l) = 4"
| "ks_left (KsReadLuid l mode) = 3"
| "ks_left (KsReadRelease l mode luid) = 2"
| "ks_left (KsDecide l mode luid) = 1"
| "ks_left _ = 0"

interpretation ks_progress: lock_progress ks_step ks_inside ks_over "\<lambda>ps s. sum_list (map ks_left ps)"
proof (unfold_locales, goal_cases)
  case (1 p t p' t')
  then show ?case by (cases p) (auto simp: acquire_def split: option.splits if_splits)
next
  case (2 p h t p' t')
  then show ?case by (cases p) auto
next
  case (3 p s)
  then show ?case by (cases s; cases p) auto
next
  case (4 p t)
  then show ?case by (cases p) (auto simp: acquire_def split: option.splits)
next
  case (5 p s)
  then show ?case by (cases p) simp_all
next
  case (6 i ps h t p' h' t')
  then have "ks_left p' < ks_left (ps ! i)"
    by (cases "ps ! i") (auto simp: acquire_def split: option.splits if_splits)
  then show ?case using 6(1) by (subst (2) id_take_nth_drop [OF 6(1)]) (simp add: upd_conv_take_nth_drop)
qed

section \<open>Properties\<close>



text \<open>The same holds of the route table and of the kill switch.\<close>

lemma locked_route_calls_return:
  assumes "(par (locked_step route_class route_access) ^^ n) (ps, False, t) (ps', h, t')"
  shows "n \<le> calls_left ps (length (rt_list t)) \<and>
    (\<exists>ps'' t''. pars (locked_step route_class route_access) (ps', h, t') (ps'', False, t'') \<and>
       list_all call_over ps'')"
  using route_locked.progress.calls_return [OF assms] by blast

lemma kill_switch_calls_return:
  assumes "(par ks_step ^^ n) (ps, False, s) (ps', h, s')"
  shows "n \<le> sum_list (map ks_left ps) \<and>
    (\<exists>ps'' s''. pars ks_step (ps', h, s') (ps'', False, s'') \<and> list_all ks_over ps'')"
  using ks_progress.calls_return [OF assms] by blast

end
