(* ===== verification/Locked_Readers.thy ===== *)
theory Locked_Readers
  imports Locked_Tables
begin

text \<open>
  A policy sync and the lookups of the classify function, access by access. When the initialisation
  inside the sync finds the lock free, each lookup sees the table before the sync or one that a prefix
  of the array leaves; when it frees the lock of a lookup, that lookup can return what none of these
  tables gives.
\<close>

section \<open>Readers of a sync\<close>

context concurrent_table
begin

lemma readers_look_up:
  assumes "pars (table_step ops) (SyncEntry alloc (Some rd) count # map LookupEntry vs, t) (qs, d)"
    and "j < length vs"
  shows "qs ! Suc j = LookupEntry (vs ! j) \<or> (\<exists>r. qs ! Suc j = LookedUp (vs ! j) r)"
proof -
  let ?ps = "SyncEntry alloc (Some rd) count # map LookupEntry vs"
  have "asn alloc rd count t vs i (?ps ! i) t" if "i < length ?ps" for i
    using that by (cases i) (simp_all add: asn_def)
  then have "\<forall>i < length qs. asn alloc rd count t vs i (qs ! i) d"
    using thread_invariant.always [OF readers_invariant assms(1)] by (simp add: seen_def)
  moreover have "length qs = Suc (length vs)" using pars_length [OF assms(1)] by simp
  ultimately have "reader_asn alloc rd count t (vs ! j) (qs ! Suc j)"
    using assms(2) by (auto simp: asn_def dest!: spec [of _ "Suc j"])
  then show ?thesis by (cases "qs ! Suc j") auto
qed

end

text \<open>A thread that is inside a section of a lookup has not changed the table.\<close>

lemma lookup_section_reads:
  assumes "policy_locked.mid p d q t" and "atomic_call p = LookupEntry v"
  shows "t = d"
proof -
  have "p = LLookup v" using assms(2) by (cases p) (auto elim: atomic_call.elims)
  then show ?thesis using assms(1) by (cases q) (auto elim: finish.elims)
qed

lemma no_section_of_returned:
  assumes "policy_locked.mid p d q t"
  shows "atomic_call p \<noteq> LookedUp v r"
proof
  assume "atomic_call p = LookedUp v r"
  then have "p = LLookedUp v r" by (cases p) (auto elim: atomic_call.elims)
  then show False using assms by (cases q) auto
qed

section \<open>Properties\<close>

text \<open>
  C7: In every interleaving, access by access, of a policy sync with any number of classify-time
  lookups in which the unlocked initialisation inside the sync finds the lock free, the sync
  that has returned has the status and the table that GuardianAppPolicySync gives on its own,
  and every lookup that has returned gives what a lookup gives on the table before the sync or
  on the table that some prefix of the array leaves. Without that condition it fails: a lookup
  whose lock the initialisation frees can return a policy that none of these tables gives (lemma
  \<open>lookup_under_freed_lock_sees_no_prefix\<close>).
\<close>

theorem policy_sync_readers_see_a_prefix:
  assumes run: "pars (quiet_step policy_class policy_access)
    (LSync alloc (Some policies) count # map LLookup vs, False, t) (ps, h, t')"
  shows "(\<forall>st. ps ! 0 = LReturned st \<longrightarrow>
      GuardianAppPolicySync alloc (Some policies) count t = Inr (st, t')) \<and>
    (\<forall>j < length vs. \<forall>w r. ps ! Suc j = LLookedUp w r \<longrightarrow>
      (\<exists>u. r = GuardianAppPolicyLookup (vs ! j) u \<and>
        (u = t \<or> (\<exists>m \<le> unat count.
           policy_sync_loop alloc policies 0 m GuardianAppPolicyInitialize =
             Inr (STATUS_SUCCESS, u)))))"
proof -
  let ?ps = "LSync alloc (Some policies) count # map LLookup vs"
  have "list_all (\<lambda>p. proper_call p \<and> \<not> inside_section p) ?ps" by (simp add: list_all_iff)
  from policy_locked.critical.sections_are_atomic [OF run policy_locked.critical.started [OF this]]
  obtain qs d where "pars (table_step policy_ops) (map atomic_call ?ps, t) (qs, d)"
    and sim: "policy_locked.critical.sim (ps, h, t') (qs, d)" by (metis surj_pair)
  then have qs: "pars (table_step policy_ops)
      (SyncEntry alloc (Some policies) count # map LookupEntry vs, t) (qs, d)"
    by (simp add: comp_def)
  note seen = policy_threads.sync_with_readers [OF qs]
  have len: "length qs = Suc (length vs)" "length ps = Suc (length vs)"
    using pars_length [OF qs] pars_length [OF run] by simp_all
  have view: "qs ! i = atomic_call (ps ! i)" if "i < length ps" "\<not> inside_section (ps ! i)" for i
    using sim that by (cases rule: section_sim.cases) (auto simp: nth_list_update)
  have table: "t' = d" if "ps ! 0 = LReturned st" for st
    using sim
  proof (cases rule: section_sim.cases)
    case (held i p)
    have "i \<noteq> 0" using held that by (cases "i = 0") auto
    then obtain j where j: "i = Suc j" "j < length vs" using held len by (cases i) auto
    have "qs ! i = atomic_call p" using held by simp
    moreover from policy_threads.readers_look_up [OF qs j(2)]
    have "atomic_call p = LookupEntry (vs ! j)"
      using calculation j no_section_of_returned held(5) by auto
    ultimately show ?thesis using lookup_section_reads held by blast
  qed simp
  have "GuardianAppPolicySync alloc (Some policies) count t = Inr (st, t')" if "ps ! 0 = LReturned st" for st
    using seen view [of 0] table [OF that] that len by auto
  moreover have "\<exists>u. policy_threads.seen alloc policies count t u \<and> r = GuardianAppPolicyLookup (vs ! j) u"
    if "j < length vs" "ps ! Suc j = LLookedUp w r" for j w r
    using seen view [of "Suc j"] that len by (cases r) (auto simp: policy_ops_def)
  ultimately show ?thesis unfolding policy_threads.seen_def by metis
qed

theorem policy_sync_readers_see_a_prefix_witness:
  "GuardianAppPolicySync (\<lambda>_. True) (Some (\<lambda>_. Readable (zero_app_policy\<lparr>ap_Version := 1\<rparr>))) 1
     GuardianAppPolicyInitialize =
     Inr (STATUS_SUCCESS, \<lparr>pt_list = [zero_app_policy\<lparr>ap_Version := 1\<rparr>], pt_count = 1\<rparr>)"
proof -
  let ?step = "quiet_step policy_class policy_access" and ?p = "zero_app_policy\<lparr>ap_Version := 1\<rparr>"
  let ?c = "(LSync (\<lambda>_. True) (Some (\<lambda>_. Readable ?p)) 1 # map LLookup [None],
      False, GuardianAppPolicyInitialize)"
  let ?r = "(STATUS_INVALID_PARAMETER, zero_app_policy, False)"
  have one: "unat (1 :: u32) = Suc 0" by simp
  have "schedule ?step [0, 0, 1, 0, 0, 0, 0, 0, 0, 0, 0, 0, 0, 0, 0, 0] ?c =
      ([LReturned STATUS_SUCCESS, LLookedUp None ?r], False, \<lparr>pt_list = [?p], pt_count = 1\<rparr>)"
    by (simp add: quiet_step_def policy_class_def policy_access_def acquire_def one
        GuardianAppPolicyInitialize_def GUARDIAN_MAX_POLICIES_def GUARDIAN_APP_POLICY_VERSION_def
        GUARDIAN_MAX_SYNC_POLICIES_def zero_app_policy_def)
  then have "pars ?step ?c
      ([LReturned STATUS_SUCCESS, LLookedUp None ?r], False, \<lparr>pt_list = [?p], pt_count = 1\<rparr>)"
    using schedule_pars by metis
  from policy_sync_readers_see_a_prefix [OF this] show ?thesis by simp
qed

text \<open>
  Without the condition on the initialisation this fails. The lookup here takes the lock of the
  emptied table, the initialisation of the sync frees it, and the sync inserts a policy that does not
  match, overwrites it by one that does, and appends another one that matches. The lookup passes the
  first before it is overwritten and returns the last, which it finds in no table that a prefix of the
  array leaves.
\<close>

lemma lookup_under_freed_lock_sees_no_prefix:
  defines "a \<equiv> zero_app_policy\<lparr>ap_Version := 1, ap_MatchKind := match_kind_code GuardianMatchSid\<rparr>"
    and "a' \<equiv> zero_app_policy\<lparr>ap_Version := 1\<rparr>"
    and "b \<equiv> zero_app_policy\<lparr>ap_Version := 1, ap_AppId := replicate 16 1\<rparr>"
    and "v \<equiv> Some (connect_v4 None)"
  shows "\<exists>t'. pars (locked_step policy_class policy_access)
      ([LSync (\<lambda>_. True) (Some (\<lambda>i. Readable ([a, a', b] ! i))) 3, LLookup v], False,
       GuardianAppPolicyInitialize)
      ([LReturned STATUS_SUCCESS, LLookedUp v (STATUS_SUCCESS, b, True)], False, t')"
    and "\<forall>m \<le> 3. \<forall>u. policy_sync_loop (\<lambda>_. True) (\<lambda>i. Readable ([a, a', b] ! i)) 0 m
        GuardianAppPolicyInitialize = Inr (STATUS_SUCCESS, u) \<longrightarrow>
      GuardianAppPolicyLookup v u \<noteq> (STATUS_SUCCESS, b, True)"
proof -
  let ?step = "locked_step policy_class policy_access"
  let ?c = "([LSync (\<lambda>_. True) (Some (\<lambda>i. Readable ([a, a', b] ! i))) 3, LLookup v], False,
       GuardianAppPolicyInitialize)"
  have three: "unat (3 :: u32) = Suc (Suc (Suc 0))" by simp
  have room: "\<not> (4096 :: u32) \<le> 1" by (simp add: word_le_nat_alt)
  note sets = room policy_class_def policy_access_def acquire_def three GuardianAppPolicyInitialize_def
    GUARDIAN_MAX_POLICIES_def GUARDIAN_APP_POLICY_VERSION_def GUARDIAN_MAX_SYNC_POLICIES_def
    a_def a'_def b_def v_def zero_app_policy_def policy_matches_def
  let ?rd = "\<lambda>i. Readable ([a, a', b] ! i)"
  have "schedule ?step [0, 0, 0, 0, 1] ?c =
      ([LInitList (\<lambda>_. True) ?rd (unat (3 :: u32)), LLookFind v (policy_matches (app_id_blob (connect_v4 None))) 0],
       True, GuardianAppPolicyInitialize)"
    by (simp add: policy_class_def policy_access_def acquire_def GuardianAppPolicyInitialize_def
        GUARDIAN_MAX_SYNC_POLICIES_def v_def)
  note start = schedule_pars [of ?step ?c, where turns = "[0, 0, 0, 0, 1]", unfolded this three]
  have "schedule ?step [0, 0, 0, 0, 0, 0, 0, 0, 0, 1, 0, 0, 0, 0, 0, 0, 0, 0, 0, 0, 0, 0, 0, 0, 0, 1, 1]
      ([LInitList (\<lambda>_. True) ?rd (Suc (Suc (Suc 0))),
        LLookFind v (policy_matches (app_id_blob (connect_v4 None))) 0], True, GuardianAppPolicyInitialize) =
      ([LReturned STATUS_SUCCESS, LLookedUp v (STATUS_SUCCESS, b, True)], False,
       \<lparr>pt_list = [a', b], pt_count = 2\<rparr>)"
    by (simp add: sets)
  then have "pars ?step ([LInitList (\<lambda>_. True) ?rd (Suc (Suc (Suc 0))),
        LLookFind v (policy_matches (app_id_blob (connect_v4 None))) 0], True, GuardianAppPolicyInitialize)
      ([LReturned STATUS_SUCCESS, LLookedUp v (STATUS_SUCCESS, b, True)], False,
       \<lparr>pt_list = [a', b], pt_count = 2\<rparr>)" using schedule_pars by metis
  from rtranclp_trans [OF start this]
  show "\<exists>t'. pars ?step ?c
      ([LReturned STATUS_SUCCESS, LLookedUp v (STATUS_SUCCESS, b, True)], False, t')" by blast
  show "\<forall>m \<le> 3. \<forall>u. policy_sync_loop (\<lambda>_. True) (\<lambda>i. Readable ([a, a', b] ! i)) 0 m
        GuardianAppPolicyInitialize = Inr (STATUS_SUCCESS, u) \<longrightarrow>
      GuardianAppPolicyLookup v u \<noteq> (STATUS_SUCCESS, b, True)"
  proof (intro allI impI)
    fix m u
    assume m: "m \<le> 3" and loop: "policy_sync_loop (\<lambda>_. True) (\<lambda>i. Readable ([a, a', b] ! i)) 0 m
        GuardianAppPolicyInitialize = Inr (STATUS_SUCCESS, u)"
    then have "m = 0 \<or> m = Suc 0 \<or> m = Suc (Suc 0) \<or> m = Suc (Suc (Suc 0))" by arith
    with loop have "pt_list u \<in> {[], [a], [a'], [a', b]}"
      by (auto simp: sets GuardianAppPolicySet_def GuardianPolicyFindLocked_def key_find_def Let_def)
    then show "GuardianAppPolicyLookup v u \<noteq> (STATUS_SUCCESS, b, True)"
      by (auto simp: GuardianAppPolicyLookup_def policy_lookup_loop_find sets)
  qed
qed

end
