(* ===== verification/Concurrent_Telemetry.thy ===== *)
theory Concurrent_Telemetry
  imports Telemetry Interleaving
begin

text \<open>
  driver/telemetry/telemetry.c under concurrency. Classify calls arrive on any processor and the
  request queue is parallel, so the recording functions run interleaved. Here each is a thread
  that makes one access to the counters at a time: an interlocked operation, a plain read or a
  plain write. Run alone it is the function of the theory Telemetry.
\<close>

section \<open>The recording functions as threads\<close>

datatype recording =
  ClassifyCount GUARDIAN_CLASSIFY_ACTION u64
| ClassifyAction GUARDIAN_CLASSIFY_ACTION u64
| ClassifyTestSamples u64
| ClassifySum u64
| ClassifySamples u64
| ClassifyTestMax u64
| ClassifyStoreMax u64
| IpcDispatch bool u64
| IpcReject bool u64
| IpcSum u64
| IpcSamples u64
| IpcTestMax u64
| IpcStoreMax u64
| ErrorCount
| DnsObserveCount
| Recorded

fun record_step :: "(recording, telemetry_state) thread_step" where
  "record_step (ClassifyCount a l) t =
     Some (ClassifyAction a l, t\<lparr>tm_ClassifyCount := tm_ClassifyCount t + 1\<rparr>)"
| "record_step (ClassifyAction a l) t = Some (ClassifyTestSamples l, count_action a t)"
| "record_step (ClassifyTestSamples l) t =
     Some (if tm_LatencySamples t AND GUARDIAN_LATENCY_SAMPLE_MASK = 0 then ClassifySum l
           else Recorded, t)"
| "record_step (ClassifySum l) t =
     Some (ClassifySamples l, t\<lparr>tm_LatencySum100ns := tm_LatencySum100ns t + l\<rparr>)"
| "record_step (ClassifySamples l) t =
     Some (ClassifyTestMax l, t\<lparr>tm_LatencySamples := tm_LatencySamples t + 1\<rparr>)"
| "record_step (ClassifyTestMax l) t =
     Some (if tm_MaxLatency100ns t < l then ClassifyStoreMax l else Recorded, t)"
| "record_step (ClassifyStoreMax l) t = Some (Recorded, t\<lparr>tm_MaxLatency100ns := l\<rparr>)"
| "record_step (IpcDispatch r l) t =
     Some (if r then IpcReject r l else IpcSum l,
           t\<lparr>tm_IpcDispatchCount := tm_IpcDispatchCount t + 1\<rparr>)"
| "record_step (IpcReject r l) t =
     Some (IpcSum l, t\<lparr>tm_IpcRejectCount := tm_IpcRejectCount t + 1\<rparr>)"
| "record_step (IpcSum l) t =
     Some (IpcSamples l, t\<lparr>tm_IpcLatencySum100ns := tm_IpcLatencySum100ns t + l\<rparr>)"
| "record_step (IpcSamples l) t =
     Some (IpcTestMax l, t\<lparr>tm_IpcLatencySamples := tm_IpcLatencySamples t + 1\<rparr>)"
| "record_step (IpcTestMax l) t =
     Some (if tm_MaxIpcLatency100ns t < l then IpcStoreMax l else Recorded, t)"
| "record_step (IpcStoreMax l) t = Some (Recorded, t\<lparr>tm_MaxIpcLatency100ns := l\<rparr>)"
| "record_step ErrorCount t = Some (Recorded, t\<lparr>tm_ErrorCount := tm_ErrorCount t + 1\<rparr>)"
| "record_step DnsObserveCount t =
     Some (Recorded, t\<lparr>tm_DnsObserveCount := tm_DnsObserveCount t + 1\<rparr>)"
| "record_step Recorded t = None"

lemma record_classify_alone:
  "solo record_step 8 (ClassifyCount a l) t = (Recorded, GuardianTelemetryRecordClassify a l t)"
  by (simp add: GuardianTelemetryRecordClassify_def sample_latency_def Let_def numeral_eq_Suc)

lemma record_ipc_alone:
  "solo record_step 8 (IpcDispatch r l) t = (Recorded, GuardianPerfRecordIpc r l t)"
  by (simp add: GuardianPerfRecordIpc_def Let_def numeral_eq_Suc)

lemma record_others_alone:
  "solo record_step 8 ErrorCount t = (Recorded, GuardianTelemetryRecordError t)"
  "solo record_step 8 DnsObserveCount t = (Recorded, GuardianTelemetryRecordDnsObserve t)"
  by (simp_all add: GuardianTelemetryRecordError_def GuardianTelemetryRecordDnsObserve_def
      numeral_eq_Suc)

fun records_left :: "recording \<Rightarrow> nat" where
  "records_left (ClassifyCount a l) = 7"
| "records_left (ClassifyAction a l) = 6"
| "records_left (ClassifyTestSamples l) = 5"
| "records_left (ClassifySum l) = 4"
| "records_left (ClassifySamples l) = 3"
| "records_left (ClassifyTestMax l) = 2"
| "records_left (ClassifyStoreMax l) = 1"
| "records_left (IpcDispatch r l) = 6"
| "records_left (IpcReject r l) = 5"
| "records_left (IpcSum l) = 4"
| "records_left (IpcSamples l) = 3"
| "records_left (IpcTestMax l) = 2"
| "records_left (IpcStoreMax l) = 1"
| "records_left ErrorCount = 1"
| "records_left DnsObserveCount = 1"
| "records_left Recorded = 0"

interpretation record_bound: thread_bound record_step records_left
proof
  show "record_step p s = Some (p', s') \<Longrightarrow> records_left p' < records_left p" for p s p' s'
    by (cases p) (auto split: if_splits)
  show "record_step p s = None \<longleftrightarrow> records_left p = 0" for p s
    by (cases p) simp_all
qed

text \<open>A recorded event and the call that records it.\<close>

datatype event =
  ConnectionClassified GUARDIAN_CLASSIFY_ACTION u64 | Dispatched bool u64 | ClassifyFailed | DnsObserved

fun recorder :: "event \<Rightarrow> recording" where
  "recorder (ConnectionClassified a l) = ClassifyCount a l"
| "recorder (Dispatched r l) = IpcDispatch r l"
| "recorder ClassifyFailed = ErrorCount"
| "recorder DnsObserved = DnsObserveCount"

fun record_event :: "event \<Rightarrow> telemetry_state \<Rightarrow> telemetry_state" where
  "record_event (ConnectionClassified a l) t = GuardianTelemetryRecordClassify a l t"
| "record_event (Dispatched r l) t = GuardianPerfRecordIpc r l t"
| "record_event ClassifyFailed t = GuardianTelemetryRecordError t"
| "record_event DnsObserved t = GuardianTelemetryRecordDnsObserve t"

lemma recorder_alone: "solo record_step 8 (recorder e) t = (Recorded, record_event e t)"
  by (cases e) (simp_all only: recorder.simps record_event.simps record_classify_alone
      record_ipc_alone record_others_alone)

section \<open>What each thread owes a counter\<close>

fun action_counter :: "GUARDIAN_CLASSIFY_ACTION \<Rightarrow> telemetry_state \<Rightarrow> u64" where
  "action_counter GuardianActionBlock t = tm_BlockCount t"
| "action_counter GuardianActionRoute t = tm_RouteCount t"
| "action_counter GuardianActionObserve t = tm_ObserveCount t"
| "action_counter GuardianActionPermit t = tm_PermitCount t"

fun owes_classify :: "recording \<Rightarrow> u64" where
  "owes_classify (ClassifyCount a l) = 1"
| "owes_classify _ = 0"

fun owes_action :: "GUARDIAN_CLASSIFY_ACTION \<Rightarrow> recording \<Rightarrow> u64" where
  "owes_action b (ClassifyCount a l) = (if a = b then 1 else 0)"
| "owes_action b (ClassifyAction a l) = (if a = b then 1 else 0)"
| "owes_action b _ = 0"

fun owes_dispatch :: "recording \<Rightarrow> u64" where
  "owes_dispatch (IpcDispatch r l) = 1"
| "owes_dispatch _ = 0"

fun owes_reject :: "recording \<Rightarrow> u64" where
  "owes_reject (IpcDispatch r l) = (if r then 1 else 0)"
| "owes_reject (IpcReject r l) = 1"
| "owes_reject _ = 0"

fun owes_ipc_latency :: "recording \<Rightarrow> u64" where
  "owes_ipc_latency (IpcDispatch r l) = l"
| "owes_ipc_latency (IpcReject r l) = l"
| "owes_ipc_latency (IpcSum l) = l"
| "owes_ipc_latency _ = 0"

fun owes_ipc_sample :: "recording \<Rightarrow> u64" where
  "owes_ipc_sample (IpcDispatch r l) = 1"
| "owes_ipc_sample (IpcReject r l) = 1"
| "owes_ipc_sample (IpcSum l) = 1"
| "owes_ipc_sample (IpcSamples l) = 1"
| "owes_ipc_sample _ = 0"

fun owes_error :: "recording \<Rightarrow> u64" where
  "owes_error ErrorCount = 1"
| "owes_error _ = 0"

fun owes_dns :: "recording \<Rightarrow> u64" where
  "owes_dns DnsObserveCount = 1"
| "owes_dns _ = 0"

lemma action_counter_simps [simp]:
  "action_counter b (t\<lparr>tm_ClassifyCount := n\<rparr>) = action_counter b t"
  "action_counter b (t\<lparr>tm_LatencySum100ns := n\<rparr>) = action_counter b t"
  "action_counter b (t\<lparr>tm_LatencySamples := n\<rparr>) = action_counter b t"
  "action_counter b (t\<lparr>tm_MaxLatency100ns := n\<rparr>) = action_counter b t"
  "action_counter b (t\<lparr>tm_IpcDispatchCount := n\<rparr>) = action_counter b t"
  "action_counter b (t\<lparr>tm_IpcRejectCount := n\<rparr>) = action_counter b t"
  "action_counter b (t\<lparr>tm_IpcLatencySum100ns := n\<rparr>) = action_counter b t"
  "action_counter b (t\<lparr>tm_IpcLatencySamples := n\<rparr>) = action_counter b t"
  "action_counter b (t\<lparr>tm_MaxIpcLatency100ns := n\<rparr>) = action_counter b t"
  "action_counter b (t\<lparr>tm_ErrorCount := n\<rparr>) = action_counter b t"
  "action_counter b (t\<lparr>tm_DnsObserveCount := n\<rparr>) = action_counter b t"
  by (cases b; simp)+

lemma action_counter_count [simp]:
  "action_counter b (count_action a t) = action_counter b t + (if a = b then 1 else 0)"
  by (cases a; cases b; simp add: count_action_def)

lemma count_action_others [simp]:
  "tm_IpcDispatchCount (count_action a t) = tm_IpcDispatchCount t"
  "tm_IpcRejectCount (count_action a t) = tm_IpcRejectCount t"
  "tm_IpcLatencySum100ns (count_action a t) = tm_IpcLatencySum100ns t"
  "tm_IpcLatencySamples (count_action a t) = tm_IpcLatencySamples t"
  "tm_ErrorCount (count_action a t) = tm_ErrorCount t"
  "tm_DnsObserveCount (count_action a t) = tm_DnsObserveCount t"
  "tm_MaxIpcLatency100ns (count_action a t) = tm_MaxIpcLatency100ns t"
  by (cases a; simp add: count_action_def)+

interpretation classify_ledger: thread_ledger record_step tm_ClassifyCount owes_classify
  by unfold_locales (erule record_step.elims; auto)

interpretation action_ledger: thread_ledger record_step "action_counter b" "owes_action b" for b
  by unfold_locales (erule record_step.elims; auto)

interpretation dispatch_ledger: thread_ledger record_step tm_IpcDispatchCount owes_dispatch
  by unfold_locales (erule record_step.elims; auto)

interpretation reject_ledger: thread_ledger record_step tm_IpcRejectCount owes_reject
  by unfold_locales (erule record_step.elims; auto)

interpretation ipc_latency_ledger: thread_ledger record_step tm_IpcLatencySum100ns owes_ipc_latency
  by unfold_locales (erule record_step.elims; auto)

interpretation ipc_sample_ledger: thread_ledger record_step tm_IpcLatencySamples owes_ipc_sample
  by unfold_locales (erule record_step.elims; auto)

interpretation error_ledger: thread_ledger record_step tm_ErrorCount owes_error
  by unfold_locales (erule record_step.elims; auto)

interpretation dns_ledger: thread_ledger record_step tm_DnsObserveCount owes_dns
  by unfold_locales (erule record_step.elims; auto)


text \<open>Recording the events one after another pays every ledger the same.\<close>

lemma ledger_fold:
  assumes "thread_ledger record_step counter owed" and "owed Recorded = 0"
  shows "counter (fold record_event es t) = counter t + sum_list (map (owed \<circ> recorder) es)"
proof (induction es arbitrary: t)
  case (Cons e es)
  have "pars record_step ([recorder e], t) ([Recorded], record_event e t)"
    using solo_pars [of 0 "[recorder e]" record_step 8 t] recorder_alone [of e t] by simp
  then have "counter (record_event e t) = counter t + owed (recorder e)"
    using thread_ledger.settled [OF assms(1)] assms(2) by fastforce
  with Cons show ?case by (simp add: add.assoc)
qed simp

lemma ledger_interleaved:
  assumes "thread_ledger record_step counter owed" and "owed Recorded = 0"
    and "pars record_step (map recorder es, t) (ps, t')" and "set ps \<subseteq> {Recorded}"
  shows "counter t' = counter (fold record_event es t)"
proof -
  have "owed p = 0" if "p \<in> set ps" for p using that assms(2,4) by auto
  then show ?thesis
    using thread_ledger.settled [OF assms(1,3)] ledger_fold [OF assms(1,2), of es t] by simp
qed

text \<open>What the recorders of a list of events owe together.\<close>

definition tally :: "(event \<Rightarrow> bool) \<Rightarrow> event list \<Rightarrow> u64" where
  "tally P es = of_nat (length (filter P es))"

fun event_ipc_latency :: "event \<Rightarrow> u64" where
  "event_ipc_latency (Dispatched r l) = l"
| "event_ipc_latency _ = 0"

lemma tally_simps [simp]:
  "tally P [] = 0"
  "tally P (e # es) = (if P e then 1 else 0) + tally P es"
  by (simp_all add: tally_def)

lemma tally_owed:
  assumes "\<And>e. owed (recorder e) = (if P e then 1 else 0)"
  shows "sum_list (map (owed \<circ> recorder) es) = tally P es"
  by (induction es) (simp_all add: assms)

lemma owed_tally:
  "sum_list (map (owes_classify \<circ> recorder) es) = tally (\<lambda>e. \<exists>a l. e = ConnectionClassified a l) es"
  "sum_list (map (owes_action a \<circ> recorder) es) = tally (\<lambda>e. \<exists>l. e = ConnectionClassified a l) es"
  "sum_list (map (owes_dispatch \<circ> recorder) es) = tally (\<lambda>e. \<exists>r l. e = Dispatched r l) es"
  "sum_list (map (owes_reject \<circ> recorder) es) = tally (\<lambda>e. \<exists>l. e = Dispatched True l) es"
  "sum_list (map (owes_ipc_sample \<circ> recorder) es) = tally (\<lambda>e. \<exists>r l. e = Dispatched r l) es"
  "sum_list (map (owes_error \<circ> recorder) es) = tally (\<lambda>e. e = ClassifyFailed) es"
  "sum_list (map (owes_dns \<circ> recorder) es) = tally (\<lambda>e. e = DnsObserved) es"
  by (rule tally_owed; case_tac e; simp)+

lemma owed_latency:
  "sum_list (map (owes_ipc_latency \<circ> recorder) es) = sum_list (map event_ipc_latency es)"
proof -
  have "owes_ipc_latency (recorder e) = event_ipc_latency e" for e by (cases e) simp_all
  then show ?thesis by (simp add: comp_def)
qed

lemmas ledgers = classify_ledger.thread_ledger_axioms action_ledger.thread_ledger_axioms
  dispatch_ledger.thread_ledger_axioms reject_ledger.thread_ledger_axioms
  ipc_latency_ledger.thread_ledger_axioms ipc_sample_ledger.thread_ledger_axioms
  error_ledger.thread_ledger_axioms dns_ledger.thread_ledger_axioms

section \<open>The maxima\<close>

text \<open>
  The latency a thread may still store as a maximum. A maximum that a thread is about to store
  was above the one it read, which is at least the one at the start.
\<close>

fun classify_candidate :: "recording \<Rightarrow> u64 option" where
  "classify_candidate (ClassifyCount a l) = Some l"
| "classify_candidate (ClassifyAction a l) = Some l"
| "classify_candidate (ClassifyTestSamples l) = Some l"
| "classify_candidate (ClassifySum l) = Some l"
| "classify_candidate (ClassifySamples l) = Some l"
| "classify_candidate (ClassifyTestMax l) = Some l"
| "classify_candidate (ClassifyStoreMax l) = Some l"
| "classify_candidate _ = None"

fun ipc_candidate :: "recording \<Rightarrow> u64 option" where
  "ipc_candidate (IpcDispatch r l) = Some l"
| "ipc_candidate (IpcReject r l) = Some l"
| "ipc_candidate (IpcSum l) = Some l"
| "ipc_candidate (IpcSamples l) = Some l"
| "ipc_candidate (IpcTestMax l) = Some l"
| "ipc_candidate (IpcStoreMax l) = Some l"
| "ipc_candidate _ = None"

definition maximum_of :: "u64 \<Rightarrow> u64 set \<Rightarrow> u64 \<Rightarrow> bool" where
  "maximum_of m0 L m \<longleftrightarrow> m0 \<le> m \<and> m \<in> insert m0 L"

definition candidate_asn ::
  "u64 \<Rightarrow> u64 set \<Rightarrow> u64 \<Rightarrow> u64 set \<Rightarrow> nat \<Rightarrow> recording \<Rightarrow> telemetry_state \<Rightarrow> bool" where
  "candidate_asn c0 C m0 L i p t \<longleftrightarrow>
     set_option (classify_candidate p) \<subseteq> C \<and> set_option (ipc_candidate p) \<subseteq> L \<and>
     (\<forall>l. p = ClassifyStoreMax l \<longrightarrow> c0 \<le> l) \<and> (\<forall>l. p = IpcStoreMax l \<longrightarrow> m0 \<le> l)"

lemma count_action_max [simp]:
  "tm_MaxLatency100ns (count_action a t) = tm_MaxLatency100ns t"
  by (cases a) (simp_all add: count_action_def)

interpretation maxima: thread_invariant record_step
  "\<lambda>t. maximum_of c0 C (tm_MaxLatency100ns t) \<and> maximum_of m0 L (tm_MaxIpcLatency100ns t)"
  "candidate_asn c0 C m0 L" for c0 C m0 L
proof (unfold_locales, goal_cases)
  case (1 s i p p' s')
  from 1(3) 1(1,2) show ?case
    by (elim record_step.elims) (auto simp: maximum_of_def candidate_asn_def)
next
  case (2 s i p p' s' j q)
  then show ?case by (simp add: candidate_asn_def)
qed

section \<open>Properties\<close>

text \<open>
  When calls of the recording functions run interleaved in any order and all have returned,
  every counter that is kept by interlocked operations has grown, modulo 2 to the 64, by exactly
  what the recorded events add: classifies in total and per action, dispatches, rejections, the
  sum and number of IPC latencies, errors and DNS observations.
\<close>

lemma interleaved_recording_counts_exactly:
  assumes "pars record_step (map recorder es, t) (ps, t')" and "set ps \<subseteq> {Recorded}"
  shows "tm_ClassifyCount t' = tm_ClassifyCount t + tally (\<lambda>e. \<exists>a l. e = ConnectionClassified a l) es \<and>
    (\<forall>a. action_counter a t' = action_counter a t + tally (\<lambda>e. \<exists>l. e = ConnectionClassified a l) es) \<and>
    tm_IpcDispatchCount t' = tm_IpcDispatchCount t + tally (\<lambda>e. \<exists>r l. e = Dispatched r l) es \<and>
    tm_IpcRejectCount t' = tm_IpcRejectCount t + tally (\<lambda>e. \<exists>l. e = Dispatched True l) es \<and>
    tm_IpcLatencySum100ns t' = tm_IpcLatencySum100ns t + sum_list (map event_ipc_latency es) \<and>
    tm_IpcLatencySamples t' = tm_IpcLatencySamples t + tally (\<lambda>e. \<exists>r l. e = Dispatched r l) es \<and>
    tm_ErrorCount t' = tm_ErrorCount t + tally (\<lambda>e. e = ClassifyFailed) es \<and>
    tm_DnsObserveCount t' = tm_DnsObserveCount t + tally (\<lambda>e. e = DnsObserved) es"
proof -
  have paid: "counter t' = counter t + sum_list (map (owed \<circ> recorder) es)"
    if "thread_ledger record_step counter owed" and "owed Recorded = 0" for counter owed
    using thread_ledger.settled [OF that(1) assms(1)] assms(2) that(2) by fastforce
  show ?thesis
    by (intro conjI allI)
      (simp_all only: ledgers [THEN paid] owes_classify.simps owes_action.simps owes_dispatch.simps
        owes_reject.simps owes_ipc_latency.simps owes_ipc_sample.simps owes_error.simps
        owes_dns.simps owed_tally owed_latency)
qed

lemma concurrent_ipc_maximum_lost:
  assumes "tm_MaxIpcLatency100ns t < l" and "l < l'"
  shows "\<exists>t'. pars record_step (map recorder [Dispatched r l', Dispatched r' l], t)
      ([Recorded, Recorded], t') \<and>
    tm_MaxIpcLatency100ns t' = l \<and>
    tm_MaxIpcLatency100ns (fold record_event [Dispatched r l', Dispatched r' l] t) = l'"
proof -
  let ?ps = "map recorder [Dispatched r l', Dispatched r' l]"
  let ?turns = "replicate (if r then 5 else 4) 0 @ replicate (if r' then 5 else 4) 1 @ [0, 1]"
  let ?c = "schedule record_step ?turns (?ps, t)"
  have less: "tm_MaxIpcLatency100ns t < l'" using assms by simp
  have "fst ?c = [Recorded, Recorded] \<and> tm_MaxIpcLatency100ns (snd ?c) = l"
    using assms less by (cases r; cases r') (simp_all add: numeral_eq_Suc)
  moreover have "pars record_step (?ps, t) ?c" by (rule schedule_pars)
  moreover have "tm_MaxIpcLatency100ns (fold record_event [Dispatched r l', Dispatched r' l] t) = l'"
    using assms less by (simp add: ipc_record_fields max_absorb1 max_absorb2 less_imp_le)
  ultimately show ?thesis by (metis prod.collapse)
qed

lemma interleaved_maxima_are_recorded:
  assumes "pars record_step (map recorder es, t) (ps, t')"
  shows "tm_MaxLatency100ns t \<le> tm_MaxLatency100ns t' \<and>
    tm_MaxLatency100ns t' \<in> {tm_MaxLatency100ns t} \<union> {l. \<exists>a. ConnectionClassified a l \<in> set es} \<and>
    tm_MaxIpcLatency100ns t \<le> tm_MaxIpcLatency100ns t' \<and>
    tm_MaxIpcLatency100ns t' \<in> {tm_MaxIpcLatency100ns t} \<union> {l. \<exists>r. Dispatched r l \<in> set es}"
proof -
  let ?C = "{l. \<exists>a. ConnectionClassified a l \<in> set es}" and ?L = "{l. \<exists>r. Dispatched r l \<in> set es}"
  have "candidate_asn (tm_MaxLatency100ns t) ?C (tm_MaxIpcLatency100ns t) ?L i (recorder (es ! i)) t"
    if "i < length es" for i
    using nth_mem [OF that]
    by (cases "es ! i" rule: event.exhaust) (auto simp: candidate_asn_def)
  then show ?thesis
    using maxima.always [OF assms, of "tm_MaxLatency100ns t" ?C "tm_MaxIpcLatency100ns t" ?L]
    by (simp add: maximum_of_def)
qed

lemma interleaved_recording_counts_exactly_witness:
  "\<exists>t'. pars record_step (map recorder [Dispatched True 5, ConnectionClassified GuardianActionBlock 2],
       GuardianTelemetryInitialize) ([Recorded, Recorded], t') \<and>
     tm_IpcRejectCount t' = 1 \<and> tm_BlockCount t' = 1"
proof -
  let ?es = "[Dispatched True 5, ConnectionClassified GuardianActionBlock 2]"
  let ?c = "schedule record_step [0, 1, 0, 1, 0, 1, 0, 1, 0, 1, 0, 1, 1]
      (map recorder ?es, GuardianTelemetryInitialize)"
  have "fst ?c = [Recorded, Recorded]"
    by (simp add: GuardianTelemetryInitialize_def count_action_def)
  then have run: "pars record_step (map recorder ?es, GuardianTelemetryInitialize)
      ([Recorded, Recorded], snd ?c)"
    using schedule_pars [of record_step "(map recorder ?es, GuardianTelemetryInitialize)"]
    by (metis prod.collapse)
  have "tm_IpcRejectCount (snd ?c) = 1 \<and> action_counter GuardianActionBlock (snd ?c) = 1"
    using interleaved_recording_counts_exactly [OF run]
    by (simp add: GuardianTelemetryInitialize_def)
  with run show ?thesis by (intro exI [of _ "snd ?c"]) simp
qed

lemma concurrent_ipc_maximum_lost_witness:
  "\<exists>t'. pars record_step (map recorder [Dispatched False 5, Dispatched False 3],
      GuardianTelemetryInitialize) ([Recorded, Recorded], t') \<and> tm_MaxIpcLatency100ns t' = 3"
  using concurrent_ipc_maximum_lost [of GuardianTelemetryInitialize 3 5 False False]
  by (auto simp: GuardianTelemetryInitialize_def)

lemma interleaved_maxima_are_recorded_witness:
  "\<exists>t'. pars record_step (map recorder [Dispatched False 5], GuardianTelemetryInitialize)
      ([Recorded], t') \<and> tm_MaxIpcLatency100ns t' \<in> {0, 5}"
proof -
  let ?t = "GuardianTelemetryInitialize"
  have run: "pars record_step (map recorder [Dispatched False 5], ?t)
      ([Recorded], GuardianPerfRecordIpc False 5 ?t)"
    using solo_pars [of 0 "[IpcDispatch False 5]" record_step 8 ?t] record_ipc_alone [of False 5 ?t]
    by simp
  have "tm_MaxIpcLatency100ns ?t = 0" by (simp add: GuardianTelemetryInitialize_def)
  with interleaved_maxima_are_recorded [OF run]
  have "tm_MaxIpcLatency100ns (GuardianPerfRecordIpc False 5 ?t) \<in> {0, 5}"
    by (auto dest: sym)
  with run show ?thesis by blast
qed

end
