(* ===== verification/Concurrent_Classify.thy ===== *)
theory Concurrent_Classify
  imports Callout_Manager Concurrent_Tables Concurrent_Telemetry
begin

text \<open>
  driver/classify/classify.c under concurrency. A classify reads the kill switch, the policy table
  and the route table one after the other, each under its own lock, and then records the outcome with
  the accesses of Concurrent\_Telemetry; calls on the tables from control requests come in between.
  Run alone, the thread is GuardianClassifyConnection.
\<close>

section \<open>Classifies and table calls as threads\<close>

datatype guardian_call =
  ClassifyEntry "FWPS_INCOMING_VALUES0 option" u64 u64
| ClassifyPolicy "FWPS_INCOMING_VALUES0 option" u64 u64
| ClassifyRoute GUARDIAN_APP_POLICY_V1 GUARDIAN_CLASSIFY_ACTION GUARDIAN_CLASSIFY_RESULT u64 u64
| ClassifyRecord ntstatus GUARDIAN_CLASSIFY_RESULT recording
| Classified ntstatus GUARDIAN_CLASSIFY_RESULT
| PolicyCall "(GUARDIAN_APP_POLICY_V1, FWPS_INCOMING_VALUES0 option,
    ntstatus \<times> GUARDIAN_APP_POLICY_V1 \<times> bool) table_call"
| RouteCall "(GUARDIAN_ROUTE_ASSIGNMENT_V1, bytes,
    ntstatus \<times> GUARDIAN_ROUTE_ASSIGNMENT_V1 \<times> bool) table_call"

definition initial_result :: GUARDIAN_CLASSIFY_RESULT where
  "initial_result = \<lparr>cr_Action = GuardianActionPermit, cr_InterfaceLuid = 0\<rparr>"

text \<open>The end of a classify: what it will return with, and the recording it begins.\<close>

definition classify_done ::
  "GUARDIAN_CLASSIFY_ACTION \<Rightarrow> GUARDIAN_CLASSIFY_RESULT \<Rightarrow> u64 \<Rightarrow> guardian_call" where
  "classify_done action result latency =
     ClassifyRecord STATUS_SUCCESS (result\<lparr>cr_Action := action\<rparr>) (ClassifyCount action latency)"

fun recording_classify ::
  "ntstatus \<Rightarrow> GUARDIAN_CLASSIFY_RESULT \<Rightarrow> recording \<Rightarrow> guardian_call" where
  "recording_classify status result Recorded = Classified status result"
| "recording_classify status result p = ClassifyRecord status result p"

fun guardian_step :: "(guardian_call, guardian) thread_step" where
  "guardian_step (ClassifyEntry v start stop) s =
     Some (case GuardianKillSwitchEvaluate 0 (gs_KillSwitch s) of
             Some ksAction \<Rightarrow> classify_done ksAction initial_result (stop - start)
           | None \<Rightarrow> ClassifyPolicy v start stop, s)"
| "guardian_step (ClassifyPolicy v start stop) s =
     (case GuardianAppPolicyLookup v (gs_Policies s) of
        (status, policy, foundPolicy) \<Rightarrow>
          Some (if \<not> NT_SUCCESS status then ClassifyRecord status initial_result ErrorCount
                else if foundPolicy
                then (case apply_policy policy initial_result of
                        (action, result) \<Rightarrow> ClassifyRoute policy action result start stop)
                else classify_done GuardianActionPermit initial_result (stop - start), s))"
| "guardian_step (ClassifyRoute policy action result start stop) s =
     (case GuardianRouteLookup (GuardianCopyAppIdFromPolicy policy) (gs_Routes s) of
        (status, route, foundRoute) \<Rightarrow>
          Some (if \<not> NT_SUCCESS status then ClassifyRecord status result ErrorCount
                else if foundRoute
                then (case apply_route route action result of
                        (action, result) \<Rightarrow> classify_done action result (stop - start))
                else classify_done action result (stop - start), s))"
| "guardian_step (ClassifyRecord status result p) s =
     map_option (\<lambda>(p', t). (recording_classify status result p', s\<lparr>gs_Telemetry := t\<rparr>))
       (record_step p (gs_Telemetry s))"
| "guardian_step (Classified status result) s = None"
| "guardian_step (PolicyCall p) s =
     map_option (\<lambda>(p', t). (PolicyCall p', s\<lparr>gs_Policies := t\<rparr>))
       (table_step policy_ops p (gs_Policies s))"
| "guardian_step (RouteCall p) s =
     map_option (\<lambda>(p', t). (RouteCall p', s\<lparr>gs_Routes := t\<rparr>))
       (table_step route_ops p (gs_Routes s))"

lemmas guardian_leads = leads_step [of guardian_step]

lemma recording_leads:
  assumes "solo record_step n p (gs_Telemetry s) = (Recorded, t)" and "p \<noteq> Recorded"
  shows "leads guardian_step (ClassifyRecord status result p) s (Classified status result)
    (s\<lparr>gs_Telemetry := t\<rparr>)"
proof -
  have step: "guardian_step (recording_classify status result r) (s\<lparr>gs_Telemetry := u\<rparr>) =
      Some (recording_classify status result r', s\<lparr>gs_Telemetry := u'\<rparr>)"
    if "record_step r u = Some (r', u')" for r u r' u'
    using that by (cases r) auto
  have "recording_classify status result p = ClassifyRecord status result p"
    using assms(2) by (cases p) simp_all
  then show ?thesis
    using solo_part [of record_step guardian_step "recording_classify status result"
        "\<lambda>t. s\<lparr>gs_Telemetry := t\<rparr>", OF step assms(1)] by simp
qed

lemma classify_done_leads:
  "leads guardian_step (classify_done action result latency) s
     (Classified STATUS_SUCCESS (result\<lparr>cr_Action := action\<rparr>))
     (set_telemetry (GuardianTelemetryRecordClassify action latency) s)"
  unfolding classify_done_def set_telemetry_def
  by (rule recording_leads [OF record_classify_alone]) simp

lemma classify_error_leads:
  "leads guardian_step (ClassifyRecord status result ErrorCount) s (Classified status result)
     (set_telemetry GuardianTelemetryRecordError s)"
  unfolding set_telemetry_def by (rule recording_leads [OF record_others_alone(1)]) simp

lemma classify_leads:
  assumes c: "GuardianClassifyConnection v start stop s = (status, result, s')"
  shows "leads guardian_step (ClassifyEntry v start stop) s (Classified status result) s'"
proof (cases "GuardianKillSwitchEvaluate 0 (gs_KillSwitch s)")
  case (Some a)
  then have "guardian_step (ClassifyEntry v start stop) s =
      Some (classify_done a initial_result (stop - start), s)" by simp
  from guardian_leads [OF this classify_done_leads] show ?thesis
    using c Some by (simp add: GuardianClassifyConnection_def initial_result_def)
next
  case None
  obtain st policy found where pol: "GuardianAppPolicyLookup v (gs_Policies s) = (st, policy, found)"
    by (metis prod_cases3)
  obtain st' route found' where rt: "GuardianRouteLookup (GuardianCopyAppIdFromPolicy policy)
      (gs_Routes s) = (st', route, found')" by (metis prod_cases3)
  obtain a r where ap: "apply_policy policy initial_result = (a, r)" by fastforce
  obtain a' r' where ar: "apply_route route a r = (a', r')" by fastforce
  note unfolded = c [unfolded GuardianClassifyConnection_def Let_def initial_result_def [symmetric] None]
  have entry: "guardian_step (ClassifyEntry v start stop) s = Some (ClassifyPolicy v start stop, s)"
    using None by simp
  consider (error) "\<not> NT_SUCCESS st" | (none) "NT_SUCCESS st" "\<not> found" | (policy) "NT_SUCCESS st" "found"
    by blast
  then show ?thesis
  proof cases
    case error
    then have "guardian_step (ClassifyPolicy v start stop) s =
        Some (ClassifyRecord st initial_result ErrorCount, s)" by (simp add: pol ap)
    from guardian_leads [OF entry guardian_leads [OF this classify_error_leads]] show ?thesis
      using unfolded error by (simp add: pol)
  next
    case none
    then have "guardian_step (ClassifyPolicy v start stop) s =
        Some (classify_done GuardianActionPermit initial_result (stop - start), s)"
      by (simp add: pol ap)
    from guardian_leads [OF entry guardian_leads [OF this classify_done_leads]] show ?thesis
      using unfolded none by (simp add: pol)
  next
    case policy
    then have "guardian_step (ClassifyPolicy v start stop) s = Some (ClassifyRoute policy a r start stop, s)"
      by (simp add: pol ap)
    note route = guardian_leads [OF entry guardian_leads [OF this]]
    show ?thesis
    proof (cases "NT_SUCCESS st'")
      case False
      then have "guardian_step (ClassifyRoute policy a r start stop) s =
          Some (ClassifyRecord st' r ErrorCount, s)" by (simp add: rt ar)
      from route [OF guardian_leads [OF this classify_error_leads]] show ?thesis
        using unfolded policy False by (simp add: pol rt ap)
    next
      case True
      then have "guardian_step (ClassifyRoute policy a r start stop) s =
          Some (if found' then classify_done a' r' (stop - start) else classify_done a r (stop - start), s)"
        by (simp add: rt ar)
      from route [OF guardian_leads [OF this]] show ?thesis
        using unfolded policy True by (cases found') (auto simp: pol rt ap ar intro: classify_done_leads)
    qed
  qed
qed

lemma policy_call_alone:
  "solo guardian_step n (PolicyCall p) s =
     (case solo (table_step policy_ops) n p (gs_Policies s) of
        (p', t) \<Rightarrow> (PolicyCall p', s\<lparr>gs_Policies := t\<rparr>))"
  using solo_embed [of guardian_step PolicyCall "\<lambda>t. s\<lparr>gs_Policies := t\<rparr>" "table_step policy_ops" n p
      "gs_Policies s"]
  by (simp add: case_prod_unfold)

fun guardian_steps_left :: "guardian_call \<Rightarrow> nat" where
  "guardian_steps_left (ClassifyEntry v start stop) = 10"
| "guardian_steps_left (ClassifyPolicy v start stop) = 9"
| "guardian_steps_left (ClassifyRoute policy action result start stop) = 8"
| "guardian_steps_left (ClassifyRecord status result p) = records_left p"
| "guardian_steps_left (Classified status result) = 0"
| "guardian_steps_left (PolicyCall p) = accesses_left p"
| "guardian_steps_left (RouteCall p) = accesses_left p"

lemma recording_classify_left [simp]:
  "guardian_steps_left (recording_classify status result p) = records_left p"
  "guardian_steps_left (classify_done action result latency) = 7"
  by (cases p; simp) (simp add: classify_done_def)

interpretation guardian_bound: thread_bound guardian_step guardian_steps_left
proof
  show "guardian_step p s = Some (p', s') \<Longrightarrow> guardian_steps_left p' < guardian_steps_left p"
    for p s p' s'
    by (cases p) (auto split: prod.splits option.splits if_splits
        dest: table_bound.step_uses record_bound.step_uses)
  show "guardian_step p s = None \<longleftrightarrow> guardian_steps_left p = 0" for p s
    by (cases p) (auto simp: table_bound.returned_iff record_bound.returned_iff split: prod.splits)
qed

lemma classify_alone:
  "solo guardian_step 10 (ClassifyEntry v start stop) s =
     (case GuardianClassifyConnection v start stop s of
        (status, result, s') \<Rightarrow> (Classified status result, s'))"
  using guardian_bound.leads_solo [OF classify_leads] by (auto split: prod.split)

section \<open>The kill switch under concurrency\<close>

fun block_all_asn :: "guardian_call \<Rightarrow> bool" where
  "block_all_asn (ClassifyEntry v start stop) \<longleftrightarrow> True"
| "block_all_asn (ClassifyRecord status result p) \<longleftrightarrow>
     status = STATUS_SUCCESS \<and> cr_Action result = GuardianActionBlock"
| "block_all_asn (Classified status result) \<longleftrightarrow>
     status = STATUS_SUCCESS \<and> cr_Action result = GuardianActionBlock"
| "block_all_asn (PolicyCall p) \<longleftrightarrow> True"
| "block_all_asn (RouteCall p) \<longleftrightarrow> True"
| "block_all_asn _ \<longleftrightarrow> False"

lemma block_all_recording [simp]:
  "block_all_asn (recording_classify status result p) \<longleftrightarrow>
     status = STATUS_SUCCESS \<and> cr_Action result = GuardianActionBlock"
  "block_all_asn (classify_done action result latency) \<longleftrightarrow> action = GuardianActionBlock"
  by (cases p; simp) (simp add: classify_done_def)

interpretation block_all: thread_invariant guardian_step
  "\<lambda>s. ks_Mode (gs_KillSwitch s) = ks_mode_code GuardianKsBlockAll" "\<lambda>i p s. block_all_asn p"
proof
  fix s p p' s'
  assume "ks_Mode (gs_KillSwitch s) = ks_mode_code GuardianKsBlockAll" and "block_all_asn p"
    and "guardian_step p s = Some (p', s')"
  then show "ks_Mode (gs_KillSwitch s') = ks_mode_code GuardianKsBlockAll \<and> block_all_asn p'"
    by (cases p) (auto simp: ks_evaluate_simps set_telemetry_def simp del: ks_mode_code.simps)
qed

section \<open>Properties\<close>

text \<open>
  While the kill switch is in mode BlockAll, every classify that returns has the action
  Block, in every interleaving of any number of classifies with any sets, removals, clears,
  lookups and syncs of the policy and the route table.
\<close>

lemma block_all_blocks_during_table_changes:
  assumes "pars guardian_step (ps, s) (ps', s')"
    and "ks_Mode (gs_KillSwitch s) = ks_mode_code GuardianKsBlockAll"
    and "list_all (\<lambda>p. (\<exists>v start stop. p = ClassifyEntry v start stop) \<or> (\<exists>q. p = PolicyCall q) \<or>
      (\<exists>q. p = RouteCall q)) ps"
    and "Classified status result \<in> set ps'"
  shows "status = STATUS_SUCCESS \<and> cr_Action result = GuardianActionBlock"
proof -
  have "block_all_asn (ps ! i)" if "i < length ps" for i
    using assms(3) that by (auto simp: list_all_length)
  then have "\<forall>i < length ps'. block_all_asn (ps' ! i)"
    using block_all.always [OF assms(1,2)] by simp
  then show ?thesis using assms(4) by (metis in_set_conv_nth block_all_asn.simps(3))
qed

lemma block_all_blocks_during_table_changes_witness:
  "\<exists>result s'. pars guardian_step
     ([ClassifyEntry None 0 0], guardian_image\<lparr>gs_KillSwitch := \<lparr>ks_Mode = 1, ks_VpnInterfaceLuid = 0\<rparr>\<rparr>)
     ([Classified STATUS_SUCCESS result], s') \<and> cr_Action result = GuardianActionBlock"
proof -
  let ?s = "guardian_image\<lparr>gs_KillSwitch := \<lparr>ks_Mode = 1, ks_VpnInterfaceLuid = 0\<rparr>\<rparr>"
  obtain status result s' where "GuardianClassifyConnection None 0 0 ?s = (status, result, s')"
    by (metis prod_cases3)
  then have run: "pars guardian_step ([ClassifyEntry None 0 0], ?s) ([Classified status result], s')"
    using solo_pars [of 0 "[ClassifyEntry None 0 0]" guardian_step 10 ?s] classify_alone [of None 0 0 ?s]
    by simp
  from block_all_blocks_during_table_changes [OF run, of status result]
  have "status = STATUS_SUCCESS \<and> cr_Action result = GuardianActionBlock" by simp
  with run show ?thesis by auto
qed

text \<open>
  C15: A policy sync is not atomic for classifies: with the kill switch off, whatever the table
  holds before and after a sync within the count limit, there is an interleaving in which a
  connection classified during the sync is permitted, while the sync ends as it would alone.
\<close>

theorem classify_in_sync_window_permits:
  assumes "GuardianAppPolicySync alloc (Some policies) count (gs_Policies s) = Inr (st, t')"
    and "count \<le> GUARDIAN_MAX_SYNC_POLICIES"
    and "GuardianKillSwitchEvaluate 0 (gs_KillSwitch s) = None"
  shows "\<exists>s'. pars guardian_step
      ([PolicyCall (SyncEntry alloc (Some policies) count), ClassifyEntry (Some v) start stop], s)
      ([PolicyCall (Returned st),
        Classified STATUS_SUCCESS \<lparr>cr_Action = GuardianActionPermit, cr_InterfaceLuid = 0\<rparr>], s') \<and>
    gs_Policies s' = t'"
proof -
  let ?e = GuardianAppPolicyInitialize
  let ?done = "Classified STATUS_SUCCESS \<lparr>cr_Action = GuardianActionPermit, cr_InterfaceLuid = 0\<rparr>"
  let ?c = "([PolicyCall (SyncEntry alloc (Some policies) count), ClassifyEntry (Some v) start stop], s)"
  let ?loop = "SyncLoop alloc policies 0 (unat count)"
  let ?s1 = "set_telemetry (GuardianTelemetryRecordClassify GuardianActionPermit (stop - start))
      (s\<lparr>gs_Policies := ?e\<rparr>)"
  have limit: "\<not> op_Limit policy_ops < count" using assms(2) by (simp add: policy_ops_def)
  have "GuardianAppPolicyLookup (Some v) ?e = (STATUS_SUCCESS, zero_app_policy, False)"
    by (simp add: GuardianAppPolicyLookup_def GuardianAppPolicyInitialize_def)
  then have "schedule guardian_step [0, 0, 0, 1, 1] ?c =
      ([PolicyCall ?loop, classify_done GuardianActionPermit initial_result (stop - start)],
       s\<lparr>gs_Policies := ?e\<rparr>)"
    using assms(3) limit by (simp add: policy_ops_empty)
  then have "pars guardian_step ?c
      ([PolicyCall ?loop, classify_done GuardianActionPermit initial_result (stop - start)],
       s\<lparr>gs_Policies := ?e\<rparr>)" using schedule_pars by metis
  moreover obtain n where "solo guardian_step n
      (classify_done GuardianActionPermit initial_result (stop - start)) (s\<lparr>gs_Policies := ?e\<rparr>) =
      (?done, ?s1)"
    using classify_done_leads [of GuardianActionPermit initial_result "stop - start" "s\<lparr>gs_Policies := ?e\<rparr>"]
    by (auto simp: leads_def initial_result_def)
  ultimately have window: "pars guardian_step ?c ([PolicyCall ?loop, ?done], ?s1)"
    using solo_pars [of 1 "[PolicyCall ?loop, classify_done GuardianActionPermit initial_result (stop - start)]"
        guardian_step n] by (auto intro: rtranclp_trans)
  have s1: "gs_Policies ?s1 = ?e" by (simp add: set_telemetry_def)
  have "policy_sync_loop alloc policies 0 (unat count) ?e = Inr (st, t')"
    using assms(1) leD [OF assms(2)] by (simp add: GuardianAppPolicySync_def Let_def)
  then have "solo guardian_step (Suc (unat count)) (PolicyCall ?loop) ?s1 =
      (PolicyCall (Returned st), ?s1\<lparr>gs_Policies := t'\<rparr>)"
    using policy_threads.sync_loop_alone policy_call_alone s1 by (simp del: solo.simps)
  then have "pars guardian_step ([PolicyCall ?loop, ?done], ?s1)
      ([PolicyCall (Returned st), ?done], ?s1\<lparr>gs_Policies := t'\<rparr>)"
    using solo_pars [of 0 "[PolicyCall ?loop, ?done]" guardian_step "Suc (unat count)" ?s1]
    by (simp del: solo.simps)
  with window have "pars guardian_step ?c ([PolicyCall (Returned st), ?done], ?s1\<lparr>gs_Policies := t'\<rparr>)"
    by (rule rtranclp_trans)
  then show ?thesis by (intro exI [of _ "?s1\<lparr>gs_Policies := t'\<rparr>"]) simp
qed

theorem classify_in_sync_window_permits_witness:
  "\<exists>s'. pars guardian_step
     ([PolicyCall (SyncEntry (\<lambda>_. True) (Some (\<lambda>_. Truncated None)) 0),
       ClassifyEntry (Some (connect_v4 None)) 0 0], guardian_image)
     ([PolicyCall (Returned STATUS_SUCCESS),
       Classified STATUS_SUCCESS \<lparr>cr_Action = GuardianActionPermit, cr_InterfaceLuid = 0\<rparr>], s')"
  using classify_in_sync_window_permits [of "\<lambda>_. True" "\<lambda>_. Truncated None" 0 guardian_image
      STATUS_SUCCESS GuardianAppPolicyInitialize "connect_v4 None" 0 0]
  by (auto simp: GuardianAppPolicySync_def Let_def GUARDIAN_MAX_SYNC_POLICIES_def
      guardian_image_def ks_evaluate_simps)

end
