(* ===== verification/Concurrent_Caller.thy ===== *)
theory Concurrent_Caller
  imports Caller_Check Interleaving
begin

text \<open>
  driver/ipc/security.c under concurrency. The request queue is parallel, so checks of different
  requests run interleaved. The pinned process id is read and written without a lock and without
  interlocked operations: the test for NULL, the write, the comparison and the lookup of the
  pinned process each access it once. Run alone, a check is the function of the theory
  Caller\_Check.
\<close>

section \<open>The check as a thread\<close>

datatype check =
  VerifyEntry "request_origin option"
| TestPin u64 u32
| StorePin u64
| ComparePin u64 u32
| LookupPin u32
| Verified ntstatus

fun verify_step :: "process_table \<Rightarrow> (check, u64) thread_step" where
  "verify_step sessions (VerifyEntry req) pin =
     Some (case req of
             None \<Rightarrow> Verified STATUS_SUCCESS
           | Some r \<Rightarrow>
               if \<not> ro_Irp r then Verified STATUS_ACCESS_DENIED
               else let callerPid = ucast (ro_RequestorProcessId r) :: u64
                    in if callerPid = 0 then Verified STATUS_ACCESS_DENIED
                       else (case sessions callerPid of
                               None \<Rightarrow> Verified STATUS_ACCESS_DENIED
                             | Some callerSession \<Rightarrow> TestPin callerPid callerSession), pin)"
| "verify_step sessions (TestPin callerPid callerSession) pin =
     Some (if pin = 0 then StorePin callerPid else ComparePin callerPid callerSession, pin)"
| "verify_step sessions (StorePin callerPid) pin = Some (Verified STATUS_SUCCESS, callerPid)"
| "verify_step sessions (ComparePin callerPid callerSession) pin =
     Some (if callerPid = pin then Verified STATUS_SUCCESS else LookupPin callerSession, pin)"
| "verify_step sessions (LookupPin callerSession) pin =
     Some (case sessions pin of
             None \<Rightarrow> Verified STATUS_ACCESS_DENIED
           | Some serviceSession \<Rightarrow>
               Verified (if callerSession = serviceSession then STATUS_SUCCESS
                         else STATUS_ACCESS_DENIED), pin)"
| "verify_step sessions (Verified st) pin = None"

text \<open>A check run alone ends after at most four accesses with the result of the function.\<close>

lemma verify_alone:
  "solo (verify_step sessions) 5 (VerifyEntry req) pin =
     (case GuardianSecurityPolicyVerifyCaller req sessions pin of (st, pin') \<Rightarrow> (Verified st, pin'))"
  by (simp add: GuardianSecurityPolicyVerifyCaller_def Let_def numeral_eq_Suc split: option.split)

fun checks_left :: "check \<Rightarrow> nat" where
  "checks_left (VerifyEntry req) = 4"
| "checks_left (TestPin c cs) = 3"
| "checks_left (StorePin c) = 1"
| "checks_left (ComparePin c cs) = 2"
| "checks_left (LookupPin cs) = 1"
| "checks_left (Verified st) = 0"

interpretation check_bound: thread_bound "verify_step sessions" checks_left for sessions
proof
  show "verify_step sessions p s = Some (p', s') \<Longrightarrow> checks_left p' < checks_left p" for p s p' s'
    by (cases p) (auto simp: Let_def split: option.splits)
  show "verify_step sessions p s = None \<longleftrightarrow> checks_left p = 0" for p s
    by (cases p) simp_all
qed

section \<open>After the pin is set\<close>

text \<open>
  With a pinned process, what a check will answer does not depend on the others: each of its
  control states determines the status.
\<close>

definition pinned_asn ::
  "process_table \<Rightarrow> u64 \<Rightarrow> (request_origin option) list \<Rightarrow> nat \<Rightarrow> check \<Rightarrow> u64 \<Rightarrow> bool" where
  "pinned_asn sessions allowed reqs i p pin \<longleftrightarrow>
     (\<exists>n. solo (verify_step sessions) n p allowed =
        (Verified (fst (GuardianSecurityPolicyVerifyCaller (reqs ! i) sessions allowed)), allowed))"

lemma pinned_no_store:
  "solo (verify_step sessions) n (StorePin c) allowed = (Verified st, allowed) \<Longrightarrow> c = allowed"
  by (cases n) (auto, metis Pair_inject option.case(1) solo.elims verify_step.simps(6))

interpretation pinned: thread_invariant "verify_step sessions" "\<lambda>pin. pin = allowed"
  "pinned_asn sessions allowed reqs" for sessions allowed reqs
proof (unfold_locales, goal_cases)
  case (1 s i p p' s')
  then obtain n where n: "solo (verify_step sessions) n p allowed =
      (Verified (fst (GuardianSecurityPolicyVerifyCaller (reqs ! i) sessions allowed)), allowed)"
    by (auto simp: pinned_asn_def)
  have "s' = allowed"
    using 1 n by (cases p) (auto dest: pinned_no_store)
  moreover from n 1 have "pinned_asn sessions allowed reqs i p' s'"
    unfolding pinned_asn_def
    by (cases n) (auto simp: \<open>s' = allowed\<close>)
  ultimately show ?case by simp
next
  case (2 s i p p' s' j q)
  then show ?case by (simp add: pinned_asn_def)
qed

section \<open>Properties\<close>

text \<open>
  Once a process is pinned, caller checks that run in parallel do not affect each other: in
  every interleaving of any number of checks the pin stays, and each check that has returned has
  the status that the check gives on its own.
\<close>

lemma pinned_checks_do_not_interfere:
  assumes "pars (verify_step sessions) (map VerifyEntry reqs, pin) (ps, pin')" and "pin \<noteq> 0"
  shows "pin' = pin \<and> length ps = length reqs \<and>
    (\<forall>i < length reqs. \<forall>st. ps ! i = Verified st \<longrightarrow>
       st = fst (GuardianSecurityPolicyVerifyCaller (reqs ! i) sessions pin))"
proof -
  have "pinned_asn sessions pin reqs i (map VerifyEntry reqs ! i) pin"
    if "i < length (map VerifyEntry reqs)" for i
    using that verify_alone [of sessions "reqs ! i" pin] verify_pinned_stays [OF assms(2)]
    unfolding pinned_asn_def by (intro exI [of _ 5]) (simp add: case_prod_unfold)
  then have "pin' = pin \<and> (\<forall>i < length ps. pinned_asn sessions pin reqs i (ps ! i) pin')"
    using pinned.always [OF assms(1), of pin reqs] by auto
  moreover have "length ps = length reqs" using pars_length [OF assms(1)] by simp
  moreover have "st = st'" if "solo (verify_step sessions) n (Verified st) x = (Verified st', y)"
    for n x y st st' using that by (cases n) simp_all
  ultimately show ?thesis by (auto simp: pinned_asn_def)
qed

lemma pinned_checks_do_not_interfere_witness:
  "\<exists>ps. pars (verify_step [4 \<mapsto> 0, 8 \<mapsto> 1])
      (map VerifyEntry [Some \<lparr>ro_Irp = True, ro_RequestorProcessId = 8\<rparr>], 4) (ps, 4) \<and>
    ps = [Verified STATUS_ACCESS_DENIED]"
proof -
  let ?reqs = "[Some \<lparr>ro_Irp = True, ro_RequestorProcessId = 8\<rparr>]" and ?tab = "[4 \<mapsto> 0, 8 \<mapsto> 1]"
  have "solo (verify_step ?tab) 5 (VerifyEntry (?reqs ! 0)) 4 = (Verified STATUS_ACCESS_DENIED, 4)"
    by (simp add: verify_alone GuardianSecurityPolicyVerifyCaller_def Let_def)
  then have run: "pars (verify_step ?tab) (map VerifyEntry ?reqs, 4)
      ([Verified STATUS_ACCESS_DENIED], 4)"
    using solo_pars [of 0 "map VerifyEntry ?reqs" "verify_step ?tab" 5 4] by simp
  from pinned_checks_do_not_interfere [OF run] run show ?thesis by auto
qed

text \<open>
  C14: The check for the first caller is not atomic: when the requests of two processes of
  different sessions meet while no process is pinned, an interleaving accepts both and leaves
  the second one pinned, although one after the other the second would be refused; and the first
  one is refused from then on.
\<close>

theorem concurrent_first_callers_both_accepted:
  assumes "ro_Irp r" and "ro_RequestorProcessId r \<noteq> 0"
    and "sessions (ucast (ro_RequestorProcessId r)) = Some cs"
    and "ro_Irp r'" and "ro_RequestorProcessId r' \<noteq> 0"
    and "sessions (ucast (ro_RequestorProcessId r')) = Some cs'" and "cs \<noteq> cs'"
  shows "pars (verify_step sessions) (map VerifyEntry [Some r, Some r'], 0)
      ([Verified STATUS_SUCCESS, Verified STATUS_SUCCESS], ucast (ro_RequestorProcessId r')) \<and>
    fst (GuardianSecurityPolicyVerifyCaller (Some r') sessions
      (snd (GuardianSecurityPolicyVerifyCaller (Some r) sessions 0))) = STATUS_ACCESS_DENIED \<and>
    fst (GuardianSecurityPolicyVerifyCaller (Some r) sessions (ucast (ro_RequestorProcessId r'))) =
      STATUS_ACCESS_DENIED"
proof -
  have "ucast (ro_RequestorProcessId r) \<noteq> (ucast (ro_RequestorProcessId r') :: u64)"
    using assms by force
  then have "schedule (verify_step sessions) [0, 0, 1, 1, 0, 1] (map VerifyEntry [Some r, Some r'], 0) =
      ([Verified STATUS_SUCCESS, Verified STATUS_SUCCESS], ucast (ro_RequestorProcessId r'))"
    using assms by simp
  then have "pars (verify_step sessions) (map VerifyEntry [Some r, Some r'], 0)
      ([Verified STATUS_SUCCESS, Verified STATUS_SUCCESS], ucast (ro_RequestorProcessId r'))"
    using schedule_pars by metis
  moreover have "fst (GuardianSecurityPolicyVerifyCaller (Some r') sessions
      (snd (GuardianSecurityPolicyVerifyCaller (Some r) sessions 0))) = STATUS_ACCESS_DENIED"
    and "fst (GuardianSecurityPolicyVerifyCaller (Some r) sessions (ucast (ro_RequestorProcessId r'))) =
      STATUS_ACCESS_DENIED"
    using assms \<open>ucast (ro_RequestorProcessId r) \<noteq> _\<close>
    by (simp_all add: GuardianSecurityPolicyVerifyCaller_def Let_def)
  ultimately show ?thesis by blast
qed

theorem concurrent_first_callers_both_accepted_witness:
  "pars (verify_step [4 \<mapsto> 0, 8 \<mapsto> 1])
     (map VerifyEntry [Some \<lparr>ro_Irp = True, ro_RequestorProcessId = 4\<rparr>,
                       Some \<lparr>ro_Irp = True, ro_RequestorProcessId = 8\<rparr>], 0)
     ([Verified STATUS_SUCCESS, Verified STATUS_SUCCESS], 8)"
  using concurrent_first_callers_both_accepted
    [of "\<lparr>ro_Irp = True, ro_RequestorProcessId = 4\<rparr>" "[4 \<mapsto> 0, 8 \<mapsto> 1]" 0
        "\<lparr>ro_Irp = True, ro_RequestorProcessId = 8\<rparr>" 1] by simp

end
