(* ===== verification/Concurrent_Mode.thy ===== *)
theory Concurrent_Mode
  imports Hybrid_Coordinator Interleaving
begin

text \<open>
  driver/filters/filters.c under concurrency. The mode, the coordinator flag, the NDIS count and the
  fields of the driver state that report them are plain variables without a lock, and
  SET\_GUARDIAN\_MODE requests may run in parallel. Each test, read and write of them is a step;
  the combined filter count is read in one step and stored in another. Run alone, the thread is
  GuardianHybridSetMode.
\<close>

section \<open>Setting the mode as a thread\<close>

text \<open>
  The two steps that publish the filter count carry how often it is still published after them:
  once when they belong to a poll.
\<close>

datatype mode_call =
  SetModeEntry u32
| ShutdownTest u32
| ClearActive u32
| StoreMode u32
| ReportMode u32
| StartTest u32
| SetActive
| PollNdis
| StoreNdisCount u32
| BumpGeneration
| ReadCount nat
| StoreCount nat u32
| ModeReturned ntstatus

fun mode_step :: "ndis_device \<Rightarrow> (mode_call, guardian) thread_step" where
  "mode_step ndis (SetModeEntry mode) s =
     Some (if \<not> GuardianHybridIsValidMode mode then ModeReturned STATUS_INVALID_PARAMETER
           else if hy_CoordinatorActive (gs_Hybrid s) \<and> mode \<noteq> guardian_mode_code GuardianModeHybrid
           then ShutdownTest mode else StoreMode mode, s)"
| "mode_step ndis (ShutdownTest mode) s =
     Some (if hy_CoordinatorActive (gs_Hybrid s) then ClearActive mode else StoreMode mode, s)"
| "mode_step ndis (ClearActive mode) s =
     Some (StoreMode mode,
           GuardianFiltersShutdown (set_hybrid (\<lambda>h. h\<lparr>hy_CoordinatorActive := False\<rparr>) s))"
| "mode_step ndis (StoreMode mode) s =
     Some (ReportMode mode, set_hybrid (\<lambda>h. h\<lparr>hy_GuardianMode := mode\<rparr>) s)"
| "mode_step ndis (ReportMode mode) s =
     Some (StartTest mode, set_driver (\<lambda>d. d\<lparr>dv_GuardianMode := mode\<rparr>) s)"
| "mode_step ndis (StartTest mode) s =
     Some (if mode = guardian_mode_code GuardianModeHybrid \<and> \<not> hy_CoordinatorActive (gs_Hybrid s)
           then if \<not> NT_SUCCESS GuardianFiltersInitialize then ModeReturned GuardianFiltersInitialize
                else SetActive
           else if mode = guardian_mode_code GuardianModeNdis then PollNdis
           else ReadCount 0, s)"
| "mode_step ndis SetActive s =
     Some (PollNdis, set_hybrid (\<lambda>h. h\<lparr>hy_CoordinatorActive := True\<rparr>) s)"
| "mode_step ndis PollNdis s =
     Some (case GuardianNdisQueryFilterCountViaIoctl ndis (Some 0) of
             (status, polledCount) \<Rightarrow>
               (if NT_SUCCESS status then StoreNdisCount (the polledCount) else BumpGeneration), s)"
| "mode_step ndis (StoreNdisCount n) s =
     Some (BumpGeneration, set_hybrid (\<lambda>h. h\<lparr>hy_NdisFilterCount := n\<rparr>) s)"
| "mode_step ndis BumpGeneration s =
     Some (ReadCount 1, set_hybrid (\<lambda>h. h\<lparr>hy_NdisPollGeneration := hy_NdisPollGeneration h + 1\<rparr>) s)"
| "mode_step ndis (ReadCount k) s = Some (StoreCount k (GuardianHybridGetCombinedFilterCount s), s)"
| "mode_step ndis (StoreCount k n) s =
     Some (case k of 0 \<Rightarrow> ModeReturned STATUS_SUCCESS | Suc j \<Rightarrow> ReadCount j,
           set_driver (\<lambda>d. d\<lparr>dv_FilterCount := n\<rparr>) s)"
| "mode_step ndis (ModeReturned status) s = None"

lemma publish_alone:
  "solo (mode_step ndis) 2 (ReadCount 0) s = (ModeReturned STATUS_SUCCESS, publish_filter_count s)"
  by (simp add: numeral_eq_Suc publish_filter_count_def)

lemma poll_alone:
  "solo (mode_step ndis) 7 PollNdis s =
     (ModeReturned STATUS_SUCCESS, publish_filter_count (snd (GuardianHybridPollNdisState ndis s)))"
proof -
  obtain status c where q: "GuardianNdisQueryFilterCountViaIoctl ndis (Some 0) = (status, c)"
    by fastforce
  let ?s' = "snd (GuardianHybridPollNdisState ndis s)"
  have "solo (mode_step ndis) (if NT_SUCCESS status then 5 else 4) PollNdis s = (ReadCount 0, ?s')"
    by (simp add: q numeral_eq_Suc GuardianHybridPollNdisState_def Let_def publish_filter_count_def)
  from solo_trans [OF this publish_alone] show ?thesis
    by (rule solo_more) simp_all
qed

lemma start_alone:
  "solo (mode_step ndis) 9 (StartTest mode) s =
     (ModeReturned STATUS_SUCCESS,
      if mode = guardian_mode_code GuardianModeHybrid \<and> \<not> hy_CoordinatorActive (gs_Hybrid s)
      then snd (GuardianHybridCoordinatorInitialize ndis s)
      else publish_filter_count (if mode = guardian_mode_code GuardianModeNdis
                                 then snd (GuardianHybridPollNdisState ndis s) else s))"
proof (cases "mode = guardian_mode_code GuardianModeHybrid \<and> \<not> hy_CoordinatorActive (gs_Hybrid s)")
  case True
  then have "solo (mode_step ndis) 2 (StartTest mode) s =
      (PollNdis, set_hybrid (\<lambda>h. h\<lparr>hy_CoordinatorActive := True\<rparr>) s)"
    by (simp add: numeral_eq_Suc GuardianFiltersInitialize_def del: guardian_mode_code.simps)
  from solo_trans [OF this poll_alone] show ?thesis using True
    by (simp add: GuardianHybridCoordinatorInitialize_def GuardianFiltersInitialize_def Let_def
        del: guardian_mode_code.simps)
next
  case False
  show ?thesis
  proof (cases "mode = guardian_mode_code GuardianModeNdis")
    case ndis: True
    then have "solo (mode_step ndis) 1 (StartTest mode) s = (PollNdis, s)" using False
      by (simp del: guardian_mode_code.simps)
    from solo_more [OF solo_trans [OF this poll_alone], of 9] show ?thesis
      using False ndis by (auto simp del: guardian_mode_code.simps)
  next
    case other: False
    then have "solo (mode_step ndis) 1 (StartTest mode) s = (ReadCount 0, s)" using False
      by (simp del: guardian_mode_code.simps)
    from solo_more [OF solo_trans [OF this publish_alone], of 9] show ?thesis
      using False other by (auto simp del: guardian_mode_code.simps)
  qed
qed

lemma store_alone:
  "solo (mode_step ndis) 2 (StoreMode mode) s =
     (StartTest mode, set_driver (\<lambda>d. d\<lparr>dv_GuardianMode := mode\<rparr>)
        (set_hybrid (\<lambda>h. h\<lparr>hy_GuardianMode := mode\<rparr>) s))"
  by (simp add: numeral_eq_Suc)

lemma set_mode_alone:
  "solo (mode_step ndis) 14 (SetModeEntry mode) s =
     (case GuardianHybridSetMode ndis mode s of (status, s') \<Rightarrow> (ModeReturned status, s'))"
proof -
  have fst_init: "fst (GuardianHybridCoordinatorInitialize ndis u) = STATUS_SUCCESS" for u
    by (simp add: GuardianHybridCoordinatorInitialize_def GuardianFiltersInitialize_def Let_def)
  consider (invalid) "\<not> GuardianHybridIsValidMode mode"
    | (active) "GuardianHybridIsValidMode mode" "hy_CoordinatorActive (gs_Hybrid s)"
        "mode \<noteq> guardian_mode_code GuardianModeHybrid"
    | (idle) "GuardianHybridIsValidMode mode"
        "\<not> (hy_CoordinatorActive (gs_Hybrid s) \<and> mode \<noteq> guardian_mode_code GuardianModeHybrid)"
    by blast
  then show ?thesis
  proof cases
    case invalid
    then have "solo (mode_step ndis) 1 (SetModeEntry mode) s =
        (ModeReturned STATUS_INVALID_PARAMETER, s)" by simp
    then have "solo (mode_step ndis) 14 (SetModeEntry mode) s =
        (ModeReturned STATUS_INVALID_PARAMETER, s)" by (rule solo_more) simp_all
    with invalid show ?thesis by (simp add: set_mode_invalid)
  next
    case active
    then have "solo (mode_step ndis) 3 (SetModeEntry mode) s =
        (StoreMode mode, GuardianHybridCoordinatorShutdown s)"
      by (simp add: numeral_eq_Suc GuardianHybridCoordinatorShutdown_def
          del: guardian_mode_code.simps)
    from solo_trans [OF solo_trans [OF this store_alone] start_alone] active show ?thesis
      by (simp add: GuardianHybridSetMode_def Let_def del: guardian_mode_code.simps)
  next
    case idle
    then have "solo (mode_step ndis) 1 (SetModeEntry mode) s = (StoreMode mode, s)"
      by (auto simp del: guardian_mode_code.simps)
    from solo_more [OF solo_trans [OF solo_trans [OF this store_alone] start_alone], of 14] idle fst_init
    show ?thesis
      by (auto simp: GuardianHybridSetMode_def Let_def case_prod_unfold
          simp del: guardian_mode_code.simps)
  qed
qed

fun mode_steps_left :: "mode_call \<Rightarrow> nat" where
  "mode_steps_left (SetModeEntry mode) = 14"
| "mode_steps_left (ShutdownTest mode) = 13"
| "mode_steps_left (ClearActive mode) = 12"
| "mode_steps_left (StoreMode mode) = 11"
| "mode_steps_left (ReportMode mode) = 10"
| "mode_steps_left (StartTest mode) = 9"
| "mode_steps_left SetActive = 8"
| "mode_steps_left PollNdis = 7"
| "mode_steps_left (StoreNdisCount n) = 6"
| "mode_steps_left BumpGeneration = 5"
| "mode_steps_left (ReadCount k) = 2 * k + 2"
| "mode_steps_left (StoreCount k n) = 2 * k + 1"
| "mode_steps_left (ModeReturned status) = 0"

interpretation mode_bound: thread_bound "mode_step ndis" mode_steps_left for ndis
proof
  show "mode_step ndis p s = Some (p', s') \<Longrightarrow> mode_steps_left p' < mode_steps_left p" for p s p' s'
    by (cases p) (auto split: prod.splits if_splits nat.splits)
  show "mode_step ndis p s = None \<longleftrightarrow> mode_steps_left p = 0" for p s
    by (cases p) simp_all
qed

section \<open>Properties\<close>

text \<open>
  Setting the mode takes no lock: from any state with an idle coordinator there is an
  interleaving of a request for hybrid mode and one for WFP mode in which both succeed and the
  driver ends in WFP mode with the coordinator active and reports hybrid mode.
\<close>

lemma concurrent_mode_requests_disagree:
  assumes "\<not> hy_CoordinatorActive (gs_Hybrid s)"
  shows "\<exists>s'. pars (mode_step ndis)
      ([SetModeEntry (guardian_mode_code GuardianModeHybrid),
        SetModeEntry (guardian_mode_code GuardianModeWfp)], s)
      ([ModeReturned STATUS_SUCCESS, ModeReturned STATUS_SUCCESS], s') \<and>
    GuardianHybridGetMode s' = guardian_mode_code GuardianModeWfp \<and>
    dv_GuardianMode (gs_Driver s') = guardian_mode_code GuardianModeHybrid \<and>
    hy_CoordinatorActive (gs_Hybrid s') \<and> \<not> hybrid_inv s'"
proof -
  let ?H = "guardian_mode_code GuardianModeHybrid" and ?W = "guardian_mode_code GuardianModeWfp"
  have valid: "GuardianHybridIsValidMode ?H" "GuardianHybridIsValidMode ?W"
    by (simp_all add: GuardianHybridIsValidMode_def)
  have ne: "?W \<noteq> ?H" "?W \<noteq> guardian_mode_code GuardianModeNdis" by simp_all
  let ?s1 = "set_driver (\<lambda>d. d\<lparr>dv_GuardianMode := ?W\<rparr>)
      (set_hybrid (\<lambda>h. h\<lparr>hy_GuardianMode := ?W\<rparr>) (set_hybrid (\<lambda>h. h\<lparr>hy_GuardianMode := ?H\<rparr>) s))"
  let ?s2 = "set_driver (\<lambda>d. d\<lparr>dv_GuardianMode := ?H\<rparr>) (publish_filter_count ?s1)"
  let ?s' = "snd (GuardianHybridCoordinatorInitialize ndis ?s2)"
  let ?c = "([SetModeEntry ?H, SetModeEntry ?W], s)"
  have "schedule (mode_step ndis) [0, 0, 1, 1, 1, 1, 1, 1, 0] ?c =
      ([StartTest ?H, ModeReturned STATUS_SUCCESS], ?s2)"
    using assms valid ne
    by (simp add: publish_filter_count_def del: guardian_mode_code.simps)
  then have "pars (mode_step ndis) ?c ([StartTest ?H, ModeReturned STATUS_SUCCESS], ?s2)"
    using schedule_pars by metis
  also have "pars (mode_step ndis) ([StartTest ?H, ModeReturned STATUS_SUCCESS], ?s2)
      ([ModeReturned STATUS_SUCCESS, ModeReturned STATUS_SUCCESS], ?s')"
    using solo_pars [of 0 "[StartTest ?H, ModeReturned STATUS_SUCCESS]" "mode_step ndis" 9 ?s2]
      start_alone [of ndis ?H ?s2] assms by simp
  finally have run: "pars (mode_step ndis) ?c
      ([ModeReturned STATUS_SUCCESS, ModeReturned STATUS_SUCCESS], ?s')" .
  have fields: "hy_GuardianMode (gs_Hybrid ?s') = ?W" "dv_GuardianMode (gs_Driver ?s') = ?H"
    "hy_CoordinatorActive (gs_Hybrid ?s')"
    by (simp_all add: GuardianHybridCoordinatorInitialize_def GuardianFiltersInitialize_def Let_def
        poll_hybrid poll_publishes del: guardian_mode_code.simps)
  then have "\<not> hybrid_inv ?s'" using ne by (simp add: hybrid_inv_def)
  with run fields show ?thesis by (auto simp: GuardianHybridGetMode_def)
qed

lemma concurrent_mode_requests_disagree_witness:
  "\<exists>s'. dv_GuardianMode (gs_Driver s') = 2 \<and> GuardianHybridGetMode s' = 0 \<and> \<not> hybrid_inv s'"
  using concurrent_mode_requests_disagree [of guardian_image
      "\<lparr>nx_open = STATUS_NOT_FOUND, nx_ioctl = STATUS_SUCCESS, nx_output = []\<rparr>"]
  by (auto simp: guardian_image_def)

end
