(* ===== verification/Typed_Tables.thy ===== *)
theory Typed_Tables
  imports System
begin

text \<open>
  The types of what the tables hold. C has no bounds on its arrays at run time; here the packed
  structures are records whose array fields are lists, and a structure is well-formed when each has
  its declared length. The tables of the running driver hold well-formed structures of the current
  version only.
\<close>

section \<open>Stored entries\<close>

definition stored_policy :: "GUARDIAN_APP_POLICY_V1 \<Rightarrow> bool" where
  "stored_policy p \<longleftrightarrow> wf_app_policy p \<and> ap_Version p = GUARDIAN_APP_POLICY_VERSION"

definition stored_route :: "GUARDIAN_ROUTE_ASSIGNMENT_V1 \<Rightarrow> bool" where
  "stored_route r \<longleftrightarrow> wf_route r \<and> ra_Version r = GUARDIAN_ROUTE_ASSIGNMENT_VERSION"

definition policies_typed :: "policy_table \<Rightarrow> bool" where
  "policies_typed t \<longleftrightarrow> set (pt_list t) \<subseteq> Collect stored_policy"

definition routes_typed :: "route_table \<Rightarrow> bool" where
  "routes_typed t \<longleftrightarrow> set (rt_list t) \<subseteq> Collect stored_route"

lemma typed_empty:
  "policies_typed GuardianAppPolicyInitialize" "routes_typed GuardianRouteInitialize"
  by (simp_all add: policies_typed_def routes_typed_def GuardianAppPolicyInitialize_def
      GuardianRouteInitialize_def)

lemma policies_typed_set:
  assumes "policies_typed t" and "wf_app_policy p"
  shows "policies_typed (snd (GuardianAppPolicySet a (Some p) t))"
proof -
  obtain s t' where st: "GuardianAppPolicySet a (Some p) t = (s, t')" by fastforce
  then show ?thesis
    by (cases rule: GuardianAppPolicySet_cases)
      (use assms st in \<open>simp_all add: replace_first_subset policies_typed_def stored_policy_def\<close>)
qed

lemma routes_typed_set:
  assumes "routes_typed t" and "wf_route r"
  shows "routes_typed (snd (GuardianRouteSet a (Some r) t))"
proof -
  obtain s t' where st: "GuardianRouteSet a (Some r) t = (s, t')" by fastforce
  then show ?thesis
    by (cases rule: GuardianRouteSet_cases)
      (use assms st in \<open>simp_all add: replace_first_subset routes_typed_def stored_route_def\<close>)
qed

lemma policies_typed_sync:
  assumes "policies_typed t" and "\<And>i p. rd i = Readable p \<Longrightarrow> wf_app_policy p"
    and "GuardianAppPolicySync alloc (Some rd) n t = Inr (st, t')"
  shows "policies_typed t'"
  using assms(1,3) policy_tab.loop_preserves [of policies_typed wf_app_policy rd
      GuardianAppPolicyInitialize alloc 0 "unat n" st t'] policies_typed_set assms(2) typed_empty(1)
  by (auto simp: GuardianAppPolicySync_def Let_def split: if_splits)

lemma routes_typed_sync:
  assumes "routes_typed t" and "\<And>i r. rd i = Readable r \<Longrightarrow> wf_route r"
    and "GuardianRouteSync alloc (Some rd) n t = Inr (st, t')"
  shows "routes_typed t'"
  using assms(1,3) route_tab.loop_preserves [of routes_typed wf_route rd
      GuardianRouteInitialize alloc 0 "unat n" st t'] routes_typed_set assms(2) typed_empty(2)
  by (auto simp: GuardianRouteSync_def Let_def split: if_splits)

lemma policies_typed_remove:
  "policies_typed t \<Longrightarrow> policies_typed (snd (GuardianAppPolicyRemove k t))"
  using set_remove_first by (fastforce simp: GuardianAppPolicyRemove_def policies_typed_def
      split: option.splits)

lemma routes_typed_clear: "routes_typed t \<Longrightarrow> routes_typed (snd (GuardianRouteClear k t))"
  using set_remove_first by (fastforce simp: GuardianRouteClear_def routes_typed_def
      split: option.splits)

section \<open>Preservation\<close>

definition tables_typed :: "guardian \<Rightarrow> bool" where
  "tables_typed s \<longleftrightarrow> policies_typed (gs_Policies s) \<and> routes_typed (gs_Routes s)"

lemma tables_typed_cong:
  "gs_Policies s' = gs_Policies s \<Longrightarrow> gs_Routes s' = gs_Routes s \<Longrightarrow> tables_typed s' = tables_typed s"
  by (simp add: tables_typed_def)

lemma effect_typed:
  assumes "ioctl_effect x st s s'" and "tables_typed s"
  shows "tables_typed s'"
  using assms(1)
proof (cases rule: ioctl_effect.cases)
  case (set_policy p a t)
  then show ?thesis using assms(2) policies_typed_set [of "gs_Policies s" p a]
    by (simp add: tables_typed_def)
next
  case (sync_policies rd alloc n t)
  then show ?thesis using assms(2) policies_typed_sync [OF _ sync_policies(3,4)]
    by (simp add: tables_typed_def)
next
  case (set_route r a u)
  then show ?thesis using assms(2) routes_typed_set [of "gs_Routes s" r a]
    by (simp add: tables_typed_def)
next
  case (clear_route k u)
  then show ?thesis using assms(2) routes_typed_clear [of "gs_Routes s" k]
    by (simp add: tables_typed_def)
next
  case (sync_routes rd alloc n u)
  then show ?thesis using assms(2) routes_typed_sync [OF _ sync_routes(3,4)]
    by (simp add: tables_typed_def)
next
  case (import_state ib n)
  then show ?thesis using assms(2) by (auto simp: tables_typed_def elim!: import_cases)
next
  case (set_mode ndis m)
  then have "outside_hybrid s' = outside_hybrid s" using outside_set_mode [of ndis m s] by simp
  then show ?thesis using assms(2) outside_hybridD(1,2) tables_typed_cong by blast
qed (use assms(2) in \<open>simp_all add: tables_typed_def\<close>)

lemma step_typed:
  assumes "driver_step s s'" and "tables_typed s"
  shows "tables_typed s'"
  using assms(1)
proof (cases rule: driver_step.cases)
  case (ioctl q env c)
  have pin: "tables_typed (checked_caller env s)"
    using assms(2) by (simp add: checked_caller_def tables_typed_def)
  from ioctl(1,2) show ?thesis
  proof (cases rule: evt_dispatched)
    case (reject st)
    then show ?thesis using pin by (simp add: complete_request_def tables_typed_def)
  next
    case (dispatch x n st k b' s2)
    then show ?thesis using effect_typed [OF dispatch(5) pin]
      by (simp add: complete_request_def tables_typed_def)
  qed
next
  case (classify f v start stop out out')
  then show ?thesis using call_classify_frame [of f v start stop out s] assms(2)
    by (auto simp: tables_typed_def)
next
  case (remove_policy k st p)
  then show ?thesis using assms(2) policies_typed_remove [of "gs_Policies s" k]
    by (simp add: tables_typed_def)
next
  case (poll ndis st)
  then have "outside_hybrid s' = outside_hybrid s" using outside_poll [of ndis s] by simp
  then show ?thesis using assms(2) outside_hybridD(1,2) tables_typed_cong by blast
next
  case (ndis_count n)
  then show ?thesis using assms(2)
    by (simp add: GuardianHybridSetNdisFilterCount_def publish_filter_count_def tables_typed_def)
qed (use assms(2) in \<open>simp add: tables_typed_def\<close>)

lemma running_typed: "running s \<Longrightarrow> tables_typed s"
proof (induction rule: running.induct)
  case (start env r st s)
  then have "s = entry_running env r" by (rule running_start)
  then show ?case using entry_running_fields(1,2) [of env r] typed_empty
    by (simp add: tables_typed_def)
next
  case (step s s')
  then show ?case using step_typed by blast
qed

end
