(* ===== verification/Concurrent_Driver.thy ===== *)
theory Concurrent_Driver
  imports Concurrent_Classify Concurrent_Caller Concurrent_Telemetry
    Concurrent_Mode Typed_Tables
begin

text \<open>
  The driver with its parallel request queue. Every control request is one thread: the caller check,
  then, after the checks of the buffers, the operation that its code stands for, then the recording
  of the request, all at the granularity of the other Concurrent theories. Connections are classified
  by threads beside them. Run alone, a request is GuardianEvtIoDeviceControl.
\<close>

section \<open>Requests as threads\<close>

text \<open>
  The dispatch of a request goes on as a call on a table, as the setting of the mode, of the kill
  switch or of an imported state, whose accesses are separate steps, or, for the other codes, as one
  step: those read state into the output, or change it under one lock.
\<close>

datatype request_call =
  ReqCheck ioctl_env ioctl_request check
| ReqPolicies ioctl_env ioctl_request "(GUARDIAN_APP_POLICY_V1, FWPS_INCOMING_VALUES0 option,
    ntstatus \<times> GUARDIAN_APP_POLICY_V1 \<times> bool) table_call"
| ReqRoutes ioctl_env ioctl_request "(GUARDIAN_ROUTE_ASSIGNMENT_V1, bytes,
    ntstatus \<times> GUARDIAN_ROUTE_ASSIGNMENT_V1 \<times> bool) table_call"
| ReqMode ioctl_env ioctl_request mode_call
| ReqKillSwitch ioctl_env ioctl_request GUARDIAN_KILL_SWITCH_V1
| ReqReadMode ioctl_env ioctl_request ntstatus
| ReqImport ioctl_env ioctl_request GUARDIAN_STATE_BLOB_HEADER_V1
| ReqImportRead ioctl_env ioctl_request u32
| ReqImportReport ioctl_env ioctl_request u32 u32
| ReqReport ioctl_env ioctl_request ntstatus u32
| ReqOnce ioctl_env ioctl_request
| ReqRecord ioctl_completion recording
| ReqDone ioctl_completion
| ReqFault

definition completing :: "ioctl_env \<Rightarrow> ntstatus \<Rightarrow> nat \<Rightarrow> bytes \<Rightarrow> request_call" where
  "completing env status bytesReturned b =
     ReqRecord \<lparr>cp_Status = status, cp_Information = bytesReturned, cp_SystemBuffer = b\<rparr>
       (IpcDispatch (\<not> NT_SUCCESS status) (en_End env - en_Start env))"

definition finished :: "ioctl_env \<Rightarrow> ioctl_request \<Rightarrow> ntstatus \<Rightarrow> request_call" where
  "finished env q status = completing env status 0 (rq_SystemBuffer q)"

definition read_then :: "fault + 'a \<Rightarrow> ('a \<Rightarrow> request_call) \<Rightarrow> request_call" where
  "read_then m f = (case m of Inl _ \<Rightarrow> ReqFault | Inr x \<Rightarrow> f x)"

definition import_call :: "ioctl_env \<Rightarrow> ioctl_request \<Rightarrow> request_call" where
  "import_call env q =
     (if in_ptr q = None \<or>
         unat (of_nat (rq_InputBufferLength q) :: u32) < sizeof_GUARDIAN_STATE_BLOB_HEADER_V1
      then finished env q STATUS_INVALID_PARAMETER
      else read_then (read_in rd_state_blob (in_ptr q)) (\<lambda>header.
        if sb_Version header \<noteq> GUARDIAN_STATE_BLOB_VERSION
        then finished env q STATUS_INVALID_PARAMETER else ReqImport env q header))"

definition dispatch_call :: "ioctl_env \<Rightarrow> ioctl_request \<Rightarrow> request_call" where
  "dispatch_call env q =
     (case enum_of guardian_ioctls ioctl_code (rq_IoControlCode q) of
        Some IOCTL_GUARDIAN_SET_APP_POLICY \<Rightarrow>
          read_then (read_in rd_app_policy (in_ptr q)) (\<lambda>p.
            ReqPolicies env q (SetEntry (en_Alloc env 0) (Some p)))
      | Some IOCTL_GUARDIAN_SYNC_POLICIES \<Rightarrow>
          read_then (read_in (\<lambda>m. rd_u32 (drop 4 m)) (in_ptr q)) (\<lambda>count.
            ReqPolicies env q (SyncEntry (en_Alloc env)
              (map_option (array_in rd_app_policy sizeof_GUARDIAN_APP_POLICY_V1) (in_ptr q)) count))
      | Some IOCTL_GUARDIAN_SET_ROUTE \<Rightarrow>
          read_then (read_in rd_route (in_ptr q)) (\<lambda>r.
            ReqRoutes env q (SetEntry (en_Alloc env 0) (Some r)))
      | Some IOCTL_GUARDIAN_CLEAR_ROUTE \<Rightarrow>
          read_then (read_in (rd_bytes 16) (in_ptr q)) (\<lambda>appId.
            ReqRoutes env q (RemoveEntry appId))
      | Some IOCTL_GUARDIAN_SYNC_ROUTES \<Rightarrow>
          read_then (read_in (\<lambda>m. rd_u32 (drop 4 m)) (in_ptr q)) (\<lambda>count.
            ReqRoutes env q (SyncEntry (en_Alloc env)
              (map_option (array_in rd_route sizeof_GUARDIAN_ROUTE_ASSIGNMENT_V1) (in_ptr q)) count))
      | Some IOCTL_GUARDIAN_SET_KILL_SWITCH \<Rightarrow>
          read_then (read_in rd_kill_switch (in_ptr q)) (ReqKillSwitch env q)
      | Some IOCTL_GUARDIAN_IMPORT_STATE \<Rightarrow> import_call env q
      | Some IOCTL_GUARDIAN_SET_GUARDIAN_MODE \<Rightarrow>
          read_then (read_in rd_u32 (in_ptr q)) (\<lambda>mode. ReqMode env q (SetModeEntry mode))
      | _ \<Rightarrow> ReqOnce env q)"

definition validated_call :: "ioctl_env \<Rightarrow> ioctl_request \<Rightarrow> request_call" where
  "validated_call env q =
     read_then (GuardianValidateIoctlBuffer (rq_IoControlCode q) (rq_InputBufferLength q)
                  (rq_OutputBufferLength q) (in_ptr q) (Some 0))
       (\<lambda>(status, requiredOutput).
          if \<not> NT_SUCCESS status then finished env q status
          else if rq_OutputBufferLength q < the requiredOutput
          then finished env q STATUS_BUFFER_TOO_SMALL
          else dispatch_call env q)"

text \<open>What follows the caller check: retrieving the buffers and validating them is local.\<close>

definition after_check :: "ioctl_env \<Rightarrow> ioctl_request \<Rightarrow> ntstatus \<Rightarrow> request_call" where
  "after_check env q status =
     (if \<not> NT_SUCCESS status then finished env q status
      else if 0 < rq_InputBufferLength q \<and> \<not> NT_SUCCESS (en_InputStatus env)
      then finished env q (en_InputStatus env)
      else if 0 < rq_OutputBufferLength q \<and> \<not> NT_SUCCESS (en_OutputStatus env)
      then finished env q (en_OutputStatus env)
      else validated_call env q)"

text \<open>A step of a part of the request, and where the request goes when the part has returned.\<close>

fun check_request :: "ioctl_env \<Rightarrow> ioctl_request \<Rightarrow> check \<Rightarrow> request_call" where
  "check_request env q (Verified status) = after_check env q status"
| "check_request env q p = ReqCheck env q p"

fun table_request ::
  "(('e, 'v, 'r) table_call \<Rightarrow> request_call) \<Rightarrow> (ntstatus \<Rightarrow> request_call) \<Rightarrow>
     ('e, 'v, 'r) table_call \<Rightarrow> request_call" where
  "table_request go end (Returned status) = end status"
| "table_request go end Faulted = ReqFault"
| "table_request go end p = go p"

fun mode_request :: "ioctl_env \<Rightarrow> ioctl_request \<Rightarrow> mode_call \<Rightarrow> request_call" where
  "mode_request env q (ModeReturned status) = finished env q status"
| "mode_request env q p = ReqMode env q p"

fun recording_request :: "ioctl_completion \<Rightarrow> recording \<Rightarrow> request_call" where
  "recording_request c Recorded = ReqDone c"
| "recording_request c p = ReqRecord c p"

fun request_step :: "(request_call, guardian) thread_step" where
  "request_step (ReqCheck env q p) s =
     map_option (\<lambda>(p', pin). (check_request env q p', s\<lparr>gs_AllowedServicePid := pin\<rparr>))
       (verify_step (en_Sessions env) p (gs_AllowedServicePid s))"
| "request_step (ReqPolicies env q p) s =
     map_option (\<lambda>(p', t). (table_request (ReqPolicies env q) (finished env q) p', s\<lparr>gs_Policies := t\<rparr>))
       (table_step policy_ops p (gs_Policies s))"
| "request_step (ReqRoutes env q p) s =
     map_option (\<lambda>(p', t). (table_request (ReqRoutes env q) (finished env q) p', s\<lparr>gs_Routes := t\<rparr>))
       (table_step route_ops p (gs_Routes s))"
| "request_step (ReqMode env q p) s =
     map_option (\<lambda>(p', s'). (mode_request env q p', s')) (mode_step (en_Ndis env) p s)"
| "request_step (ReqKillSwitch env q config) s =
     (case GuardianKillSwitchSet (Some config) (gs_KillSwitch s) of (status, k) \<Rightarrow>
        Some (if NT_SUCCESS status then ReqReadMode env q status else finished env q status,
              s\<lparr>gs_KillSwitch := k\<rparr>))"
| "request_step (ReqReadMode env q status) s =
     Some (ReqReport env q status (GuardianKillSwitchGetMode (gs_KillSwitch s)), s)"
| "request_step (ReqImport env q header) s =
     Some (ReqImportRead env q (sb_KillSwitchMode header),
           s\<lparr>gs_RecoveryGeneration := sb_RecoveryGeneration header\<rparr>)"
| "request_step (ReqImportRead env q mode) s =
     Some (ReqImportReport env q (gs_RecoveryGeneration s) mode, s)"
| "request_step (ReqImportReport env q generation mode) s =
     Some (ReqReport env q STATUS_SUCCESS mode,
           set_driver (\<lambda>d. d\<lparr>dv_RecoveryGeneration := generation\<rparr>) s)"
| "request_step (ReqReport env q status mode) s =
     Some (finished env q status, set_driver (\<lambda>d. d\<lparr>dv_KillSwitchMode := mode\<rparr>) s)"
| "request_step (ReqOnce env q) s =
     Some (case dispatch_ioctl env q (in_ptr q) (out_ptr q) s of
             Inl _ \<Rightarrow> (ReqFault, s)
           | Inr (status, bytesReturned, b, s') \<Rightarrow> (completing env status bytesReturned b, s'))"
| "request_step (ReqRecord c p) s =
     map_option (\<lambda>(p', t). (recording_request c p', s\<lparr>gs_Telemetry := t\<rparr>))
       (record_step p (gs_Telemetry s))"
| "request_step (ReqDone c) s = None"
| "request_step ReqFault s = None"

definition request :: "ioctl_env \<Rightarrow> ioctl_request \<Rightarrow> request_call" where
  "request env q = ReqCheck env q (VerifyEntry (Some (en_Origin env)))"

section \<open>Requests and connections together\<close>

text \<open>
  The queue of device.c dispatches requests in parallel, and the filter engine classifies at any time:
  a thread is a request or a connection. A critical section of a spin lock is one step of its thread,
  so no thread waits here.
\<close>

datatype driver_call = Request request_call | Connection guardian_call

fun driver_thread :: "(driver_call, guardian) thread_step" where
  "driver_thread (Request p) s = map_option (\<lambda>(p', s'). (Request p', s')) (request_step p s)"
| "driver_thread (Connection p) s = map_option (\<lambda>(p', s'). (Connection p', s')) (guardian_step p s)"

section \<open>Every request returns\<close>

fun request_left :: "request_call \<Rightarrow> nat" where
  "request_left (ReqCheck env q p) = (if checks_left p = 0 then 0 else checks_left p + 522)"
| "request_left (ReqPolicies env q p) = (if accesses_left p = 0 then 0 else accesses_left p + 6)"
| "request_left (ReqRoutes env q p) = (if accesses_left p = 0 then 0 else accesses_left p + 6)"
| "request_left (ReqMode env q p) = (if mode_steps_left p = 0 then 0 else mode_steps_left p + 6)"
| "request_left (ReqKillSwitch env q config) = 9"
| "request_left (ReqReadMode env q status) = 8"
| "request_left (ReqImport env q header) = 10"
| "request_left (ReqImportRead env q mode) = 9"
| "request_left (ReqImportReport env q generation mode) = 8"
| "request_left (ReqReport env q status mode) = 7"
| "request_left (ReqOnce env q) = 7"
| "request_left (ReqRecord c p) = records_left p"
| "request_left (ReqDone c) = 0"
| "request_left ReqFault = 0"

lemma completing_left [simp]:
  "request_left (completing env status n b) = 6" "request_left (finished env q status) = 6"
  by (simp_all add: completing_def finished_def)

lemma read_then_left:
  "(\<And>x. m = Inr x \<Longrightarrow> request_left (f x) \<le> n) \<Longrightarrow> request_left (read_then m f) \<le> n"
  by (simp add: read_then_def split: sum.split)

text \<open>The validation bounds the count that the dispatch reads.\<close>

lemma sync_count_left:
  assumes "check_sync ib inLen limit (Some 0) = Inr (status, r)" and "NT_SUCCESS status"
    and "read_in (\<lambda>m. rd_u32 (drop 4 m)) ib = Inr count"
  shows "count \<le> limit"
  using assms
  by (cases ib) (auto simp: check_sync_def read_in_def bind_fault_Inr not_less split: if_splits)

lemma after_check_left: "request_left (after_check env q status) \<le> 522"
proof -
  have dispatched: "request_left (dispatch_call env q) \<le> 522"
    if v: "GuardianValidateIoctlBuffer (rq_IoControlCode q) (rq_InputBufferLength q)
        (rq_OutputBufferLength q) (in_ptr q) (Some 0) = Inr (status, r)" and ok: "NT_SUCCESS status"
    for status r
  proof (cases "enum_of guardian_ioctls ioctl_code (rq_IoControlCode q)")
    case None
    then show ?thesis by (simp add: dispatch_call_def)
  next
    case (Some x)
    have policies: "unat count \<le> 256" if "x = IOCTL_GUARDIAN_SYNC_POLICIES"
      "read_in (\<lambda>m. rd_u32 (drop 4 m)) (in_ptr q) = Inr count" for count
      using sync_count_left [OF _ ok that(2), of _ GUARDIAN_MAX_SYNC_POLICIES r] v that(1) Some ok
      by (auto simp: GuardianValidateIoctlBuffer_def GUARDIAN_MAX_SYNC_POLICIES_def word_le_nat_alt
          split: if_splits)
    have routes: "unat count \<le> 512" if "x = IOCTL_GUARDIAN_SYNC_ROUTES"
      "read_in (\<lambda>m. rd_u32 (drop 4 m)) (in_ptr q) = Inr count" for count
      using sync_count_left [OF _ ok that(2), of _ GUARDIAN_MAX_SYNC_ROUTES r] v that(1) Some ok
      by (auto simp: GuardianValidateIoctlBuffer_def GUARDIAN_MAX_SYNC_ROUTES_def word_le_nat_alt
          split: if_splits)
    show ?thesis
      by (cases x) (auto simp: dispatch_call_def Some import_call_def intro!: read_then_left
          dest: policies [rotated] routes [rotated])
  qed
  have "request_left (validated_call env q) \<le> 522" unfolding validated_call_def
    by (rule read_then_left) (use dispatched in \<open>auto split: prod.split\<close>)
  then show ?thesis by (simp add: after_check_def)
qed

interpretation request_bound: thread_bound request_step request_left
proof
  show "request_left p' < request_left p" if st: "request_step p s = Some (p', s')"
    for p s p' s'
  proof (cases p)
    case (ReqCheck env q c)
    then obtain c' pin where "verify_step (en_Sessions env) c (gs_AllowedServicePid s) = Some (c', pin)"
      and p': "p' = check_request env q c'" using st by auto
    from check_bound.step_uses [OF this(1)] show ?thesis
      using ReqCheck p' after_check_left [of env q]
      by (cases c') (auto intro: le_less_trans [of _ 522])
  next
    case (ReqPolicies env q c)
    then obtain c' t where "table_step policy_ops c (gs_Policies s) = Some (c', t)"
      and p': "p' = table_request (ReqPolicies env q) (finished env q) c'" using st by auto
    from table_bound.step_uses [OF this(1)] show ?thesis using ReqPolicies p' by (cases c') auto
  next
    case (ReqRoutes env q c)
    then obtain c' t where "table_step route_ops c (gs_Routes s) = Some (c', t)"
      and p': "p' = table_request (ReqRoutes env q) (finished env q) c'" using st by auto
    from table_bound.step_uses [OF this(1)] show ?thesis using ReqRoutes p' by (cases c') auto
  next
    case (ReqMode env q c)
    then obtain c' where "mode_step (en_Ndis env) c s = Some (c', s')"
      and p': "p' = mode_request env q c'" using st by auto
    from mode_bound.step_uses [OF this(1)] show ?thesis using ReqMode p' by (cases c') auto
  next
    case (ReqRecord c r)
    then obtain r' t where "record_step r (gs_Telemetry s) = Some (r', t)"
      and p': "p' = recording_request c r'" using st by auto
    from record_bound.step_uses [OF this(1)] show ?thesis using ReqRecord p' by (cases r') auto
  qed (use st in \<open>auto split: prod.splits if_splits sum.splits\<close>)
  show "request_step p s = None \<longleftrightarrow> request_left p = 0" for p s
    by (cases p) (auto simp: check_bound.returned_iff table_bound.returned_iff
        mode_bound.returned_iff record_bound.returned_iff split: prod.splits)
qed

fun driver_steps_left :: "driver_call \<Rightarrow> nat" where
  "driver_steps_left (Request p) = request_left p"
| "driver_steps_left (Connection p) = guardian_steps_left p"

interpretation driver_bound: thread_bound driver_thread driver_steps_left
proof
  show "driver_steps_left p' < driver_steps_left p" if "driver_thread p s = Some (p', s')"
    for p s p' s'
    using that by (cases p) (auto dest: request_bound.step_uses guardian_bound.step_uses)
  show "driver_thread p s = None \<longleftrightarrow> driver_steps_left p = 0" for p s
    by (cases p) (auto simp: request_bound.returned_iff guardian_bound.returned_iff)
qed

section \<open>A request alone is the handler\<close>

text \<open>The parts of a request, each as long as it runs alone.\<close>

lemma check_leads:
  assumes "GuardianSecurityPolicyVerifyCaller (Some (en_Origin env)) (en_Sessions env)
    (gs_AllowedServicePid s) = (status, pin)"
  shows "leads request_step (request env q) s (after_check env q status)
    (s\<lparr>gs_AllowedServicePid := pin\<rparr>)"
proof -
  have step: "request_step (check_request env q p) (s\<lparr>gs_AllowedServicePid := pin\<rparr>) =
      Some (check_request env q p', s\<lparr>gs_AllowedServicePid := pin'\<rparr>)"
    if "verify_step (en_Sessions env) p pin = Some (p', pin')" for p pin p' pin'
    using that by (cases p) auto
  show ?thesis
    using solo_part [of "verify_step (en_Sessions env)" request_step "check_request env q"
        "\<lambda>pin. s\<lparr>gs_AllowedServicePid := pin\<rparr>", OF step
        verify_alone [of "en_Sessions env" "Some (en_Origin env)" "gs_AllowedServicePid s", unfolded assms prod.case]]
    by (simp add: request_def)
qed

lemma completing_leads:
  "leads request_step (completing env status n b) s
     (ReqDone (fst (complete_request env status n b s))) (snd (complete_request env status n b s))"
proof -
  let ?c = "\<lparr>cp_Status = status, cp_Information = n, cp_SystemBuffer = b\<rparr>"
  have step: "request_step (recording_request ?c p) (s\<lparr>gs_Telemetry := t\<rparr>) =
      Some (recording_request ?c p', s\<lparr>gs_Telemetry := t'\<rparr>)"
    if "record_step p t = Some (p', t')" for p t p' t'
    using that by (cases p) auto
  show ?thesis
    using solo_part [of record_step request_step "recording_request ?c" "\<lambda>t. s\<lparr>gs_Telemetry := t\<rparr>",
        OF step record_ipc_alone [of "\<not> NT_SUCCESS status" "en_End env - en_Start env" "gs_Telemetry s"]]
    by (simp add: completing_def complete_request_def set_telemetry_def)
qed

lemma policy_leads:
  assumes "leads (table_step policy_ops) p (gs_Policies s) p' t'"
  shows "leads request_step (table_request (ReqPolicies env q) (finished env q) p) s
    (table_request (ReqPolicies env q) (finished env q) p') (s\<lparr>gs_Policies := t'\<rparr>)"
proof -
  let ?f = "table_request (ReqPolicies env q) (finished env q)"
  have step: "request_step (?f p) (s\<lparr>gs_Policies := t\<rparr>) = Some (?f p', s\<lparr>gs_Policies := t'\<rparr>)"
    if "table_step policy_ops p t = Some (p', t')" for p t p' t'
  proof -
    have "?f p = ReqPolicies env q p" using that by (cases p) auto
    then show ?thesis using that by simp
  qed
  show ?thesis
    using assms solo_part [of "table_step policy_ops" request_step ?f "\<lambda>t. s\<lparr>gs_Policies := t\<rparr>", OF step]
    by (force simp: leads_def)
qed

lemma route_leads:
  assumes "leads (table_step route_ops) p (gs_Routes s) p' t'"
  shows "leads request_step (table_request (ReqRoutes env q) (finished env q) p) s
    (table_request (ReqRoutes env q) (finished env q) p') (s\<lparr>gs_Routes := t'\<rparr>)"
proof -
  let ?f = "table_request (ReqRoutes env q) (finished env q)"
  have step: "request_step (?f p) (s\<lparr>gs_Routes := t\<rparr>) = Some (?f p', s\<lparr>gs_Routes := t'\<rparr>)"
    if "table_step route_ops p t = Some (p', t')" for p t p' t'
  proof -
    have "?f p = ReqRoutes env q p" using that by (cases p) auto
    then show ?thesis using that by simp
  qed
  show ?thesis
    using assms solo_part [of "table_step route_ops" request_step ?f "\<lambda>t. s\<lparr>gs_Routes := t\<rparr>", OF step]
    by (force simp: leads_def)
qed

lemma mode_leads:
  assumes "GuardianHybridSetMode (en_Ndis env) mode s = (status, s')"
  shows "leads request_step (ReqMode env q (SetModeEntry mode)) s (finished env q status) s'"
proof -
  have step: "request_step (mode_request env q p) (id t) = Some (mode_request env q p', id t')"
    if "mode_step (en_Ndis env) p t = Some (p', t')" for p t p' t'
    using that by (cases p) auto
  show ?thesis
    using solo_part [of "mode_step (en_Ndis env)" request_step "mode_request env q" id,
        OF step set_mode_alone [of "en_Ndis env" mode s, unfolded assms prod.case]] by simp
qed

lemma read_then_simps [simp]: "read_then (Inl f) g = ReqFault" "read_then (Inr x) g = g x"
  by (simp_all add: read_then_def)

text \<open>The dispatch: a request that faults ends as ReqFault in some state.\<close>

definition ends_as :: "ioctl_env \<Rightarrow> request_call \<Rightarrow> guardian \<Rightarrow> branch_result \<Rightarrow> bool" where
  "ends_as env p s r \<longleftrightarrow>
     (case r of
        Inl f \<Rightarrow> \<exists>s'. leads request_step p s ReqFault s'
      | Inr (status, n, b, s') \<Rightarrow> leads request_step p s (completing env status n b) s')"

lemma ends_as_fault [simp]: "ends_as env ReqFault s (Inl f)"
  by (auto simp: ends_as_def intro: leads_refl)

lemma ends_as_step:
  "request_step p s = Some (p', s') \<Longrightarrow> ends_as env p' s' r \<Longrightarrow> ends_as env p s r"
  by (auto simp: ends_as_def split: sum.splits intro: leads_step)

lemma ends_as_finished [simp]:
  "ends_as env (finished env q status) s (Inr (status, 0, rq_SystemBuffer q, s))"
  by (simp add: ends_as_def finished_def leads_refl)

lemma policies_end:
  assumes "GuardianAppPolicySync alloc es count (gs_Policies s) = r"
  shows "ends_as env (ReqPolicies env q (SyncEntry alloc es count)) s
    (bind_fault r (\<lambda>(status, t). Inr (status, 0, rq_SystemBuffer q, s\<lparr>gs_Policies := t\<rparr>)))"
proof -
  have "case r of
      Inl f \<Rightarrow> \<exists>t'. leads (table_step policy_ops) (SyncEntry alloc es count) (gs_Policies s) Faulted t'
    | Inr (st, t') \<Rightarrow> leads (table_step policy_ops) (SyncEntry alloc es count) (gs_Policies s) (Returned st) t'"
    using policy_threads.sync_leads [of alloc es count "gs_Policies s"] unfolding assms .
  then show ?thesis
    using policy_leads [of "SyncEntry alloc es count" s _ _ env q]
    by (fastforce simp: ends_as_def finished_def split: sum.splits)
qed

lemma routes_end:
  assumes "GuardianRouteSync alloc es count (gs_Routes s) = r"
  shows "ends_as env (ReqRoutes env q (SyncEntry alloc es count)) s
    (bind_fault r (\<lambda>(status, t). Inr (status, 0, rq_SystemBuffer q, s\<lparr>gs_Routes := t\<rparr>)))"
proof -
  have "case r of
      Inl f \<Rightarrow> \<exists>t'. leads (table_step route_ops) (SyncEntry alloc es count) (gs_Routes s) Faulted t'
    | Inr (st, t') \<Rightarrow> leads (table_step route_ops) (SyncEntry alloc es count) (gs_Routes s) (Returned st) t'"
    using route_threads.sync_leads [of alloc es count "gs_Routes s"] unfolding assms .
  then show ?thesis
    using route_leads [of "SyncEntry alloc es count" s _ _ env q]
    by (fastforce simp: ends_as_def finished_def split: sum.splits)
qed

lemma import_ends:
  "ends_as env (import_call env q) s
     (bind_fault (GuardianStateManagerImport (in_ptr q) (of_nat (rq_InputBufferLength q)) s)
       (\<lambda>(status, s'). Inr (status, 0, rq_SystemBuffer q, s')))"
proof -
  have rest: "ends_as env (ReqImport env q h) s (Inr (STATUS_SUCCESS, 0, rq_SystemBuffer q,
      set_driver (\<lambda>d. d\<lparr>dv_KillSwitchMode := sb_KillSwitchMode h\<rparr>)
        (set_driver (\<lambda>d. d\<lparr>dv_RecoveryGeneration := sb_RecoveryGeneration h\<rparr>)
          (s\<lparr>gs_RecoveryGeneration := sb_RecoveryGeneration h\<rparr>))))" for h
    by (rule ends_as_step, simp, rule ends_as_step, simp, rule ends_as_step, simp,
        rule ends_as_step, simp, simp)
  show ?thesis
    using rest
    by (auto simp: import_call_def GuardianStateManagerImport_def read_in_def read_mem_def Let_def
        split: option.splits)
qed

lemma kill_switch_ends:
  "ends_as env (read_then (read_in rd_kill_switch (in_ptr q)) (ReqKillSwitch env q)) s
     (dispatch_set_kill_switch (in_ptr q) (rq_SystemBuffer q) s)"
proof (cases "read_in rd_kill_switch (in_ptr q)")
  case (Inl f)
  then show ?thesis by (simp add: dispatch_set_kill_switch_def)
next
  case (Inr config)
  obtain status k where set: "GuardianKillSwitchSet (Some config) (gs_KillSwitch s) = (status, k)"
    by fastforce
  show ?thesis
  proof (cases "NT_SUCCESS status")
    case True
    then show ?thesis using Inr set
      by (auto simp: dispatch_set_kill_switch_def Let_def
          intro!: ends_as_step [of "ReqKillSwitch env q config"]
            ends_as_step [of "ReqReadMode env q status"] ends_as_step [of "ReqReport env q status m" for m])
  next
    case False
    then show ?thesis using Inr set
      by (auto simp: dispatch_set_kill_switch_def Let_def
          intro!: ends_as_step [of "ReqKillSwitch env q config"])
  qed
qed

lemma once_ends:
  "ends_as env (ReqOnce env q) s (dispatch_ioctl env q (in_ptr q) (out_ptr q) s)"
proof (cases "dispatch_ioctl env q (in_ptr q) (out_ptr q) s")
  case (Inl f)
  then have "request_step (ReqOnce env q) s = Some (ReqFault, s)" by simp
  then show ?thesis using Inl ends_as_step by simp
next
  case (Inr r)
  then show ?thesis
    by (cases r) (auto simp: ends_as_def intro!: leads_step [of _ "ReqOnce env q"] leads_refl)
qed

lemma dispatch_ends:
  "ends_as env (dispatch_call env q) s (dispatch_ioctl env q (in_ptr q) (out_ptr q) s)"
proof (cases "enum_of guardian_ioctls ioctl_code (rq_IoControlCode q)")
  case None
  then show ?thesis using once_ends by (simp add: dispatch_call_def)
next
  case (Some x)
  note d = dispatch_call_def dispatch_ioctl_def Let_def Some
  show ?thesis
  proof (cases x)
    case IOCTL_GUARDIAN_SET_APP_POLICY
    then show ?thesis
      by (cases "read_in rd_app_policy (in_ptr q)")
        (auto simp: d policy_ops_def intro!: ends_as_step [of "ReqPolicies env q p" for p]
          split: prod.split)
  next
    case IOCTL_GUARDIAN_SYNC_POLICIES
    then show ?thesis
      by (cases "read_in (\<lambda>m. rd_u32 (drop 4 m)) (in_ptr q)")
        (auto simp: d dispatch_sync_policies_def intro!: policies_end)
  next
    case IOCTL_GUARDIAN_SET_ROUTE
    then show ?thesis
      by (cases "read_in rd_route (in_ptr q)")
        (auto simp: d route_ops_def intro!: ends_as_step [of "ReqRoutes env q p" for p]
          split: prod.split)
  next
    case IOCTL_GUARDIAN_CLEAR_ROUTE
    then show ?thesis
      by (cases "read_in (rd_bytes 16) (in_ptr q)")
        (auto simp: d route_ops_def intro!: ends_as_step [of "ReqRoutes env q p" for p]
          split: prod.split)
  next
    case IOCTL_GUARDIAN_SYNC_ROUTES
    then show ?thesis
      by (cases "read_in (\<lambda>m. rd_u32 (drop 4 m)) (in_ptr q)")
        (auto simp: d dispatch_sync_routes_def intro!: routes_end)
  next
    case IOCTL_GUARDIAN_SET_KILL_SWITCH
    then show ?thesis using kill_switch_ends by (simp add: d)
  next
    case IOCTL_GUARDIAN_IMPORT_STATE
    then show ?thesis using import_ends by (simp add: d)
  next
    case IOCTL_GUARDIAN_SET_GUARDIAN_MODE
    then show ?thesis
      by (cases "read_in rd_u32 (in_ptr q)")
        (auto simp: d ends_as_def mode_leads [unfolded finished_def] split: prod.split
          intro: leads_refl)
  qed (use once_ends [of env q s] in \<open>simp_all add: d\<close>)
qed

text \<open>The request that is not dispatched, and the one that is.\<close>

lemma finished_leads:
  "leads request_step (finished env q status) s
     (ReqDone (fst (complete_request env status 0 (rq_SystemBuffer q) s)))
     (snd (complete_request env status 0 (rq_SystemBuffer q) s))"
  unfolding finished_def by (rule completing_leads)

lemma dispatch_leads:
  "case dispatch_ioctl env q (in_ptr q) (out_ptr q) s of
     Inl f \<Rightarrow> \<exists>s'. leads request_step (dispatch_call env q) s ReqFault s'
   | Inr (status, n, b, s1) \<Rightarrow>
       leads request_step (dispatch_call env q) s (ReqDone (fst (complete_request env status n b s1)))
         (snd (complete_request env status n b s1))"
  using dispatch_ends [of env q s]
  by (auto simp: ends_as_def intro: leads_trans [OF _ completing_leads] split: sum.splits)

lemma request_leads:
  "case GuardianEvtIoDeviceControl env q s of
     Inl f \<Rightarrow> \<exists>s'. leads request_step (request env q) s ReqFault s'
   | Inr (c, s') \<Rightarrow> leads request_step (request env q) s (ReqDone c) s'"
proof -
  obtain status pin where v: "GuardianSecurityPolicyVerifyCaller (Some (en_Origin env))
      (en_Sessions env) (gs_AllowedServicePid s) = (status, pin)" by fastforce
  then have s1: "checked_caller env s = s\<lparr>gs_AllowedServicePid := pin\<rparr>"
    by (simp add: checked_caller_def)
  note start = check_leads [OF v, of q, folded s1]
  have stops: ?thesis if "after_check env q status = finished env q st"
    and "GuardianEvtIoDeviceControl env q s =
      Inr (complete_request env st 0 (rq_SystemBuffer q) (checked_caller env s))" for st
    using leads_trans [OF start [unfolded that(1)] finished_leads [of env q st]] that(2)
    by (simp add: case_prod_unfold)
  note evt = evt_unfold v Let_def fst_conv
  consider (caller) "\<not> NT_SUCCESS status"
    | (input) "NT_SUCCESS status" "0 < rq_InputBufferLength q \<and> \<not> NT_SUCCESS (en_InputStatus env)"
    | (out) "NT_SUCCESS status" "\<not> (0 < rq_InputBufferLength q \<and> \<not> NT_SUCCESS (en_InputStatus env))"
        "0 < rq_OutputBufferLength q \<and> \<not> NT_SUCCESS (en_OutputStatus env)"
    | (admit) "NT_SUCCESS status" "\<not> (0 < rq_InputBufferLength q \<and> \<not> NT_SUCCESS (en_InputStatus env))"
        "\<not> (0 < rq_OutputBufferLength q \<and> \<not> NT_SUCCESS (en_OutputStatus env))"
    by blast
  then show ?thesis
  proof cases
    case caller
    show ?thesis
      by (rule stops [of status]) (simp_all add: evt caller after_check_def)
  next
    case input
    show ?thesis
      by (rule stops [of "en_InputStatus env"]) (simp_all add: evt input after_check_def)
  next
    case out
    show ?thesis
      by (rule stops [of "en_OutputStatus env"])
        (simp_all only: evt out after_check_def if_True if_False simp_thms)
  next
    case admit
    then have go: "after_check env q status = validated_call env q" "admitted env q s"
      using v by (auto simp: after_check_def admitted_def)
    note start' = start [unfolded go(1)]
    show ?thesis
    proof (cases "GuardianValidateIoctlBuffer (rq_IoControlCode q) (rq_InputBufferLength q)
        (rq_OutputBufferLength q) (in_ptr q) (Some 0)")
      case (Inl f)
      then show ?thesis using start' by (auto simp: evt_admitted [OF go(2)] validated_call_def)
    next
      case (Inr r)
      obtain st n where r: "r = (st, n)" by (cases r)
      show ?thesis
      proof (cases "NT_SUCCESS st \<and> \<not> rq_OutputBufferLength q < the n")
        case True
        then have "validated_call env q = dispatch_call env q"
          using Inr r by (simp add: validated_call_def)
        then show ?thesis
          using True Inr r dispatch_leads [of env q "checked_caller env s"] start'
          by (auto simp: evt_admitted [OF go(2)] case_prod_unfold intro: leads_trans
              split: sum.splits)
      next
        case False
        show ?thesis
          by (rule stops [of "if NT_SUCCESS st then STATUS_BUFFER_TOO_SMALL else st"])
            (use False Inr r in \<open>auto simp: go(1) validated_call_def evt_admitted [OF go(2)]\<close>)
      qed
    qed
  qed
qed

section \<open>Properties\<close>

text \<open>
  C11: A request whose accesses are separate steps of a thread, when no other thread takes a
  turn, is the handler: after at most 526 steps it has completed with the status, the byte
  count, the buffer and the state that GuardianEvtIoDeviceControl gives, or it has faulted when
  that faults.
\<close>

theorem request_alone_is_the_handler:
  "case GuardianEvtIoDeviceControl env q s of
     Inl f \<Rightarrow> fst (solo request_step 526 (request env q) s) = ReqFault
   | Inr (c, s') \<Rightarrow> solo request_step 526 (request env q) s = (ReqDone c, s')"
proof -
  have left: "request_left (request env q) = 526" by (simp add: request_def)
  show ?thesis
    using request_leads [of env q s] request_bound.leads_solo [of "request env q" s, unfolded left]
    by (fastforce split: sum.splits prod.splits)
qed

end
