(* ===== verification/Concurrent_System.thy ===== *)
theory Concurrent_System
  imports Concurrent_Driver
begin

text \<open>
  What the state of the driver keeps while requests and connections run in parallel, whatever their
  interleaving: the tables stay tables of typed entries with distinct ids, the modes stay modes, and
  no request leaves its buffer except for a sync that claims more elements than it brings. The
  counters of the tables and the agreement of the reported mode with the real one are not among it.
\<close>

section \<open>What table calls keep\<close>

text \<open>
  The elements that a call brings are well-formed, and a call leaves the memory of its array only
  when F holds.
\<close>

fun sound_call :: "('e \<Rightarrow> bool) \<Rightarrow> bool \<Rightarrow> ('e, 'v, 'r) table_call \<Rightarrow> bool" where
  "sound_call W F (SyncEntry alloc es count) \<longleftrightarrow> (\<forall>rd. es = Some rd \<longrightarrow>
     (\<forall>m e. rd m = Readable e \<longrightarrow> W e) \<and> (\<forall>m v. m < unat count \<and> rd m = Truncated v \<longrightarrow> F))"
| "sound_call W F (SyncInitList alloc rd n) \<longleftrightarrow>
     (\<forall>m e. rd m = Readable e \<longrightarrow> W e) \<and> (\<forall>m v. m < n \<and> rd m = Truncated v \<longrightarrow> F)"
| "sound_call W F (SyncInitCount alloc rd n) \<longleftrightarrow>
     (\<forall>m e. rd m = Readable e \<longrightarrow> W e) \<and> (\<forall>m v. m < n \<and> rd m = Truncated v \<longrightarrow> F)"
| "sound_call W F (SyncLoop alloc rd i n) \<longleftrightarrow>
     (\<forall>m e. rd m = Readable e \<longrightarrow> W e) \<and> (\<forall>m v. m < i + n \<and> rd m = Truncated v \<longrightarrow> F)"
| "sound_call W F (SetEntry alloc e) \<longleftrightarrow> (\<forall>x. e = Some x \<longrightarrow> W x)"
| "sound_call W F Faulted \<longleftrightarrow> F"
| "sound_call W F _ \<longleftrightarrow> True"

text \<open>What all operations of a table keep, every step of a call keeps, between the two writes too.\<close>

locale kept_by_calls =
  fixes ops :: "('e, 't, 'v, 'r) table_ops" and P :: "'t \<Rightarrow> bool" and W :: "'e \<Rightarrow> bool"
  assumes keep_shutdown: "P t \<Longrightarrow> P (op_Shutdown ops t)"
    and keep_init: "P t \<Longrightarrow> P (op_InitList ops t)" "P t \<Longrightarrow> P (op_InitCount ops t)"
    and keep_set: "P t \<Longrightarrow> (\<And>x. e = Some x \<Longrightarrow> W x) \<Longrightarrow> P (snd (op_Set ops a e t))"
    and keep_remove: "P t \<Longrightarrow> P (snd (op_Remove ops k t))"
begin

lemma step_keeps:
  assumes "P t" and "sound_call W F p" and "table_step ops p t = Some (p', t')"
  shows "P t' \<and> sound_call W F p'"
  using assms
proof (cases "(ops, p, t)" rule: table_step.cases)
  case (5 ops' alloc rd i n u)
  show ?thesis
  proof (cases "rd i")
    case (Truncated v)
    then show ?thesis using assms 5
      by (auto simp: sync_iteration_def split: sum.splits)
  next
    case (Readable e)
    then have "P (snd (op_Set ops (alloc i) (Some e) t))" using assms(1,2) 5
      by (intro keep_set) auto
    then show ?thesis using assms 5 Readable
      by (auto simp: sync_iteration_def split: prod.splits if_splits)
  qed
next
  case (6 ops' alloc e u)
  then show ?thesis using assms keep_set [OF assms(1), of e alloc] by (auto split: prod.splits)
next
  case (7 ops' appId u)
  then show ?thesis using assms keep_remove [OF assms(1), of appId] by (auto split: prod.splits)
qed (auto simp: keep_shutdown keep_init split: option.splits if_splits)

end

definition policies_sound :: "policy_table \<Rightarrow> bool" where
  "policies_sound t \<longleftrightarrow> ids_ok ap_AppId (pt_list t) \<and> policies_typed t"

definition routes_sound :: "route_table \<Rightarrow> bool" where
  "routes_sound t \<longleftrightarrow> ids_ok ra_AppId (rt_list t) \<and> routes_typed t"

lemma policy_set_ids:
  assumes "ids_ok ap_AppId (pt_list t)" and "wf_app_policy p"
  shows "ids_ok ap_AppId (pt_list (snd (GuardianAppPolicySet a (Some p) t)))"
  using assms ids_ok_replace [OF assms(1), of p] ids_ok_append [OF assms(1), of p]
  by (auto simp: GuardianAppPolicySet_def GuardianPolicyFindLocked_def wf_app_policy_def
      split: option.split)

lemma route_set_ids:
  assumes "ids_ok ra_AppId (rt_list t)" and "wf_route r"
  shows "ids_ok ra_AppId (rt_list (snd (GuardianRouteSet a (Some r) t)))"
  using assms ids_ok_replace [OF assms(1), of r] ids_ok_append [OF assms(1), of r]
  by (auto simp: GuardianRouteSet_def GuardianRouteFindLocked_def wf_route_def
      split: option.split)

interpretation policies_kept: kept_by_calls policy_ops policies_sound wf_app_policy
proof
  show "policies_sound (snd (op_Set policy_ops a e t))"
    if "policies_sound t" "\<And>x. e = Some x \<Longrightarrow> wf_app_policy x" for a e t
    using that policy_set_ids policies_typed_set
    by (cases e) (simp_all add: policies_sound_def policy_ops_def GuardianAppPolicySet_def)
  show "policies_sound (snd (op_Remove policy_ops k t))" if "policies_sound t" for k t
    using that policies_typed_remove [of t k] ids_ok_remove
    by (auto simp: policies_sound_def policy_ops_def GuardianAppPolicyRemove_def split: option.split)
qed (simp_all add: policies_sound_def policy_ops_def GuardianAppPolicyShutdown_def policies_typed_def)

interpretation routes_kept: kept_by_calls route_ops routes_sound wf_route
proof
  show "routes_sound (snd (op_Set route_ops a e t))"
    if "routes_sound t" "\<And>x. e = Some x \<Longrightarrow> wf_route x" for a e t
    using that route_set_ids routes_typed_set
    by (cases e) (simp_all add: routes_sound_def route_ops_def GuardianRouteSet_def)
  show "routes_sound (snd (op_Remove route_ops k t))" if "routes_sound t" for k t
    using that routes_typed_clear [of t k] ids_ok_remove
    by (auto simp: routes_sound_def route_ops_def GuardianRouteClear_def split: option.split)
qed (simp_all add: routes_sound_def route_ops_def GuardianRouteShutdown_def routes_typed_def)

section \<open>What a request keeps\<close>

definition shared_inv :: "guardian \<Rightarrow> bool" where
  "shared_inv s \<longleftrightarrow>
     policies_sound (gs_Policies s) \<and> routes_sound (gs_Routes s) \<and> ks_inv (gs_KillSwitch s) \<and>
     dns_inv (gs_Dns s) \<and> wf_driver_state (gs_Driver s) \<and>
     GuardianHybridIsValidMode (hy_GuardianMode (gs_Hybrid s)) \<and>
     GuardianHybridIsValidMode (dv_GuardianMode (gs_Driver s)) \<and>
     gs_FilterCount s = 0 \<and> GuardianCalloutsAreRegistered s \<and>
     dv_LifecycleState (gs_Driver s) = lifecycle_code GuardianLifecycleRunning"

fun sound_mode :: "mode_call \<Rightarrow> bool" where
  "sound_mode (ShutdownTest mode) \<longleftrightarrow> GuardianHybridIsValidMode mode"
| "sound_mode (ClearActive mode) \<longleftrightarrow> GuardianHybridIsValidMode mode"
| "sound_mode (StoreMode mode) \<longleftrightarrow> GuardianHybridIsValidMode mode"
| "sound_mode (ReportMode mode) \<longleftrightarrow> GuardianHybridIsValidMode mode"
| "sound_mode _ \<longleftrightarrow> True"

lemmas shared_defs = shared_inv_def wf_driver_state_def GuardianCalloutsAreRegistered_def

lemma mode_step_keeps:
  assumes "mode_step ndis p s = Some (p', s')" and "sound_mode p" and "shared_inv s"
  shows "sound_mode p' \<and> shared_inv s'"
  using assms
  by (cases p) (auto simp: shared_defs GuardianFiltersShutdown_def publish_filter_count_def
      simp del: guardian_mode_code.simps lifecycle_code.simps split: prod.splits nat.splits if_splits)

text \<open>The codes whose dispatch is one step.\<close>

definition once_codes :: "GUARDIAN_IOCTL set" where
  "once_codes = {IOCTL_GUARDIAN_GET_DRIVER_STATE, IOCTL_GUARDIAN_GET_TELEMETRY,
     IOCTL_GUARDIAN_EXPORT_STATE, IOCTL_GUARDIAN_RECONCILE, IOCTL_GUARDIAN_DNS_SET_CONFIG,
     IOCTL_GUARDIAN_GET_PERF_STATS, IOCTL_GUARDIAN_GET_DNS_STATS}"

definition sound_completion :: "ioctl_request \<Rightarrow> ioctl_completion \<Rightarrow> bool" where
  "sound_completion q c \<longleftrightarrow> cp_Information c \<le> rq_OutputBufferLength q \<and>
     length (cp_SystemBuffer c) = length (rq_SystemBuffer q)"

fun sound_request :: "ioctl_request \<Rightarrow> request_call \<Rightarrow> bool" where
  "sound_request q (ReqCheck env q' p) \<longleftrightarrow> q' = q \<and> wf_request q"
| "sound_request q (ReqPolicies env q' p) \<longleftrightarrow>
     q' = q \<and> sound_call wf_app_policy (sync_overrun q) p"
| "sound_request q (ReqRoutes env q' p) \<longleftrightarrow> q' = q \<and> sound_call wf_route (sync_overrun q) p"
| "sound_request q (ReqMode env q' p) \<longleftrightarrow> q' = q \<and> sound_mode p"
| "sound_request q (ReqKillSwitch env q' config) \<longleftrightarrow> q' = q"
| "sound_request q (ReqReadMode env q' status) \<longleftrightarrow> q' = q"
| "sound_request q (ReqImport env q' header) \<longleftrightarrow> q' = q"
| "sound_request q (ReqImportRead env q' mode) \<longleftrightarrow> q' = q"
| "sound_request q (ReqImportReport env q' generation mode) \<longleftrightarrow> q' = q"
| "sound_request q (ReqReport env q' status mode) \<longleftrightarrow> q' = q"
| "sound_request q (ReqOnce env q') \<longleftrightarrow> q' = q \<and> wf_request q \<and>
     (\<exists>x n. x \<in> once_codes \<and> rq_IoControlCode q = ioctl_code x \<and> valid_request q n)"
| "sound_request q (ReqRecord c p) \<longleftrightarrow> sound_completion q c"
| "sound_request q (ReqDone c) \<longleftrightarrow> sound_completion q c"
| "sound_request q ReqFault \<longleftrightarrow> sync_overrun q"

lemma sound_finished [simp]: "sound_request q (finished env q status)"
  by (simp add: finished_def completing_def sound_completion_def)

lemma sound_read_then:
  "(\<And>f. m = Inl f \<Longrightarrow> sync_overrun q) \<Longrightarrow> (\<And>x. m = Inr x \<Longrightarrow> sound_request q (g x)) \<Longrightarrow>
     sound_request q (read_then m g)"
  by (cases m) simp_all

lemma policy_array_sound:
  assumes "rq_IoControlCode q = ioctl_code IOCTL_GUARDIAN_SYNC_POLICIES"
    and "m < unat (count_field (rq_SystemBuffer q))"
    and "array_in rd_app_policy sizeof_GUARDIAN_APP_POLICY_V1 (rq_SystemBuffer q) m = Truncated v"
  shows "sync_overrun q"
  using array_overrun [OF app_policy.codec_axioms assms(3,2)]
  unfolding sync_overrun_def assms(1) guardian_ioctl.enum_of_code by simp

lemma route_array_sound:
  assumes "rq_IoControlCode q = ioctl_code IOCTL_GUARDIAN_SYNC_ROUTES"
    and "m < unat (count_field (rq_SystemBuffer q))"
    and "array_in rd_route sizeof_GUARDIAN_ROUTE_ASSIGNMENT_V1 (rq_SystemBuffer q) m = Truncated v"
  shows "sync_overrun q"
  using array_overrun [OF route_layout.codec_axioms assms(3,2)]
  unfolding sync_overrun_def assms(1) guardian_ioctl.enum_of_code by simp

lemma dispatch_once:
  assumes "rq_IoControlCode q = ioctl_code x" and "x \<in> once_codes"
  shows "dispatch_call env q = ReqOnce env q"
  unfolding dispatch_call_def assms(1) guardian_ioctl.enum_of_code
  by (cases x) (use assms(2) in \<open>simp_all add: once_codes_def\<close>)

lemma dispatch_sound:
  assumes "wf_request q" and "rq_IoControlCode q = ioctl_code x" and "valid_request q n"
  shows "sound_request q (dispatch_call env q)"
proof -
  let ?b = "rq_SystemBuffer q"
  note v = valid_lengths [OF assms]
  note d = dispatch_call_def assms(2) guardian_ioctl.enum_of_code
  show ?thesis
  proof (cases "x \<in> once_codes")
    case True
    then show ?thesis using assms dispatch_once [OF assms(2)] by auto
  next
    case False
    then show ?thesis
    proof (cases x)
      case IOCTL_GUARDIAN_SET_APP_POLICY
      with v obtain e r where e: "rd_app_policy ?b = Some (e, r)" and ptr: "in_ptr q = Some ?b"
        using app_policy.rd_none [of ?b] by (cases "rd_app_policy ?b") auto
      then have "wf_app_policy e" by (simp add: app_policy.rd_iff)
      then show ?thesis using IOCTL_GUARDIAN_SET_APP_POLICY e ptr
        unfolding d by (simp add: read_in_def read_mem_def)
    next
      case IOCTL_GUARDIAN_SYNC_POLICIES
      with v have "in_ptr q = Some ?b" and "read_in (\<lambda>m. rd_u32 (drop 4 m)) (Some ?b) = Inr (count_field ?b)"
        using count_field_read [of ?b] by (auto simp: read_in_def)
      then show ?thesis using policy_array_sound [OF assms(2) [unfolded IOCTL_GUARDIAN_SYNC_POLICIES]] array_in_wf(1)
        unfolding d IOCTL_GUARDIAN_SYNC_POLICIES by auto
    next
      case IOCTL_GUARDIAN_SET_ROUTE
      with v obtain e r where e: "rd_route ?b = Some (e, r)" and ptr: "in_ptr q = Some ?b"
        using route_layout.rd_none [of ?b] by (cases "rd_route ?b") auto
      then have "wf_route e" by (simp add: route_layout.rd_iff)
      then show ?thesis using IOCTL_GUARDIAN_SET_ROUTE e ptr
        unfolding d by (simp add: read_in_def read_mem_def)
    next
      case IOCTL_GUARDIAN_CLEAR_ROUTE
      with v show ?thesis
        unfolding d by (auto simp: rd_bytes_none intro!: sound_read_then dest!: read_in_no_fault)
    next
      case IOCTL_GUARDIAN_SYNC_ROUTES
      with v have "in_ptr q = Some ?b" and "read_in (\<lambda>m. rd_u32 (drop 4 m)) (Some ?b) = Inr (count_field ?b)"
        using count_field_read [of ?b] by (auto simp: read_in_def)
      then show ?thesis using route_array_sound [OF assms(2) [unfolded IOCTL_GUARDIAN_SYNC_ROUTES]] array_in_wf(2)
        unfolding d IOCTL_GUARDIAN_SYNC_ROUTES by auto
    next
      case IOCTL_GUARDIAN_SET_KILL_SWITCH
      with v show ?thesis using kill_switch_layout.rd_none [of ?b]
        unfolding d by (auto intro!: sound_read_then dest: read_in_no_fault)
    next
      case IOCTL_GUARDIAN_IMPORT_STATE
      with v show ?thesis using state_blob_layout.rd_none [of ?b]
        unfolding d by (auto simp: import_call_def intro!: sound_read_then dest: read_in_no_fault)
    next
      case IOCTL_GUARDIAN_SET_GUARDIAN_MODE
      with v show ?thesis
        unfolding d by (auto simp: rd_word_none intro!: sound_read_then dest!: read_in_no_fault)
    qed (simp_all add: once_codes_def)
  qed
qed

lemma after_check_sound:
  assumes "wf_request q"
  shows "sound_request q (after_check env q status)"
proof -
  have "sound_request q (validated_call env q)"
    unfolding validated_call_def
  proof (rule sound_read_then)
    show "sync_overrun q" if "GuardianValidateIoctlBuffer (rq_IoControlCode q)
        (rq_InputBufferLength q) (rq_OutputBufferLength q) (in_ptr q) (Some 0) = Inl f" for f
      using that validate_no_fault [OF assms] by blast
    fix r
    assume r: "GuardianValidateIoctlBuffer (rq_IoControlCode q) (rq_InputBufferLength q)
        (rq_OutputBufferLength q) (in_ptr q) (Some 0) = Inr r"
    obtain st m where st: "r = (st, m)" by (cases r)
    then obtain n where n: "m = Some n" using r validate_keeps_pointer by (cases m) auto
    have "sound_request q (dispatch_call env q)" if "NT_SUCCESS st" "n \<le> rq_OutputBufferLength q"
    proof -
      have valid: "valid_request q n" using that r st n by (auto simp: valid_request_def)
      then obtain x where "rq_IoControlCode q = ioctl_code x" by (rule valid_request_known)
      then show ?thesis using dispatch_sound assms valid by blast
    qed
    then show "sound_request q (case r of (status, requiredOutput) \<Rightarrow>
        if \<not> NT_SUCCESS status then finished env q status
        else if rq_OutputBufferLength q < the requiredOutput
        then finished env q STATUS_BUFFER_TOO_SMALL else dispatch_call env q)"
      by (simp add: st n not_less)
  qed
  then show ?thesis by (simp add: after_check_def)
qed

lemma once_keeps:
  assumes "wf_request q" and "x \<in> once_codes" and "rq_IoControlCode q = ioctl_code x"
    and "valid_request q n" and "shared_inv s" and "request_step (ReqOnce env q) s = Some (p', s')"
  shows "sound_request q p' \<and> shared_inv s'"
proof (cases "dispatch_ioctl env q (in_ptr q) (out_ptr q) s")
  case (Inl f)
  have "sync_overrun q" using dispatch_fault [OF assms(1,3,4) _ Inl] assms(5)
    by (simp add: shared_inv_def)
  then show ?thesis using Inl assms(5,6) by simp
next
  case (Inr r)
  then obtain st k b' where d: "dispatch_ioctl env q (in_ptr q) (out_ptr q) s = Inr (st, k, b', s')"
    and p': "p' = completing env st k b'" using assms(6) by (cases r) auto
  have "k \<le> rq_OutputBufferLength q" "length b' = length (rq_SystemBuffer q)"
    using dispatch_output [OF assms(1,3,4) d] valid_lengths(8) [OF assms(1,3,4)] by auto
  moreover have "shared_inv s'" using dispatch_effect [OF assms(3) d] assms(2,5)
    by (cases rule: ioctl_effect.cases)
      (auto simp: once_codes_def shared_defs dest: dns_inv_set simp del: lifecycle_code.simps
        guardian_mode_code.simps)
  ultimately show ?thesis by (simp add: p' completing_def sound_completion_def)
qed

lemma request_keeps:
  assumes st: "request_step p s = Some (p', s')" and sound: "sound_request q p" and inv: "shared_inv s"
  shows "sound_request q p' \<and> shared_inv s'"
proof (cases p)
  case (ReqCheck env q' c)
  then obtain c' pin where "p' = check_request env q c'" and s': "s' = s\<lparr>gs_AllowedServicePid := pin\<rparr>"
    using st sound by auto
  then have "sound_request q p'" using sound ReqCheck after_check_sound by (cases c') auto
  then show ?thesis using inv by (simp add: s' shared_defs del: lifecycle_code.simps)
next
  case (ReqPolicies env q' c)
  then obtain c' t where c: "table_step policy_ops c (gs_Policies s) = Some (c', t)"
    and p': "p' = table_request (ReqPolicies env q) (finished env q) c'" and s': "s' = s\<lparr>gs_Policies := t\<rparr>"
    using st sound by auto
  have "policies_sound t \<and> sound_call wf_app_policy (sync_overrun q) c'"
    using policies_kept.step_keeps [OF _ _ c, where F = "sync_overrun q"] sound inv ReqPolicies by (simp add: shared_inv_def)
  then show ?thesis using inv p'
    by (cases c') (auto simp: s' shared_defs simp del: lifecycle_code.simps)
next
  case (ReqRoutes env q' c)
  then obtain c' t where c: "table_step route_ops c (gs_Routes s) = Some (c', t)"
    and p': "p' = table_request (ReqRoutes env q) (finished env q) c'" and s': "s' = s\<lparr>gs_Routes := t\<rparr>"
    using st sound by auto
  have "routes_sound t \<and> sound_call wf_route (sync_overrun q) c'"
    using routes_kept.step_keeps [OF _ _ c, where F = "sync_overrun q"] sound inv ReqRoutes by (simp add: shared_inv_def)
  then show ?thesis using inv p'
    by (cases c') (auto simp: s' shared_defs simp del: lifecycle_code.simps)
next
  case (ReqMode env q' c)
  then obtain c' where c: "mode_step (en_Ndis env) c s = Some (c', s')"
    and p': "p' = mode_request env q c'" using st sound by auto
  then show ?thesis using mode_step_keeps [OF c] sound inv ReqMode by (cases c') auto
next
  case (ReqKillSwitch env q' config)
  then show ?thesis using st sound inv ks_set_inv [of "gs_KillSwitch s" "Some config"]
    by (auto simp: shared_defs simp del: lifecycle_code.simps split: prod.splits)
next
  case (ReqOnce env q')
  then obtain x n where "q' = q" "wf_request q" "x \<in> once_codes"
    "rq_IoControlCode q = ioctl_code x" "valid_request q n" using sound by auto
  then show ?thesis using once_keeps [of q x n s env p' s'] st inv unfolding ReqOnce by blast
next
  case (ReqRecord c r)
  then obtain r' t where "p' = recording_request c r'" and s': "s' = s\<lparr>gs_Telemetry := t\<rparr>"
    using st by auto
  then have "sound_request q p'" using sound ReqRecord by (cases r') auto
  then show ?thesis using inv by (simp add: s' shared_defs del: lifecycle_code.simps)
qed (use st sound inv in \<open>auto simp: shared_defs simp del: lifecycle_code.simps\<close>)

fun sound_connection :: "guardian_call \<Rightarrow> bool" where
  "sound_connection (PolicyCall p) \<longleftrightarrow> False"
| "sound_connection (RouteCall p) \<longleftrightarrow> False"
| "sound_connection _ \<longleftrightarrow> True"

lemma sound_recording [simp]:
  "sound_connection (recording_classify status result p)"
  "sound_connection (classify_done action result latency)"
  by (cases p; simp) (simp add: classify_done_def)

text \<open>A classify changes nothing but the telemetry.\<close>

lemma connection_frame:
  assumes "guardian_step p s = Some (p', s')" and "sound_connection p"
  shows "sound_connection p' \<and> (\<exists>t. s' = s\<lparr>gs_Telemetry := t\<rparr>)"
proof -
  have same: "\<exists>t. u = u\<lparr>gs_Telemetry := t\<rparr>" for u :: guardian
    by (rule exI [of _ "gs_Telemetry u"]) simp
  show ?thesis using assms
    by (cases p) (auto simp: same set_telemetry_def split: prod.splits option.splits if_splits)
qed

lemma connection_keeps:
  assumes "guardian_step p s = Some (p', s')" and "sound_connection p" and "shared_inv s"
  shows "sound_connection p' \<and> shared_inv s'"
  using connection_frame [OF assms(1,2)] assms(3)
  by (auto simp: shared_defs simp del: lifecycle_code.simps)

section \<open>All threads together\<close>

text \<open>The threads at the start, and what each is later.\<close>

fun starting :: "driver_call \<Rightarrow> bool" where
  "starting (Request p) \<longleftrightarrow> (\<exists>env q. p = request env q \<and> wf_request q)"
| "starting (Connection p) \<longleftrightarrow> (\<exists>v start stop. p = ClassifyEntry v start stop)"

fun sound_since :: "driver_call \<Rightarrow> driver_call \<Rightarrow> bool" where
  "sound_since (Request (ReqCheck env q p0)) (Request p) \<longleftrightarrow> sound_request q p"
| "sound_since (Connection p0) (Connection p) \<longleftrightarrow> sound_connection p"
| "sound_since p0 p \<longleftrightarrow> False"

interpretation shared: thread_invariant driver_thread shared_inv "\<lambda>i p s. sound_since (ps ! i) p" for ps
proof (unfold_locales, goal_cases)
  case (1 s i p p' s')
  then show ?case
    by (cases "(ps ! i, p)" rule: sound_since.cases) (auto dest: request_keeps connection_keeps)
qed

lemma start_request: "wf_request q \<Longrightarrow> starting (Request (request env q))"
  by (simp, blast)

lemma start_sound: "starting p \<Longrightarrow> sound_since p p"
  by (cases p) (auto simp: request_def)

lemma running_shared: "running s \<Longrightarrow> shared_inv s"
  using running_inv [of s] running_typed [of s]
  by (simp add: shared_inv_def guardian_inv_def tables_typed_def policies_sound_def routes_sound_def
      policy_inv_def route_inv_def table_inv_def hybrid_inv_def)

lemma threads_stay_sound:
  assumes "pars driver_thread (ps, s) (ps', s')" and "shared_inv s" and "list_all starting ps"
  shows "shared_inv s' \<and> length ps' = length ps \<and> (\<forall>i < length ps. sound_since (ps ! i) (ps' ! i))"
proof -
  have len: "length ps' = length ps" using pars_length [OF assms(1)] by simp
  have "sound_since (ps ! i) (ps ! i)" if "i < length ps" for i
    using assms(3) that start_sound by (simp add: list_all_length)
  then show ?thesis using shared.always [OF assms(1,2), of ps] len by simp
qed

section \<open>Requests one after the other\<close>

text \<open>A part of a request, and a request that runs to its end, while the other threads wait.\<close>

lemma part_turn:
  assumes "leads request_step r s r' s'" and "i < length ps" and "ps ! i = Request r"
  shows "pars driver_thread (ps, s) (ps[i := Request r'], s')"
proof -
  obtain n where "solo request_step n r s = (r', s')" using assms(1) by (auto simp: leads_def)
  then have "leads driver_thread (Request r) s (Request r') s'"
    using solo_part [of request_step driver_thread Request id n r s] by simp
  then show ?thesis using solo_pars [OF assms(2)] assms(3) by (auto simp: leads_def)
qed

lemma request_turn:
  assumes "i < length ps" and "ps ! i = Request (request env q)"
    and "GuardianEvtIoDeviceControl env q s = Inr (c, s')"
  shows "pars driver_thread (ps, s) (ps[i := Request (ReqDone c)], s')"
  using part_turn [OF _ assms(1,2)] request_leads [of env q s] assms(3) by simp

lemma connection_turn:
  assumes "i < length ps" and "ps ! i = Connection (ClassifyEntry v start stop)"
    and "GuardianClassifyConnection v start stop s = (status, result, s')"
  shows "pars driver_thread (ps, s)
    (ps[i := Connection (Classified status result)], s')"
proof -
  have "solo guardian_step 10 (ClassifyEntry v start stop) s = (Classified status result, s')"
    using classify_alone [of v start stop s] assms(3) by simp
  then have "leads driver_thread (Connection (ClassifyEntry v start stop)) s
      (Connection (Classified status result)) s'"
    using solo_part [of guardian_step driver_thread Connection id 10 "ClassifyEntry v start stop" s]
    by simp
  then show ?thesis using solo_pars [OF assms(1)] assms(2) by (auto simp: leads_def)
qed

text \<open>A sample: a running driver handles a query.\<close>

lemma sample_turn:
  obtains c s' where "pars driver_thread
      ([Request (request sample_env (sample_request IOCTL_GUARDIAN_GET_TELEMETRY [] 76))],
       entry_running sample_system None) ([Request (ReqDone c)], s')"
proof -
  let ?q = "sample_request IOCTL_GUARDIAN_GET_TELEMETRY [] 76" and ?s = "entry_running sample_system None"
  have "\<not> sync_overrun ?q"
    unfolding sync_overrun_def sample_request_simps guardian_ioctl.enum_of_code by simp
  then obtain c s' where "GuardianEvtIoDeviceControl sample_env ?q ?s = Inr (c, s')"
    using running_driver_faults_only_in_a_sync [OF sample_running sample_request_simps(1)] by blast
  from request_turn [OF _ _ this, of 0 "[Request (request sample_env ?q)]"] that show ?thesis by simp
qed

section \<open>Properties\<close>

text \<open>
  C3: In every interleaving, step by step with each critical section of a lock as one step, of
  any number of control requests and classified connections from a state that calls handled one
  at a time reach, both tables hold distinct 16-byte application ids and only well-formed
  structures of the current version, the kill switch mode is one of the enumeration, the DNS
  configuration is observe-only, the guardian mode is one of the three and the callouts stay
  registered.
\<close>

theorem interleaved_requests_keep_the_tables:
  assumes "running s" and "pars driver_thread (ps, s) (ps', s')" and "list_all starting ps"
  shows "ids_ok ap_AppId (pt_list (gs_Policies s')) \<and> ids_ok ra_AppId (rt_list (gs_Routes s')) \<and>
    list_all stored_policy (pt_list (gs_Policies s')) \<and> list_all stored_route (rt_list (gs_Routes s')) \<and>
    (\<exists>m. GuardianKillSwitchGetMode (gs_KillSwitch s') = ks_mode_code m) \<and> dns_inv (gs_Dns s') \<and>
    GuardianHybridIsValidMode (GuardianHybridGetMode s') \<and> GuardianCalloutsAreRegistered s'"
proof -
  have inv: "shared_inv s'"
    using threads_stay_sound [OF assms(2) running_shared [OF assms(1)] assms(3)] by blast
  then have "ks_Mode (gs_KillSwitch s') \<in> {0, 1, 2, 3}"
    using word_le_3 by (simp add: shared_inv_def ks_inv_def)
  then have "\<exists>m. ks_Mode (gs_KillSwitch s') = ks_mode_code m"
    by (auto intro: exI [of _ GuardianKsOff] exI [of _ GuardianKsBlockAll]
        exI [of _ GuardianKsAllowVpnOnly] exI [of _ GuardianKsRestore])
  with inv show ?thesis
    by (auto simp: shared_inv_def policies_sound_def routes_sound_def policies_typed_def
        routes_typed_def list_all_iff GuardianKillSwitchGetMode_def GuardianHybridGetMode_def)
qed

theorem interleaved_requests_keep_the_tables_witness:
  "\<exists>c s'. pars driver_thread
      ([Request (request sample_env (sample_request IOCTL_GUARDIAN_GET_TELEMETRY [] 76))],
       entry_running sample_system None) ([Request (ReqDone c)], s') \<and>
    ids_ok ap_AppId (pt_list (gs_Policies s')) \<and> GuardianCalloutsAreRegistered s'"
proof (rule sample_turn)
  let ?ps = "[Request (request sample_env (sample_request IOCTL_GUARDIAN_GET_TELEMETRY [] 76))]"
  fix c s'
  assume run: "pars driver_thread (?ps, entry_running sample_system None) ([Request (ReqDone c)], s')"
  have "list_all starting ?ps" by (simp add: start_request del: starting.simps)
  from interleaved_requests_keep_the_tables [OF sample_running run this] run show ?thesis by blast
qed

text \<open>
  C8: In every interleaving, with each critical section of a lock as one step, of any number of
  control requests, with any codes, lengths and bytes, and of classified connections from a
  state that calls handled one at a time reach, a request that accesses memory outside its
  system buffer is a sync whose count claims more elements than its system buffer holds.
\<close>

theorem interleaved_requests_fault_only_in_a_sync:
  assumes "running s" and "pars driver_thread (ps, s) (ps', s')" and "list_all starting ps"
    and "i < length ps" and "ps ! i = Request (request env q)" and "ps' ! i = Request ReqFault"
  shows "sync_overrun q"
  using threads_stay_sound [OF assms(2) running_shared [OF assms(1)] assms(3)] assms(4-6)
  by (auto simp: request_def dest!: spec [of _ i])

theorem interleaved_requests_fault_only_in_a_sync_witness:
  "\<exists>s'. pars driver_thread ([Request (request sample_env short_sync)], entry_running sample_system None)
      ([Request ReqFault], s') \<and> sync_overrun short_sync"
proof -
  let ?q = short_sync and ?s = "entry_running sample_system None"
  let ?ps = "[Request (request sample_env ?q)]"
  have "admitted sample_env ?q ?s"
    using entry_running_fields(8) [of sample_system None]
    by (simp add: admitted_def sample_env_def verify_accepts_iff)
  then have "GuardianEvtIoDeviceControl sample_env ?q ?s = Inl OutOfBounds"
    by (intro short_policy_sync_faults)
      (simp_all add: short_sync_count sample_env_def del: ioctl_code.simps,
       simp_all add: short_sync_def del: ioctl_code.simps)
  then obtain s' where "leads request_step (request sample_env ?q) ?s ReqFault s'"
    using request_leads [of sample_env ?q ?s] by auto
  from part_turn [OF this, of 0 ?ps]
  have run: "pars driver_thread (?ps, ?s) ([Request ReqFault], s')" by simp
  have "list_all starting ?ps" by (simp add: start_request short_sync_def del: starting.simps)
  from interleaved_requests_fault_only_in_a_sync [OF sample_running run this, of 0] run
  show ?thesis by auto
qed

text \<open>
  C30: In every interleaving, with each critical section of a lock as one step, of requests and
  connections from a state that calls handled one at a time reach, the byte count that a request
  completes with is at most the output buffer length of that request, and its system buffer
  keeps its length.
\<close>

theorem interleaved_completion_within_output_buffer:
  assumes "running s" and "pars driver_thread (ps, s) (ps', s')" and "list_all starting ps"
    and "i < length ps" and "ps ! i = Request (request env q)" and "ps' ! i = Request (ReqDone c)"
  shows "cp_Information c \<le> rq_OutputBufferLength q \<and>
    length (cp_SystemBuffer c) = length (rq_SystemBuffer q)"
  using threads_stay_sound [OF assms(2) running_shared [OF assms(1)] assms(3)] assms(4-6)
  by (auto simp: request_def sound_completion_def dest!: spec [of _ i])

theorem interleaved_completion_within_output_buffer_witness:
  "\<exists>c s'. pars driver_thread
      ([Request (request sample_env (sample_request IOCTL_GUARDIAN_GET_TELEMETRY [] 76))],
       entry_running sample_system None) ([Request (ReqDone c)], s') \<and> cp_Information c \<le> 76"
proof (rule sample_turn)
  let ?q = "sample_request IOCTL_GUARDIAN_GET_TELEMETRY [] 76"
  let ?ps = "[Request (request sample_env ?q)]"
  fix c s'
  assume run: "pars driver_thread (?ps, entry_running sample_system None) ([Request (ReqDone c)], s')"
  have "list_all starting ?ps" by (simp add: start_request del: starting.simps)
  from interleaved_completion_within_output_buffer [OF sample_running run this, of 0 sample_env ?q c]
  show ?thesis using run by auto
qed

text \<open>
  Requests and classifies return when each critical section of a lock is one step, as it is here: no
  execution makes more steps than the threads have left at its start, at most 526 for a request and 10
  for a classify, and from every point all can return. No thread of this model waits; that the threads
  that wait for a lock return is shown in Lock\_Progress, access by access.
\<close>

lemma driver_calls_return:
  assumes "(par driver_thread ^^ n) (ps, s) (ps', s')"
  shows "n \<le> sum_list (map driver_steps_left ps) \<and>
    ((\<nexists>c. par driver_thread (ps', s') c) \<longleftrightarrow> sum_list (map driver_steps_left ps') = 0) \<and>
    (\<exists>ps'' s''. pars driver_thread (ps', s') (ps'', s'') \<and>
       sum_list (map driver_steps_left ps'') = 0) \<and>
    driver_steps_left (Request (request env q)) = 526 \<and>
    driver_steps_left (Connection (ClassifyEntry v start stop)) = 10"
  using driver_bound.interleaving_bounded [OF assms] driver_bound.no_deadlock [of ps' s']
    driver_bound.all_return [of ps' s']
  by (simp add: driver_bound.remaining_def request_def)

lemma driver_calls_return_witness:
  "\<exists>ps'' s''. pars driver_thread
      ([Request (request sample_env short_sync), Connection (ClassifyEntry None 0 0)], guardian_image)
      (ps'', s'') \<and> sum_list (map driver_steps_left ps'') = 0"
  using driver_calls_return [of 0 "[Request (request sample_env short_sync),
      Connection (ClassifyEntry None 0 0)]" guardian_image _ guardian_image]
  by auto

end
