(* ===== verification/Concurrent_Control.thy ===== *)
theory Concurrent_Control
  imports Concurrent_System
begin

text \<open>
  Control of the driver under concurrency. A pinned service keeps its pin, and every other caller is
  refused; BlockAll blocks; every request is counted, with its outcome. And where the code does not
  keep up: the kill switch mode that the driver reports may differ from the one it enforces.
\<close>

section \<open>What a request leaves alone\<close>

text \<open>The calls that the checks of a request can end in.\<close>

lemma after_check_induct:
  assumes "\<And>st. P (finished env q st)" and "P ReqFault" and "P (ReqOnce env q)"
    and "\<And>c. P (ReqPolicies env q c)" and "\<And>c. P (ReqRoutes env q c)" and "\<And>c. P (ReqMode env q c)"
    and "\<And>h. P (ReqImport env q h)"
    and "\<And>c. rq_IoControlCode q = ioctl_code IOCTL_GUARDIAN_SET_KILL_SWITCH \<Longrightarrow> P (ReqKillSwitch env q c)"
  shows "P (after_check env q status)"
proof -
  have read: "P (read_then m f)" if "\<And>x. P (f x)" for m :: "fault + 'a" and f
    using that assms(2) by (cases m) simp_all
  have import: "P (import_call env q)"
    unfolding import_call_def using assms(1,7) by (auto intro!: read)
  have "P (dispatch_call env q)"
  proof (cases "enum_of guardian_ioctls ioctl_code (rq_IoControlCode q)")
    case None
    then show ?thesis using assms(3) by (simp add: dispatch_call_def)
  next
    case (Some x)
    then have "rq_IoControlCode q = ioctl_code x" by (simp add: guardian_ioctl.enum_of_iff)
    with Some show ?thesis
      by (cases x) (auto simp: dispatch_call_def read_then_def import assms simp del: ioctl_code.simps
          split: sum.split)
  qed
  then have "P (validated_call env q)"
    unfolding validated_call_def using assms(1,2) by (auto simp: read_then_def split: sum.split)
  then show ?thesis using assms(1) by (simp add: after_check_def)
qed

lemma effect_frame:
  assumes "ioctl_effect x st s s'"
  shows "gs_AllowedServicePid s' = gs_AllowedServicePid s" and "gs_Telemetry s' = gs_Telemetry s"
    and "x \<noteq> IOCTL_GUARDIAN_SET_KILL_SWITCH \<Longrightarrow> gs_KillSwitch s' = gs_KillSwitch s"
proof -
  have "gs_Telemetry s' = gs_Telemetry s \<and>
      (x \<noteq> IOCTL_GUARDIAN_SET_KILL_SWITCH \<longrightarrow> gs_KillSwitch s' = gs_KillSwitch s)"
    using assms
  proof (cases rule: ioctl_effect.cases)
    case (set_mode ndis m)
    then have "outside_hybrid s' = outside_hybrid s" using outside_set_mode [of ndis m s] by simp
    then show ?thesis using outside_hybridD [of s' s] by blast
  qed (auto elim: import_cases)
  then show "gs_Telemetry s' = gs_Telemetry s"
    "x \<noteq> IOCTL_GUARDIAN_SET_KILL_SWITCH \<Longrightarrow> gs_KillSwitch s' = gs_KillSwitch s" by simp_all
qed (rule effect_pin [OF assms])

lemma once_frame:
  assumes "request_step (ReqOnce env q) s = Some (p', s')"
  shows "gs_AllowedServicePid s' = gs_AllowedServicePid s" and "gs_Telemetry s' = gs_Telemetry s"
    and "rq_IoControlCode q \<noteq> ioctl_code IOCTL_GUARDIAN_SET_KILL_SWITCH \<Longrightarrow>
      gs_KillSwitch s' = gs_KillSwitch s"
    and "p' = ReqFault \<or> (\<exists>st n b. p' = completing env st n b)"
proof -
  consider (same) "s' = s" | (effect) st k b where
    "dispatch_ioctl env q (in_ptr q) (out_ptr q) s = Inr (st, k, b, s')"
    using assms by (auto split: sum.splits)
  then have frame: "gs_AllowedServicePid s' = gs_AllowedServicePid s \<and> gs_Telemetry s' = gs_Telemetry s \<and>
    (rq_IoControlCode q \<noteq> ioctl_code IOCTL_GUARDIAN_SET_KILL_SWITCH \<longrightarrow>
      gs_KillSwitch s' = gs_KillSwitch s)"
  proof cases
    case effect
    show ?thesis
    proof (cases "enum_of guardian_ioctls ioctl_code (rq_IoControlCode q)")
      case None
      then show ?thesis using effect by (simp add: dispatch_ioctl_def)
    next
      case (Some x)
      then have x: "rq_IoControlCode q = ioctl_code x" by (simp add: guardian_ioctl.enum_of_iff)
      show ?thesis using effect_frame [OF dispatch_effect [OF x effect]] x by blast
    qed
  qed simp
  then show "gs_AllowedServicePid s' = gs_AllowedServicePid s" "gs_Telemetry s' = gs_Telemetry s"
    "rq_IoControlCode q \<noteq> ioctl_code IOCTL_GUARDIAN_SET_KILL_SWITCH \<Longrightarrow>
      gs_KillSwitch s' = gs_KillSwitch s" by simp_all
  show "p' = ReqFault \<or> (\<exists>st n b. p' = completing env st n b)"
    using assms by (auto split: sum.splits)
qed

lemma mode_step_frame:
  assumes "mode_step ndis p s = Some (p', s')"
  shows "gs_AllowedServicePid s' = gs_AllowedServicePid s" and "gs_Telemetry s' = gs_Telemetry s"
    and "gs_KillSwitch s' = gs_KillSwitch s"
  using assms by (cases p; auto simp: GuardianFiltersShutdown_def publish_filter_count_def)+

fun checks :: "request_call \<Rightarrow> bool" where
  "checks (ReqCheck env q p) \<longleftrightarrow> True"
| "checks _ \<longleftrightarrow> False"

fun records :: "request_call \<Rightarrow> bool" where
  "records (ReqRecord c p) \<longleftrightarrow> True"
| "records _ \<longleftrightarrow> False"

text \<open>A request that will not set the kill switch.\<close>

fun other_request :: "request_call \<Rightarrow> bool" where
  "other_request (ReqCheck env q p) \<longleftrightarrow>
     rq_IoControlCode q \<noteq> ioctl_code IOCTL_GUARDIAN_SET_KILL_SWITCH"
| "other_request (ReqOnce env q) \<longleftrightarrow>
     rq_IoControlCode q \<noteq> ioctl_code IOCTL_GUARDIAN_SET_KILL_SWITCH"
| "other_request (ReqKillSwitch env q config) \<longleftrightarrow> False"
| "other_request _ \<longleftrightarrow> True"

lemma finished_kinds [simp]:
  "\<not> checks (finished env q st)" "records (finished env q st)" "other_request (finished env q st)"
  "\<not> checks (completing env st n b)" "other_request (completing env st n b)"
  by (simp_all add: finished_def completing_def)

lemma part_kinds [simp]:
  "\<not> checks (table_request (ReqPolicies env q) (finished env q) p)"
  "other_request (table_request (ReqPolicies env q) (finished env q) p)"
  "\<not> checks (table_request (ReqRoutes env q) (finished env q) r)"
  "other_request (table_request (ReqRoutes env q) (finished env q) r)"
  "\<not> checks (mode_request env q m)" "other_request (mode_request env q m)"
  "\<not> checks (recording_request c d)" "other_request (recording_request c d)"
proof -
  show "\<not> checks (table_request (ReqPolicies env q) (finished env q) p)"
    "other_request (table_request (ReqPolicies env q) (finished env q) p)" by (cases p; simp)+
  show "\<not> checks (table_request (ReqRoutes env q) (finished env q) r)"
    "other_request (table_request (ReqRoutes env q) (finished env q) r)" by (cases r; simp)+
  show "\<not> checks (mode_request env q m)" "other_request (mode_request env q m)"
    by (cases m; simp)+
  show "\<not> checks (recording_request c d)" "other_request (recording_request c d)"
    by (cases d; simp)+
qed

lemma request_frame:
  assumes "request_step p s = Some (p', s')"
  shows "\<not> checks p \<Longrightarrow> gs_AllowedServicePid s' = gs_AllowedServicePid s"
    and "\<not> records p \<Longrightarrow> gs_Telemetry s' = gs_Telemetry s"
    and "other_request p \<Longrightarrow> gs_KillSwitch s' = gs_KillSwitch s"
  using assms once_frame mode_step_frame
  by (cases p; force split: prod.splits)+

lemma after_check_kinds:
  "\<not> checks (after_check env q st)"
  "rq_IoControlCode q \<noteq> ioctl_code IOCTL_GUARDIAN_SET_KILL_SWITCH \<Longrightarrow>
     other_request (after_check env q st)"
  by (rule after_check_induct; simp del: ioctl_code.simps)+

section \<open>A pinned service\<close>

definition own_status :: "u64 \<Rightarrow> ioctl_env \<Rightarrow> ntstatus" where
  "own_status a env =
     fst (GuardianSecurityPolicyVerifyCaller (Some (en_Origin env)) (en_Sessions env) a)"

definition refusal :: "ioctl_request \<Rightarrow> ntstatus \<Rightarrow> ioctl_completion" where
  "refusal q status =
     \<lparr>cp_Status = status, cp_Information = 0, cp_SystemBuffer = rq_SystemBuffer q\<rparr>"

text \<open>A request whose caller is refused never gets past the check.\<close>

fun kept_out :: "u64 \<Rightarrow> ioctl_env \<Rightarrow> ioctl_request \<Rightarrow> request_call \<Rightarrow> bool" where
  "kept_out a env q (ReqCheck env' q' c) \<longleftrightarrow>
     env' = env \<and> q' = q \<and> pinned_asn (en_Sessions env) a [Some (en_Origin env)] 0 c a"
| "kept_out a env q (ReqRecord c r) \<longleftrightarrow> NT_SUCCESS (own_status a env) \<or> c = refusal q (own_status a env)"
| "kept_out a env q (ReqDone c) \<longleftrightarrow> NT_SUCCESS (own_status a env) \<or> c = refusal q (own_status a env)"
| "kept_out a env q p \<longleftrightarrow> NT_SUCCESS (own_status a env)"

lemma let_in_kept_out: "NT_SUCCESS (own_status a env) \<Longrightarrow> \<not> checks p \<Longrightarrow> kept_out a env q p"
  by (cases p) simp_all

lemma pinned_verified:
  assumes "pinned_asn sessions a [req] 0 (Verified st) a"
  shows "st = fst (GuardianSecurityPolicyVerifyCaller req sessions a)"
proof -
  obtain n where "solo (verify_step sessions) n (Verified st) a =
      (Verified (fst (GuardianSecurityPolicyVerifyCaller req sessions a)), a)"
    using assms by (auto simp: pinned_asn_def)
  then show ?thesis by (cases n) simp_all
qed

lemma kept_out_step:
  assumes st: "request_step p s = Some (p', s')" and kept: "kept_out a env q p"
    and pin: "gs_AllowedServicePid s = a"
  shows "kept_out a env q p' \<and> gs_AllowedServicePid s' = a"
proof (cases "checks p")
  case True
  then obtain c where p: "p = ReqCheck env q c"
    and c: "pinned_asn (en_Sessions env) a [Some (en_Origin env)] 0 c a"
    using kept by (cases p) auto
  obtain c' pin' where step: "verify_step (en_Sessions env) c a = Some (c', pin')"
    and p': "p' = check_request env q c'" and s': "s' = s\<lparr>gs_AllowedServicePid := pin'\<rparr>"
    using st pin p by auto
  note kept' = pinned.own_step [OF refl c step]
  then have pin': "pin' = a" by blast
  with kept' have c': "pinned_asn (en_Sessions env) a [Some (en_Origin env)] 0 c' a" by blast
  have "kept_out a env q p'"
  proof (cases c')
    case (Verified status)
    then have status: "status = own_status a env" using c' pinned_verified by (simp add: own_status_def)
    have next_call: "p' = after_check env q status" using p' Verified by simp
    show ?thesis
    proof (cases "NT_SUCCESS status")
      case True
      then show ?thesis
        using let_in_kept_out after_check_kinds(1) unfolding next_call status by blast
    next
      case False
      then show ?thesis unfolding next_call status
        by (simp add: after_check_def finished_def completing_def refusal_def)
    qed
  qed (use c' p' in simp_all)
  then show ?thesis using s' pin' by simp
next
  case False
  have frame: "gs_AllowedServicePid s' = a" using request_frame(1) [OF st False] pin by simp
  show ?thesis
  proof (cases "NT_SUCCESS (own_status a env)")
    case True
    have "\<not> checks p'"
      using st \<open>\<not> checks p\<close> by (cases p) (auto split: prod.splits if_splits sum.splits)
    then show ?thesis using True frame let_in_kept_out by blast
  next
    case False
    then obtain r where "p = ReqRecord (refusal q (own_status a env)) r"
      using kept st \<open>\<not> checks p\<close> by (cases p) auto
    then obtain r' where "p' = recording_request (refusal q (own_status a env)) r'" using st by auto
    then show ?thesis using frame by (cases r') simp_all
  qed
qed

fun kept_out_since :: "u64 \<Rightarrow> driver_call \<Rightarrow> driver_call \<Rightarrow> bool" where
  "kept_out_since a (Request (ReqCheck env q p0)) (Request p) \<longleftrightarrow> kept_out a env q p"
| "kept_out_since a (Connection p0) (Connection p) \<longleftrightarrow> sound_connection p"
| "kept_out_since a p0 p \<longleftrightarrow> False"

interpretation service: thread_invariant driver_thread "\<lambda>s. gs_AllowedServicePid s = a"
  "\<lambda>i p s. kept_out_since a (ps ! i) p" for a ps
proof (unfold_locales, goal_cases)
  case (1 s i p p' s')
  then show ?case
  proof (cases "(a, ps ! i, p)" rule: kept_out_since.cases)
    case (1 a' env q p0 p1)
    then show ?thesis using 1 \<open>driver_thread p s = _\<close> kept_out_step [of p1 s _ s' a env q]
      \<open>gs_AllowedServicePid s = a\<close> \<open>kept_out_since a (ps ! i) p\<close> by auto
  next
    case (2 a' p0 p1)
    then show ?thesis using \<open>driver_thread p s = _\<close> \<open>gs_AllowedServicePid s = a\<close>
      \<open>kept_out_since a (ps ! i) p\<close> connection_frame [of p1 s _ s'] by auto
  qed auto
qed

lemma start_kept_out:
  assumes "starting p" and "a \<noteq> 0"
  shows "kept_out_since a p p"
proof (cases p)
  case (Request r)
  then obtain env q where r: "r = request env q" using assms(1) by auto
  have "pinned_asn (en_Sessions env) a [Some (en_Origin env)] 0 (VerifyEntry (Some (en_Origin env))) a"
    using verify_alone [of "en_Sessions env" "Some (en_Origin env)" a] verify_pinned_stays [OF assms(2)]
    unfolding pinned_asn_def by (intro exI [of _ 5]) (simp add: case_prod_unfold)
  then show ?thesis by (simp add: Request r request_def)
qed (use assms(1) in auto)

section \<open>BlockAll\<close>

lemma other_request_step:
  assumes "request_step p s = Some (p', s')" and "other_request p"
  shows "other_request p'"
proof (cases p)
  case (ReqCheck env q c)
  then obtain c' where "p' = check_request env q c'" using assms(1) by auto
  then show ?thesis using assms(2) ReqCheck after_check_kinds(2)
    by (cases c') (simp_all del: ioctl_code.simps)
qed (use assms in \<open>auto split: prod.splits sum.splits if_splits\<close>)

fun quiet_thread :: "driver_call \<Rightarrow> bool" where
  "quiet_thread (Request p) \<longleftrightarrow> other_request p"
| "quiet_thread (Connection p) \<longleftrightarrow> block_all_asn p"

interpretation quiet: thread_invariant driver_thread
  "\<lambda>s. ks_Mode (gs_KillSwitch s) = ks_mode_code GuardianKsBlockAll" "\<lambda>i p s. quiet_thread p"
proof
  fix s i p p' s'
  assume inv: "ks_Mode (gs_KillSwitch s) = ks_mode_code GuardianKsBlockAll"
    and quiet: "quiet_thread p" and st: "driver_thread p s = Some (p', s')"
  show "ks_Mode (gs_KillSwitch s') = ks_mode_code GuardianKsBlockAll \<and> quiet_thread p'"
  proof (cases p)
    case (Request r)
    then obtain r' where r: "request_step r s = Some (r', s')" and "p' = Request r'" using st by auto
    then show ?thesis
      using inv quiet Request request_frame(3) [OF r] other_request_step [OF r]
      by (simp del: ks_mode_code.simps)
  next
    case (Connection c)
    then obtain c' where c: "guardian_step c s = Some (c', s')" and "p' = Connection c'" using st by auto
    then show ?thesis using block_all.own_step [OF inv _ c] quiet Connection
      by (simp del: ks_mode_code.simps)
  qed
qed

section \<open>Counting\<close>

text \<open>
  What each thread will still add to a counter, less what it has caused to be added: a request that
  has failed has had its rejection counted, a connection that is classified has been counted with
  its action.
\<close>

definition one_if :: "bool \<Rightarrow> u64" where
  "one_if b = (if b then 1 else 0)"

fun owes_request :: "driver_call \<Rightarrow> u64" where
  "owes_request (Request (ReqRecord c p)) = owes_dispatch p"
| "owes_request (Request (ReqDone c)) = 0"
| "owes_request (Request p) = 1"
| "owes_request (Connection (ClassifyRecord status result p)) = owes_dispatch p"
| "owes_request (Connection p) = 0"

fun owes_rejection :: "driver_call \<Rightarrow> u64" where
  "owes_rejection (Request (ReqRecord c p)) = owes_reject p - one_if (\<not> NT_SUCCESS (cp_Status c))"
| "owes_rejection (Request (ReqDone c)) = - one_if (\<not> NT_SUCCESS (cp_Status c))"
| "owes_rejection (Request p) = 0"
| "owes_rejection (Connection (ClassifyRecord status result p)) = owes_reject p"
| "owes_rejection (Connection p) = 0"

fun owes_verdict :: "GUARDIAN_CLASSIFY_ACTION \<Rightarrow> driver_call \<Rightarrow> u64" where
  "owes_verdict a (Connection (ClassifyRecord status result p)) =
     owes_action a p - one_if (NT_SUCCESS status \<and> cr_Action result = a)"
| "owes_verdict a (Connection (Classified status result)) =
     - one_if (NT_SUCCESS status \<and> cr_Action result = a)"
| "owes_verdict a (Connection p) = 0"
| "owes_verdict a (Request (ReqRecord c p)) = owes_action a p"
| "owes_verdict a (Request p) = 0"

lemma one_if_simps [simp]: "one_if True = 1" "one_if False = 0"
  by (simp_all add: one_if_def)

lemma completing_owes [simp]:
  "owes_request (Request (completing env st n b)) = 1"
  "owes_rejection (Request (completing env st n b)) = 0"
  "owes_verdict a (Request (completing env st n b)) = 0"
  "owes_request (Request (finished env q st)) = 1"
  "owes_rejection (Request (finished env q st)) = 0"
  "owes_verdict a (Request (finished env q st)) = 0"
  by (simp_all add: finished_def completing_def one_if_def)

lemma classify_done_owes [simp]:
  "owes_request (Connection (classify_done b result latency)) = 0"
  "owes_rejection (Connection (classify_done b result latency)) = 0"
  "owes_verdict a (Connection (classify_done b result latency)) = 0"
  by (simp_all add: classify_done_def one_if_def)

text \<open>Before its recording every request owes the same, wherever it goes.\<close>

definition unpaid :: "request_call \<Rightarrow> bool" where
  "unpaid p \<longleftrightarrow> owes_request (Request p) = 1 \<and> owes_rejection (Request p) = 0 \<and>
     (\<forall>a. owes_verdict a (Request p) = 0)"

lemma unpaid_parts [simp]:
  "unpaid (table_request (ReqPolicies env q) (finished env q) p)"
  "unpaid (table_request (ReqRoutes env q) (finished env q) r)"
  "unpaid (mode_request env q m)" "unpaid (check_request env q k)"
  "unpaid (finished env q st)" "unpaid (completing env st n b)"
proof -
  show "unpaid (table_request (ReqPolicies env q) (finished env q) p)"
    by (cases p) (simp_all add: unpaid_def)
  show "unpaid (table_request (ReqRoutes env q) (finished env q) r)"
    by (cases r) (simp_all add: unpaid_def)
  show "unpaid (mode_request env q m)" by (cases m) (simp_all add: unpaid_def)
  have "unpaid (after_check env q st)" for st
    by (rule after_check_induct) (simp_all add: unpaid_def)
  then show "unpaid (check_request env q k)" by (cases k) (simp_all add: unpaid_def)
qed (simp_all add: unpaid_def)

lemma unpaid_step:
  assumes "request_step p s = Some (p', s')" and "\<not> records p"
  shows "unpaid p \<and> unpaid p' \<and> gs_Telemetry s' = gs_Telemetry s"
proof -
  have "unpaid p" using assms by (cases p) (simp_all add: unpaid_def)
  moreover have "unpaid p'"
    using assms
    by (cases p) (auto simp: unpaid_def [of ReqFault] unpaid_def [of "ReqReadMode e q st" for e q st]
        unpaid_def [of "ReqReport e q st m" for e q st m] unpaid_def [of "ReqImportRead e q m" for e q m]
        unpaid_def [of "ReqImportReport e q g m" for e q g m] split: prod.splits sum.splits if_splits)
  ultimately show ?thesis using request_frame(2) [OF assms] by simp
qed

text \<open>The recordings inside the threads pay what the ledgers of Concurrent\_Telemetry say.\<close>

lemma recording_owes [simp]:
  "owes_request (Request (recording_request c p)) = owes_request (Request (ReqRecord c p))"
  "owes_rejection (Request (recording_request c p)) = owes_rejection (Request (ReqRecord c p))"
  "owes_verdict a (Request (recording_request c p)) = owes_verdict a (Request (ReqRecord c p))"
  "owes_request (Connection (recording_classify st r p)) = owes_request (Connection (ClassifyRecord st r p))"
  "owes_rejection (Connection (recording_classify st r p)) = owes_rejection (Connection (ClassifyRecord st r p))"
  "owes_verdict a (Connection (recording_classify st r p)) = owes_verdict a (Connection (ClassifyRecord st r p))"
  by (cases p; simp)+

lemma driver_thread_pays:
  assumes "driver_thread p s = Some (p', s')"
  shows "tm_IpcDispatchCount (gs_Telemetry s') + owes_request p' =
      tm_IpcDispatchCount (gs_Telemetry s) + owes_request p \<and>
    tm_IpcRejectCount (gs_Telemetry s') + owes_rejection p' =
      tm_IpcRejectCount (gs_Telemetry s) + owes_rejection p \<and>
    action_counter a (gs_Telemetry s') + owes_verdict a p' =
      action_counter a (gs_Telemetry s) + owes_verdict a p"
proof -
  have pays: "tm_IpcDispatchCount t' + owes_dispatch r' = tm_IpcDispatchCount t + owes_dispatch r"
    "tm_IpcRejectCount t' + (owes_reject r' - x) = tm_IpcRejectCount t + (owes_reject r - x)"
    "action_counter a t' + (owes_action a r' - x) = action_counter a t + (owes_action a r - x)"
    if "record_step r t = Some (r', t')" for r t r' t' x
    using dispatch_ledger.step_pays [OF that] reject_ledger.step_pays [OF that]
      action_ledger.step_pays [OF that, of a] by (simp_all only: add_diff_eq)
  note pays' = pays(1) pays(2,3) [where x = 0, unfolded diff_zero]
  show ?thesis
  proof (cases p)
    case (Request r)
    then obtain r' where st: "request_step r s = Some (r', s')" and p': "p' = Request r'"
      using assms by auto
    show ?thesis
    proof (cases "records r")
      case True
      then obtain c d d' t where "r = ReqRecord c d" "record_step d (gs_Telemetry s) = Some (d', t)"
        "r' = recording_request c d'" "gs_Telemetry s' = t" using st by (cases r) auto
      then show ?thesis using Request p' pays pays' by simp
    next
      case False
      then show ?thesis using unpaid_step [OF st] Request p' by (simp add: unpaid_def)
    qed
  next
    case (Connection r)
    then obtain r' where st: "guardian_step r s = Some (r', s')" and p': "p' = Connection r'"
      using assms by auto
    show ?thesis
    proof (cases "\<exists>status result d. r = ClassifyRecord status result d")
      case True
      then obtain status result d d' t where "r = ClassifyRecord status result d"
        "record_step d (gs_Telemetry s) = Some (d', t)" "r' = recording_classify status result d'"
        "gs_Telemetry s' = t" using st by auto
      then show ?thesis using Connection p' pays pays' by simp
    next
      case False
      then show ?thesis using st Connection p'
        by (cases r) (auto simp: one_if_def split: prod.splits option.splits if_splits)
    qed
  qed
qed

interpretation dispatches: thread_ledger driver_thread
  "\<lambda>s. tm_IpcDispatchCount (gs_Telemetry s)" owes_request
  by unfold_locales (use driver_thread_pays in blast)

interpretation rejections: thread_ledger driver_thread
  "\<lambda>s. tm_IpcRejectCount (gs_Telemetry s)" owes_rejection
  by unfold_locales (use driver_thread_pays in blast)

interpretation verdicts: thread_ledger driver_thread
  "\<lambda>s. action_counter a (gs_Telemetry s)" "owes_verdict a" for a
  by unfold_locales (use driver_thread_pays in blast)

section \<open>Properties\<close>

text \<open>
  C13: Once a service process is pinned, in every interleaving, with each critical section of a
  lock as one step, of any number of requests and connections the pin stays, and a request whose
  caller the check refuses against this pin is never dispatched: it is in its check, or being
  recorded as refused, or completed with the failing status, no output and an untouched buffer.
\<close>

theorem pinned_service_excludes_other_callers:
  assumes "pars driver_thread (ps, s) (ps', s')" and "gs_AllowedServicePid s \<noteq> 0"
    and "list_all starting ps" and "i < length ps" and "ps ! i = Request (request env q)"
    and "\<not> NT_SUCCESS (own_status (gs_AllowedServicePid s) env)"
  shows "gs_AllowedServicePid s' = gs_AllowedServicePid s \<and>
    ((\<exists>c. ps' ! i = Request (ReqCheck env q c)) \<or>
     (\<exists>r. ps' ! i = Request (ReqRecord (refusal q (own_status (gs_AllowedServicePid s) env)) r)) \<or>
     ps' ! i = Request (ReqDone (refusal q (own_status (gs_AllowedServicePid s) env))))"
proof -
  let ?a = "gs_AllowedServicePid s"
  have "kept_out_since ?a (ps ! j) (ps ! j)" if "j < length ps" for j
    using start_kept_out [OF _ assms(2)] assms(3) that by (simp add: list_all_length)
  then have all: "gs_AllowedServicePid s' = ?a \<and>
      (\<forall>j < length ps'. kept_out_since ?a (ps ! j) (ps' ! j))"
    using service.always [OF assms(1), of ?a ps] by simp
  have "length ps' = length ps" using pars_length [OF assms(1)] by simp
  with all assms(4,5) have since: "kept_out_since ?a (Request (request env q)) (ps' ! i)" by auto
  show ?thesis
  proof (cases "ps' ! i")
    case (Request r)
    then have "kept_out ?a env q r" using since by (simp add: request_def)
    then show ?thesis using all assms(6) Request by (cases r) auto
  next
    case (Connection p)
    then show ?thesis using since by (simp add: request_def)
  qed
qed

theorem pinned_service_excludes_other_callers_witness:
  "\<exists>c s'. pars driver_thread ([Request (request stranger_env short_sync)],
      guardian_image\<lparr>gs_AllowedServicePid := 4\<rparr>) ([Request (ReqDone c)], s') \<and>
    cp_Status c = STATUS_ACCESS_DENIED \<and> gs_AllowedServicePid s' = 4"
proof -
  let ?s = "guardian_image\<lparr>gs_AllowedServicePid := 4\<rparr>" and ?ps = "[Request (request stranger_env short_sync)]"
  have denied: "own_status (gs_AllowedServicePid ?s) stranger_env = STATUS_ACCESS_DENIED"
    by (simp add: own_status_def GuardianSecurityPolicyVerifyCaller_def stranger_env_def Let_def)
  then have "\<not> admitted stranger_env short_sync ?s" by (simp add: admitted_def own_status_def)
  then obtain c s' where "GuardianEvtIoDeviceControl stranger_env short_sync ?s = Inr (c, s')"
    using evt_not_admitted [of stranger_env short_sync ?s] by (metis surj_pair)
  then have run: "pars driver_thread (?ps, ?s) ([Request (ReqDone c)], s')"
    using request_turn [of 0 ?ps stranger_env short_sync ?s c s'] by simp
  have "list_all starting ?ps" by (simp add: start_request short_sync_def del: starting.simps)
  from pinned_service_excludes_other_callers [OF run _ this, of 0] denied
  have "c = refusal short_sync STATUS_ACCESS_DENIED \<and> gs_AllowedServicePid s' = 4" by simp
  then show ?thesis using run by (intro exI [of _ c] exI [of _ s']) (simp add: refusal_def)
qed

text \<open>
  C22: While the kill switch is in mode BlockAll, every connection that is classified is
  blocked, in every interleaving, with each critical section of a lock as one step, of any
  number of connections with any control requests other than \<open>SET_KILL_SWITCH\<close>.
\<close>

theorem block_all_blocks_during_requests:
  assumes "pars driver_thread (ps, s) (ps', s')"
    and "ks_Mode (gs_KillSwitch s) = ks_mode_code GuardianKsBlockAll"
    and "list_all starting ps"
    and "\<And>env q. Request (request env q) \<in> set ps \<Longrightarrow>
      rq_IoControlCode q \<noteq> ioctl_code IOCTL_GUARDIAN_SET_KILL_SWITCH"
    and "Connection (Classified status result) \<in> set ps'"
  shows "status = STATUS_SUCCESS \<and> cr_Action result = GuardianActionBlock"
proof -
  have "quiet_thread (ps ! i)" if "i < length ps" for i
  proof -
    have "starting (ps ! i)" using assms(3) that by (simp add: list_all_length)
    moreover have "rq_IoControlCode q \<noteq> ioctl_code IOCTL_GUARDIAN_SET_KILL_SWITCH"
      if "ps ! i = Request (request env q)" for env q
      using assms(4) [of env q] that \<open>i < length ps\<close> by (metis nth_mem)
    ultimately show ?thesis
      by (cases "ps ! i") (auto simp: request_def simp del: ioctl_code.simps)
  qed
  then have "\<forall>i < length ps'. quiet_thread (ps' ! i)" using quiet.always [OF assms(1,2)] by simp
  then have "quiet_thread (Connection (Classified status result))"
    using assms(5) by (metis in_set_conv_nth)
  then show ?thesis by simp
qed

theorem block_all_blocks_during_requests_witness:
  "\<exists>c result s'. pars driver_thread
      ([Request (request sample_env short_sync), Connection (ClassifyEntry None 0 0)],
       guardian_image\<lparr>gs_KillSwitch := \<lparr>ks_Mode = 1, ks_VpnInterfaceLuid = 0\<rparr>\<rparr>)
      ([Request c, Connection (Classified STATUS_SUCCESS result)], s') \<and>
    cr_Action result = GuardianActionBlock"
proof -
  let ?s = "guardian_image\<lparr>gs_KillSwitch := \<lparr>ks_Mode = 1, ks_VpnInterfaceLuid = 0\<rparr>\<rparr>"
  let ?ps = "[Request (request sample_env short_sync), Connection (ClassifyEntry None 0 0)]"
  obtain status result s' where "GuardianClassifyConnection None 0 0 ?s = (status, result, s')"
    by (metis prod_cases3)
  from connection_turn [OF _ _ this, of 1 ?ps] have run: "pars driver_thread (?ps, ?s)
      ([Request (request sample_env short_sync), Connection (Classified status result)], s')"
    by simp
  have "list_all starting ?ps" by (simp add: start_request short_sync_def del: starting.simps(1))
  from block_all_blocks_during_requests [OF run _ this, of status result]
  have "status = STATUS_SUCCESS \<and> cr_Action result = GuardianActionBlock"
    by (auto simp: request_def short_sync_def ctl_code_defs)
  then show ?thesis using run by auto
qed

text \<open>
  C20: When any number of control requests and connections run interleaved, with each critical
  section of a lock as one step, and all have completed, the dispatch counter has grown by the
  number of requests, the reject counter by the number of requests that completed with a failing
  status, and the counter of each action by the number of connections that were classified with
  success and that action, all modulo 2 to the 64.
\<close>

theorem every_request_and_connection_is_counted:
  assumes "pars driver_thread
    (map (\<lambda>(env, q). Request (request env q)) reqs @
     map (\<lambda>(v, start, stop). Connection (ClassifyEntry v start stop)) conns, s)
    (map (\<lambda>c. Request (ReqDone c)) cs @
     map (\<lambda>(status, r). Connection (Classified status r)) rs, s')"
  shows "tm_IpcDispatchCount (gs_Telemetry s') = tm_IpcDispatchCount (gs_Telemetry s) + of_nat (length reqs) \<and>
    tm_IpcRejectCount (gs_Telemetry s') = tm_IpcRejectCount (gs_Telemetry s) +
      of_nat (length (filter (\<lambda>c. \<not> NT_SUCCESS (cp_Status c)) cs)) \<and>
    action_counter a (gs_Telemetry s') = action_counter a (gs_Telemetry s) +
      of_nat (length (filter (\<lambda>(status, r). NT_SUCCESS status \<and> cr_Action r = a) rs))"
proof -
  have reqs: "sum_list (map (owes_request \<circ> (\<lambda>(env, q). Request (request env q))) reqs) = of_nat (length reqs)"
    "sum_list (map (owes_rejection \<circ> (\<lambda>(env, q). Request (request env q))) reqs) = 0"
    "sum_list (map (owes_verdict a \<circ> (\<lambda>(env, q). Request (request env q))) reqs) = 0"
    by (induction reqs) (auto simp: request_def)
  have conns: "sum_list (map (owes_request \<circ> (\<lambda>(v, start, stop). Connection (ClassifyEntry v start stop))) conns) = 0"
    "sum_list (map (owes_rejection \<circ> (\<lambda>(v, start, stop). Connection (ClassifyEntry v start stop))) conns) = 0"
    "sum_list (map (owes_verdict a \<circ> (\<lambda>(v, start, stop). Connection (ClassifyEntry v start stop))) conns) = 0"
    by (induction conns) auto
  have cs: "sum_list (map (owes_request \<circ> (\<lambda>c. Request (ReqDone c))) cs) = 0"
    "sum_list (map (owes_rejection \<circ> (\<lambda>c. Request (ReqDone c))) cs) =
      - of_nat (length (filter (\<lambda>c. \<not> NT_SUCCESS (cp_Status c)) cs))"
    "sum_list (map (owes_verdict a \<circ> (\<lambda>c. Request (ReqDone c))) cs) = 0"
    by (induction cs) (auto simp: one_if_def)
  have rs: "sum_list (map (owes_request \<circ> (\<lambda>(status, r). Connection (Classified status r))) rs) = 0"
    "sum_list (map (owes_rejection \<circ> (\<lambda>(status, r). Connection (Classified status r))) rs) = 0"
    "sum_list (map (owes_verdict a \<circ> (\<lambda>(status, r). Connection (Classified status r))) rs) =
      - of_nat (length (filter (\<lambda>(status, r). NT_SUCCESS status \<and> cr_Action r = a) rs))"
    by (induction rs) (auto simp: one_if_def split: if_splits)
  show ?thesis
    using reqs conns cs rs dispatches.balance [OF assms] rejections.balance [OF assms]
      verdicts.balance [OF assms, of a]
    by (simp add: algebra_simps)
qed

theorem every_request_and_connection_is_counted_witness:
  "\<exists>c status r s'. pars driver_thread
      ([Request (request sample_env (sample_request IOCTL_GUARDIAN_GET_TELEMETRY [] 0)),
        Connection (ClassifyEntry None 0 0)], guardian_image)
      ([Request (ReqDone c), Connection (Classified status r)], s') \<and>
    tm_IpcDispatchCount (gs_Telemetry s') = 1 \<and> tm_IpcRejectCount (gs_Telemetry s') = 1 \<and>
    tm_PermitCount (gs_Telemetry s') =
      (if NT_SUCCESS status \<and> cr_Action r = GuardianActionPermit then 1 else 0)"
proof -
  let ?q = "sample_request IOCTL_GUARDIAN_GET_TELEMETRY [] 0"
  let ?ps = "[Request (request sample_env ?q), Connection (ClassifyEntry None 0 0)]"
  obtain c s1 where evt: "GuardianEvtIoDeviceControl sample_env ?q guardian_image = Inr (c, s1)"
    and failed: "\<not> NT_SUCCESS (cp_Status c)" by (rule sample_zero_length_result)
  from request_turn [OF _ _ evt, of 0 ?ps]
  have first: "pars driver_thread (?ps, guardian_image)
      ([Request (ReqDone c), Connection (ClassifyEntry None 0 0)], s1)" by simp
  obtain status r s' where "GuardianClassifyConnection None 0 0 s1 = (status, r, s')"
    by (metis prod_cases3)
  from connection_turn [OF _ _ this, of 1 "[Request (ReqDone c), Connection (ClassifyEntry None 0 0)]"] first
  have run: "pars driver_thread (?ps, guardian_image)
      ([Request (ReqDone c), Connection (Classified status r)], s')"
    by (auto intro: rtranclp_trans)
  from every_request_and_connection_is_counted [of "[(sample_env, ?q)]" "[(None, 0, 0)]" guardian_image
      "[c]" "[(status, r)]" s' GuardianActionPermit] run failed
  show ?thesis by (intro exI [of _ c] exI [of _ status] exI [of _ r] exI [of _ s'])
      (simp add: guardian_image_def GuardianTelemetryInitialize_def)
qed

section \<open>The reported kill switch mode\<close>

text \<open>An admitted request that sets the kill switch to one of its three lasting modes.\<close>

definition kill_switch_request ::
  "ioctl_env \<Rightarrow> ioctl_request \<Rightarrow> GUARDIAN_KILL_SWITCH_V1 \<Rightarrow> guardian \<Rightarrow> bool" where
  "kill_switch_request env q config s \<longleftrightarrow>
     wf_request q \<and> admitted env q s \<and> valid_request q 0 \<and>
     rq_IoControlCode q = ioctl_code IOCTL_GUARDIAN_SET_KILL_SWITCH \<and>
     read_in rd_kill_switch (in_ptr q) = Inr config \<and>
     kc_Version config = GUARDIAN_KILL_SWITCH_VERSION \<and> kc_Mode config < ks_mode_code GuardianKsRestore"

lemma admitted_pin:
  "gs_AllowedServicePid s' = gs_AllowedServicePid s \<Longrightarrow> admitted env q s' = admitted env q s"
  by (simp add: admitted_def)

lemma kill_switch_request_leads:
  assumes "kill_switch_request env q config s" and "gs_AllowedServicePid s \<noteq> 0"
  shows "leads request_step (request env q) s (ReqKillSwitch env q config) s"
proof -
  obtain status where v: "GuardianSecurityPolicyVerifyCaller (Some (en_Origin env)) (en_Sessions env)
      (gs_AllowedServicePid s) = (status, gs_AllowedServicePid s)"
    using verify_pinned_stays [OF assms(2)] by (metis prod.collapse)
  have adm: "admitted env q s" and valid: "valid_request q 0"
    and x: "rq_IoControlCode q = ioctl_code IOCTL_GUARDIAN_SET_KILL_SWITCH"
    and config: "read_in rd_kill_switch (in_ptr q) = Inr config"
    using assms(1) by (simp_all add: kill_switch_request_def del: ioctl_code.simps)
  have "after_check env q status = validated_call env q"
    using adm v by (auto simp: admitted_def after_check_def)
  also have "\<dots> = dispatch_call env q" using valid by (auto simp: validated_call_def valid_request_def)
  also have "\<dots> = ReqKillSwitch env q config"
    unfolding dispatch_call_def x guardian_ioctl.enum_of_code using config by simp
  finally show ?thesis using check_leads [OF v, of q] by simp
qed

text \<open>The request up to the moment when it has read the mode it will report, and from there.\<close>

lemma kill_switch_set_leads:
  assumes "kill_switch_request env q config s"
  shows "leads request_step (ReqKillSwitch env q config) s
    (ReqReport env q STATUS_SUCCESS (kc_Mode config))
    (s\<lparr>gs_KillSwitch := \<lparr>ks_Mode = kc_Mode config, ks_VpnInterfaceLuid = kc_VpnInterfaceLuid config\<rparr>\<rparr>)"
proof -
  let ?k = "\<lparr>ks_Mode = kc_Mode config, ks_VpnInterfaceLuid = kc_VpnInterfaceLuid config\<rparr>"
  have "GuardianKillSwitchSet (Some config) (gs_KillSwitch s) = (STATUS_SUCCESS, ?k)"
    using assms by (auto simp: kill_switch_request_def GuardianKillSwitchSet_def)
  then have "request_step (ReqKillSwitch env q config) s =
      Some (ReqReadMode env q STATUS_SUCCESS, s\<lparr>gs_KillSwitch := ?k\<rparr>)" by simp
  moreover have "request_step (ReqReadMode env q STATUS_SUCCESS) (s\<lparr>gs_KillSwitch := ?k\<rparr>) =
      Some (ReqReport env q STATUS_SUCCESS (kc_Mode config), s\<lparr>gs_KillSwitch := ?k\<rparr>)"
    by (simp add: GuardianKillSwitchGetMode_def)
  ultimately show ?thesis by (blast intro: leads_step leads_refl)
qed

lemma report_leads:
  "\<exists>c s'. leads request_step (ReqReport env q STATUS_SUCCESS mode) s (ReqDone c) s' \<and>
     cp_Status c = STATUS_SUCCESS \<and> gs_KillSwitch s' = gs_KillSwitch s \<and>
     gs_AllowedServicePid s' = gs_AllowedServicePid s \<and> dv_KillSwitchMode (gs_Driver s') = mode"
proof -
  let ?s = "set_driver (\<lambda>d. d\<lparr>dv_KillSwitchMode := mode\<rparr>) s"
  have "leads request_step (ReqReport env q STATUS_SUCCESS mode) s
      (ReqDone (fst (complete_request env STATUS_SUCCESS 0 (rq_SystemBuffer q) ?s)))
      (snd (complete_request env STATUS_SUCCESS 0 (rq_SystemBuffer q) ?s))"
    by (rule leads_step [OF _ finished_leads]) simp
  then show ?thesis by (auto simp: complete_request_def intro!: exI)
qed

text \<open>
  C19: The mode of the kill switch is set under its lock, but read back and reported outside of
  it: two admitted requests, from a service process that is pinned already, that set it to two
  of the modes Off, BlockAll and AllowVpnOnly have an interleaving in which both succeed, the
  kill switch is in the mode of the one and the driver state reports the mode of the other.
\<close>

theorem reported_kill_switch_mode_differs:
  assumes "kill_switch_request env q config s" and "kill_switch_request env' q' config' s"
    and "gs_AllowedServicePid s \<noteq> 0"
  shows "\<exists>c c' s'. pars driver_thread ([Request (request env q), Request (request env' q')], s)
      ([Request (ReqDone c), Request (ReqDone c')], s') \<and>
    cp_Status c = STATUS_SUCCESS \<and> cp_Status c' = STATUS_SUCCESS \<and>
    GuardianKillSwitchGetMode (gs_KillSwitch s') = kc_Mode config' \<and>
    dv_KillSwitchMode (gs_Driver s') = kc_Mode config"
proof -
  let ?k = "\<lambda>c. \<lparr>ks_Mode = kc_Mode c, ks_VpnInterfaceLuid = kc_VpnInterfaceLuid c\<rparr>"
  let ?r = "ReqReport env q STATUS_SUCCESS (kc_Mode config)"
  let ?s1 = "s\<lparr>gs_KillSwitch := ?k config\<rparr>" and ?s2 = "s\<lparr>gs_KillSwitch := ?k config'\<rparr>"
  have first: "leads request_step (request env q) s ?r ?s1"
    by (rule leads_trans [OF kill_switch_request_leads [OF assms(1,3)] kill_switch_set_leads [OF assms(1)]])
  have "kill_switch_request env' q' config' ?s1"
    using assms(2) admitted_pin [of ?s1 s] by (simp add: kill_switch_request_def del: ioctl_code.simps)
  note second = leads_trans [OF kill_switch_request_leads [OF this] kill_switch_set_leads [OF this]]
  obtain c' s3 where ends': "leads request_step (ReqReport env' q' STATUS_SUCCESS (kc_Mode config')) ?s2
      (ReqDone c') s3" "cp_Status c' = STATUS_SUCCESS" "gs_KillSwitch s3 = ?k config'"
    using report_leads [of env' q' "kc_Mode config'" ?s2] by auto
  obtain c s4 where ends: "leads request_step ?r s3 (ReqDone c) s4" "cp_Status c = STATUS_SUCCESS"
    "gs_KillSwitch s4 = ?k config'" "dv_KillSwitchMode (gs_Driver s4) = kc_Mode config"
    using report_leads [of env q "kc_Mode config" s3] ends'(3) by auto
  have middle: "leads request_step (request env' q') ?s1 (ReqDone c') s3"
    using leads_trans [OF second] ends'(1) assms(3) by simp
  have "pars driver_thread ([Request (request env q), Request (request env' q')], s)
      ([Request ?r, Request (request env' q')], ?s1)"
    using part_turn [OF first, of 0 "[Request (request env q), Request (request env' q')]"] by simp
  also have "pars driver_thread \<dots> ([Request ?r, Request (ReqDone c')], s3)"
    using part_turn [OF middle, of 1 "[Request ?r, Request (request env' q')]"] by simp
  also have "pars driver_thread \<dots> ([Request (ReqDone c), Request (ReqDone c')], s4)"
    using part_turn [OF ends(1), of 0 "[Request ?r, Request (ReqDone c')]"] by simp
  finally show ?thesis using ends(2-4) ends'(2)
    by (intro exI [of _ c] exI [of _ c'] exI [of _ s4]) (simp add: GuardianKillSwitchGetMode_def)
qed

theorem reported_kill_switch_mode_differs_witness:
  "\<exists>ps s'. pars driver_thread
      ([Request (request sample_env (sample_request IOCTL_GUARDIAN_SET_KILL_SWITCH
          (enc_kill_switch \<lparr>kc_Version = 1, kc_Mode = 1, kc_VpnInterfaceLuid = 0\<rparr>) 0)),
        Request (request sample_env (sample_request IOCTL_GUARDIAN_SET_KILL_SWITCH
          (enc_kill_switch \<lparr>kc_Version = 1, kc_Mode = 0, kc_VpnInterfaceLuid = 0\<rparr>) 0))],
       guardian_image\<lparr>gs_AllowedServicePid := 4\<rparr>) (ps, s') \<and>
    GuardianKillSwitchGetMode (gs_KillSwitch s') = 0 \<and> dv_KillSwitchMode (gs_Driver s') = 1"
proof -
  let ?s = "guardian_image\<lparr>gs_AllowedServicePid := 4\<rparr>"
  let ?c = "\<lambda>m. \<lparr>kc_Version = 1, kc_Mode = m, kc_VpnInterfaceLuid = 0\<rparr>"
  let ?q = "\<lambda>m. sample_request IOCTL_GUARDIAN_SET_KILL_SWITCH (enc_kill_switch (?c m)) 0"
  have request: "kill_switch_request sample_env (?q m) (?c m) ?s" if "m < 3" for m
  proof -
    have wf: "wf_kill_switch (?c m)" by (simp add: wf_kill_switch_def)
    have len: "length (enc_kill_switch (?c m)) = 16"
      using kill_switch_layout.enc_length [OF wf] by (simp add: structure_sizes)
    have adm: "admitted sample_env (?q m) ?s"
      by (simp add: admitted_def sample_env_def verify_accepts_iff)
    have valid: "valid_request (?q m) 0"
      unfolding valid_request_code [OF sample_request_simps(1,2)]
      by (simp add: len structure_sizes count_ok_def GUARDIAN_MAX_IOCTL_BUFFER_def
          GUARDIAN_MAX_EXPORT_BYTES_def)
    have "read_in rd_kill_switch (in_ptr (?q m)) = Inr (?c m)"
      using kill_switch_layout.rd_enc_all [OF wf] by (simp add: read_in_def in_ptr_def len)
    then show ?thesis using that adm valid
      by (simp add: kill_switch_request_def GUARDIAN_KILL_SWITCH_VERSION_def)
  qed
  show ?thesis using reported_kill_switch_mode_differs [OF request [of 1] request [of 0]] by fastforce
qed

end
