(* ===== verification/Client_Types.thy ===== *)
theory Client_Types
  imports Structures Ioctl_Codes
begin

text \<open>
  The user-space client's view of the protocol: usermode/controller/src/ioctl.rs (the control codes)
  and types.rs (the packed structures that the client sends and receives, each with its bytes and its
  reader). Every structure is an interpretation of the contract mirrored: its layout is that of the
  driver's structure to which the function c\_\<open>\<dots>\<close> maps it, field by field. The signed last\_error is
  its bit pattern; protocol.rs has the header of a message.
\<close>

section \<open>Control codes (ioctl.rs)\<close>

definition ctl_code :: "u32 \<Rightarrow> u32 \<Rightarrow> u32 \<Rightarrow> u32 \<Rightarrow> u32" where
  "ctl_code device_type function method access =
     push_bit 16 device_type OR push_bit 14 access OR push_bit 2 function OR method"

text \<open>The constant of each control: its function number and the access it asks for.\<close>

fun client_code :: "GUARDIAN_IOCTL \<Rightarrow> u32" where
  "client_code IOCTL_GUARDIAN_GET_DRIVER_STATE = ctl_code 0x8010 0x800 0 1"
| "client_code IOCTL_GUARDIAN_SET_APP_POLICY = ctl_code 0x8010 0x801 0 2"
| "client_code IOCTL_GUARDIAN_SYNC_POLICIES = ctl_code 0x8010 0x802 0 2"
| "client_code IOCTL_GUARDIAN_SET_ROUTE = ctl_code 0x8010 0x803 0 2"
| "client_code IOCTL_GUARDIAN_CLEAR_ROUTE = ctl_code 0x8010 0x804 0 2"
| "client_code IOCTL_GUARDIAN_SYNC_ROUTES = ctl_code 0x8010 0x805 0 2"
| "client_code IOCTL_GUARDIAN_SET_KILL_SWITCH = ctl_code 0x8010 0x806 0 2"
| "client_code IOCTL_GUARDIAN_GET_TELEMETRY = ctl_code 0x8010 0x807 0 1"
| "client_code IOCTL_GUARDIAN_EXPORT_STATE = ctl_code 0x8010 0x808 0 1"
| "client_code IOCTL_GUARDIAN_IMPORT_STATE = ctl_code 0x8010 0x809 0 2"
| "client_code IOCTL_GUARDIAN_RECONCILE = ctl_code 0x8010 0x80A 0 2"
| "client_code IOCTL_GUARDIAN_DNS_SET_CONFIG = ctl_code 0x8010 0x80B 0 2"
| "client_code IOCTL_GUARDIAN_GET_PERF_STATS = ctl_code 0x8010 0x80C 0 1"
| "client_code IOCTL_GUARDIAN_GET_DNS_STATS = ctl_code 0x8010 0x80D 0 1"
| "client_code IOCTL_GUARDIAN_SET_GUARDIAN_MODE = ctl_code 0x8010 0x80E 0 2"

lemma client_code_mirrors: "client_code x = ioctl_code x"
  by (cases x) (simp_all add: ctl_code_def ctl_code_defs)

section \<open>Structures that mirror the driver's\<close>

locale mirrored = driver: codec enc rd wf sz + client: codec as_bytes read wf' sz'
  for enc :: "'c \<Rightarrow> bytes" and rd wf sz and as_bytes :: "'r \<Rightarrow> bytes" and read wf' sz' +
  fixes to_c :: "'r \<Rightarrow> 'c"
  assumes wf_to_c: "wf (to_c x) \<longleftrightarrow> wf' x"
    and enc_to_c: "enc (to_c x) = as_bytes x"
    and same_size: "sz' = sz"
begin

text \<open>What the client sends, the driver reads.\<close>

lemma sent: "wf' x \<Longrightarrow> rd (as_bytes x @ r) = Some (to_c x, r)"
  using driver.rd_enc [of "to_c x" r] by (simp add: wf_to_c enc_to_c)

lemma sent_length: "wf' x \<Longrightarrow> length (as_bytes x) = sz"
  by (simp add: client.enc_length same_size)

text \<open>What the driver has encoded, the client reads.\<close>

lemma read_mirrors: "map_option (\<lambda>(x, r). (to_c x, r)) (read b) = rd b"
proof (cases "read b")
  case None
  then show ?thesis using client.rd_none [of b] driver.rd_none [of b] same_size by simp
next
  case (Some p)
  then obtain x r where p: "read b = Some (x, r)" by (cases p) simp
  then have "wf' x" "b = as_bytes x @ r" by (simp_all add: client.rd_iff)
  then show ?thesis using p sent by simp
qed

lemma received:
  assumes "wf c"
  obtains x where "read (enc c @ r) = Some (x, r)" and "to_c x = c"
  using read_mirrors [of "enc c @ r"] driver.rd_enc [OF assms, of r] by (auto split: prod.splits)

end

text \<open>The array lengths of types.rs.\<close>

definition CLIENT_MAX_EXE_PATH_CHARS :: nat where "CLIENT_MAX_EXE_PATH_CHARS = 520"
definition CLIENT_MAX_PACKAGE_FAMILY_CHARS :: nat where "CLIENT_MAX_PACKAGE_FAMILY_CHARS = 128"
definition CLIENT_SHA256_BYTES :: nat where "CLIENT_SHA256_BYTES = 32"
definition CLIENT_MAX_SID_BYTES :: nat where "CLIENT_MAX_SID_BYTES = 68"

lemmas client_sizes = CLIENT_MAX_EXE_PATH_CHARS_def CLIENT_MAX_PACKAGE_FAMILY_CHARS_def
  CLIENT_SHA256_BYTES_def CLIENT_MAX_SID_BYTES_def GUARDIAN_MAX_EXE_PATH_CHARS_def
  GUARDIAN_MAX_PACKAGE_FAMILY_CHARS_def GUARDIAN_SHA256_BYTES_def GUARDIAN_MAX_SID_BYTES_def

section \<open>GuardianDriverStateV1\<close>

record GuardianDriverStateV1 =
  gds_version :: u32
  gds_version_major :: u32
  gds_version_minor :: u32
  gds_version_patch :: u32
  gds_build_stamp :: u32
  gds_lifecycle_state :: u32
  gds_callouts_registered :: u32
  gds_filter_count :: u32
  gds_recovery_generation :: u32
  gds_kill_switch_mode :: u32
  gds_last_error :: u32
  gds_guardian_mode :: u32
  gds_reserved :: bytes

definition wf_client_driver_state :: "GuardianDriverStateV1 \<Rightarrow> bool" where
  "wf_client_driver_state x \<longleftrightarrow>
     length (gds_reserved x) = 12"

definition client_driver_state_as_bytes :: "GuardianDriverStateV1 \<Rightarrow> bytes" where
  "client_driver_state_as_bytes x =
     le_bytes 4 (gds_version x) @ le_bytes 4 (gds_version_major x) @
     le_bytes 4 (gds_version_minor x) @ le_bytes 4 (gds_version_patch x) @
     le_bytes 4 (gds_build_stamp x) @ le_bytes 4 (gds_lifecycle_state x) @
     le_bytes 4 (gds_callouts_registered x) @ le_bytes 4 (gds_filter_count x) @
     le_bytes 4 (gds_recovery_generation x) @ le_bytes 4 (gds_kill_switch_mode x) @
     le_bytes 4 (gds_last_error x) @ le_bytes 4 (gds_guardian_mode x) @ gds_reserved x"

definition read_client_driver_state :: "bytes \<Rightarrow> (GuardianDriverStateV1 \<times> bytes) option" where
  "read_client_driver_state b = do {
     (version, b) \<leftarrow> rd_u32 b;
     (version_major, b) \<leftarrow> rd_u32 b;
     (version_minor, b) \<leftarrow> rd_u32 b;
     (version_patch, b) \<leftarrow> rd_u32 b;
     (build_stamp, b) \<leftarrow> rd_u32 b;
     (lifecycle_state, b) \<leftarrow> rd_u32 b;
     (callouts_registered, b) \<leftarrow> rd_u32 b;
     (filter_count, b) \<leftarrow> rd_u32 b;
     (recovery_generation, b) \<leftarrow> rd_u32 b;
     (kill_switch_mode, b) \<leftarrow> rd_u32 b;
     (last_error, b) \<leftarrow> rd_u32 b;
     (guardian_mode, b) \<leftarrow> rd_u32 b;
     (reserved, b) \<leftarrow> rd_bytes 12 b;
     Some (\<lparr>gds_version = version, gds_version_major = version_major,
            gds_version_minor = version_minor, gds_version_patch = version_patch,
            gds_build_stamp = build_stamp, gds_lifecycle_state = lifecycle_state,
            gds_callouts_registered = callouts_registered, gds_filter_count = filter_count,
            gds_recovery_generation = recovery_generation,
            gds_kill_switch_mode = kill_switch_mode, gds_last_error = last_error,
            gds_guardian_mode = guardian_mode, gds_reserved = reserved\<rparr>, b) }"

definition size_of_GuardianDriverStateV1 :: nat where
  "size_of_GuardianDriverStateV1 =
     4 + (4 + (4 + (4 + (4 + (4 + (4 + (4 + (4 + (4 + (4 + (4 + (12))))))))))))"

definition c_client_driver_state :: "GuardianDriverStateV1 \<Rightarrow> GUARDIAN_DRIVER_STATE_V1" where
  "c_client_driver_state x =
     \<lparr>dv_Version = gds_version x, dv_VersionMajor = gds_version_major x,
      dv_VersionMinor = gds_version_minor x, dv_VersionPatch = gds_version_patch x,
      dv_BuildStamp = gds_build_stamp x, dv_LifecycleState = gds_lifecycle_state x,
      dv_CalloutsRegistered = gds_callouts_registered x, dv_FilterCount = gds_filter_count x,
      dv_RecoveryGeneration = gds_recovery_generation x,
      dv_KillSwitchMode = gds_kill_switch_mode x, dv_LastError = gds_last_error x,
      dv_GuardianMode = gds_guardian_mode x, dv_Reserved = gds_reserved x\<rparr>"

interpretation client_driver_state: mirrored enc_driver_state rd_driver_state wf_driver_state
  sizeof_GUARDIAN_DRIVER_STATE_V1
  client_driver_state_as_bytes read_client_driver_state wf_client_driver_state
  size_of_GuardianDriverStateV1 c_client_driver_state
proof
  fix bs r and x :: GuardianDriverStateV1
  show "read_client_driver_state bs = Some (x, r) \<longleftrightarrow> wf_client_driver_state x \<and> bs = client_driver_state_as_bytes x @ r"
    by (cases x) (auto simp: read_client_driver_state_def wf_client_driver_state_def client_driver_state_as_bytes_def
        bind_eq_Some_conv reader_iff)
  show "wf_client_driver_state x \<Longrightarrow> length (client_driver_state_as_bytes x) = size_of_GuardianDriverStateV1"
    by (simp add: client_driver_state_as_bytes_def wf_client_driver_state_def size_of_GuardianDriverStateV1_def)
  show "read_client_driver_state bs = None \<longleftrightarrow> length bs < size_of_GuardianDriverStateV1"
    unfolding read_client_driver_state_def size_of_GuardianDriverStateV1_def
    by (intro struct_none) (simp_all add: reader_none)
  show "wf_driver_state (c_client_driver_state x) \<longleftrightarrow> wf_client_driver_state x"
    by (simp add: c_client_driver_state_def wf_driver_state_def wf_client_driver_state_def client_sizes)
  show "enc_driver_state (c_client_driver_state x) = client_driver_state_as_bytes x"
    by (simp add: c_client_driver_state_def enc_driver_state_def client_driver_state_as_bytes_def)
  show "size_of_GuardianDriverStateV1 = sizeof_GUARDIAN_DRIVER_STATE_V1"
    by (simp add: size_of_GuardianDriverStateV1_def structure_sizes client_sizes)
qed

section \<open>GuardianAppPolicyV1\<close>

record GuardianAppPolicyV1 =
  gap_version :: u32
  gap_app_id :: bytes
  gap_action :: u32
  gap_match_kind :: u32
  gap_exe_path_length_chars :: u32
  gap_exe_path :: "u16 list"
  gap_exe_hash_sha256 :: bytes
  gap_sid_length_bytes :: u32
  gap_sid_bytes :: bytes
  gap_package_family_name :: "u16 list"
  gap_profile_id :: u64
  gap_interface_luid :: u64

definition wf_client_policy :: "GuardianAppPolicyV1 \<Rightarrow> bool" where
  "wf_client_policy x \<longleftrightarrow>
     length (gap_app_id x) = 16 \<and>
     length (gap_exe_path x) = CLIENT_MAX_EXE_PATH_CHARS \<and>
     length (gap_exe_hash_sha256 x) = CLIENT_SHA256_BYTES \<and>
     length (gap_sid_bytes x) = CLIENT_MAX_SID_BYTES \<and>
     length (gap_package_family_name x) = CLIENT_MAX_PACKAGE_FAMILY_CHARS"

definition client_policy_as_bytes :: "GuardianAppPolicyV1 \<Rightarrow> bytes" where
  "client_policy_as_bytes x =
     le_bytes 4 (gap_version x) @ gap_app_id x @ le_bytes 4 (gap_action x) @
     le_bytes 4 (gap_match_kind x) @ le_bytes 4 (gap_exe_path_length_chars x) @
     concat (map (le_bytes 2) (gap_exe_path x)) @ gap_exe_hash_sha256 x @
     le_bytes 4 (gap_sid_length_bytes x) @ gap_sid_bytes x @
     concat (map (le_bytes 2) (gap_package_family_name x)) @ le_bytes 8 (gap_profile_id x) @
     le_bytes 8 (gap_interface_luid x)"

definition read_client_policy :: "bytes \<Rightarrow> (GuardianAppPolicyV1 \<times> bytes) option" where
  "read_client_policy b = do {
     (version, b) \<leftarrow> rd_u32 b;
     (app_id, b) \<leftarrow> rd_bytes 16 b;
     (action, b) \<leftarrow> rd_u32 b;
     (match_kind, b) \<leftarrow> rd_u32 b;
     (exe_path_length_chars, b) \<leftarrow> rd_u32 b;
     (exe_path, b) \<leftarrow> rd_list rd_u16 CLIENT_MAX_EXE_PATH_CHARS b;
     (exe_hash_sha256, b) \<leftarrow> rd_bytes CLIENT_SHA256_BYTES b;
     (sid_length_bytes, b) \<leftarrow> rd_u32 b;
     (sid_bytes, b) \<leftarrow> rd_bytes CLIENT_MAX_SID_BYTES b;
     (package_family_name, b) \<leftarrow> rd_list rd_u16 CLIENT_MAX_PACKAGE_FAMILY_CHARS b;
     (profile_id, b) \<leftarrow> rd_u64 b;
     (interface_luid, b) \<leftarrow> rd_u64 b;
     Some (\<lparr>gap_version = version, gap_app_id = app_id, gap_action = action,
            gap_match_kind = match_kind, gap_exe_path_length_chars = exe_path_length_chars,
            gap_exe_path = exe_path, gap_exe_hash_sha256 = exe_hash_sha256,
            gap_sid_length_bytes = sid_length_bytes, gap_sid_bytes = sid_bytes,
            gap_package_family_name = package_family_name, gap_profile_id = profile_id,
            gap_interface_luid = interface_luid\<rparr>, b) }"

definition size_of_GuardianAppPolicyV1 :: nat where
  "size_of_GuardianAppPolicyV1 =
     4 + (16 + (4 + (4 + (4 + (2 * CLIENT_MAX_EXE_PATH_CHARS + (CLIENT_SHA256_BYTES + (4 + (CLIENT_MAX_SID_BYTES + (2 * CLIENT_MAX_PACKAGE_FAMILY_CHARS + (8 + (8)))))))))))"

definition c_client_policy :: "GuardianAppPolicyV1 \<Rightarrow> GUARDIAN_APP_POLICY_V1" where
  "c_client_policy x =
     \<lparr>ap_Version = gap_version x, ap_AppId = gap_app_id x, ap_Action = gap_action x,
      ap_MatchKind = gap_match_kind x, ap_ExePathLengthChars = gap_exe_path_length_chars x,
      ap_ExePath = gap_exe_path x, ap_ExeHashSha256 = gap_exe_hash_sha256 x,
      ap_SidLengthBytes = gap_sid_length_bytes x, ap_SidBytes = gap_sid_bytes x,
      ap_PackageFamilyName = gap_package_family_name x, ap_ProfileId = gap_profile_id x,
      ap_InterfaceLuid = gap_interface_luid x\<rparr>"

interpretation client_policy: mirrored enc_app_policy rd_app_policy wf_app_policy
  sizeof_GUARDIAN_APP_POLICY_V1
  client_policy_as_bytes read_client_policy wf_client_policy
  size_of_GuardianAppPolicyV1 c_client_policy
proof
  fix bs r and x :: GuardianAppPolicyV1
  show "read_client_policy bs = Some (x, r) \<longleftrightarrow> wf_client_policy x \<and> bs = client_policy_as_bytes x @ r"
    by (cases x) (auto simp: read_client_policy_def wf_client_policy_def client_policy_as_bytes_def
        bind_eq_Some_conv reader_iff)
  show "wf_client_policy x \<Longrightarrow> length (client_policy_as_bytes x) = size_of_GuardianAppPolicyV1"
    by (simp add: client_policy_as_bytes_def wf_client_policy_def size_of_GuardianAppPolicyV1_def)
  show "read_client_policy bs = None \<longleftrightarrow> length bs < size_of_GuardianAppPolicyV1"
    unfolding read_client_policy_def size_of_GuardianAppPolicyV1_def
    by (intro struct_none) (simp_all add: reader_none)
  show "wf_app_policy (c_client_policy x) \<longleftrightarrow> wf_client_policy x"
    by (simp add: c_client_policy_def wf_app_policy_def wf_client_policy_def client_sizes)
  show "enc_app_policy (c_client_policy x) = client_policy_as_bytes x"
    by (simp add: c_client_policy_def enc_app_policy_def client_policy_as_bytes_def)
  show "size_of_GuardianAppPolicyV1 = sizeof_GUARDIAN_APP_POLICY_V1"
    by (simp add: size_of_GuardianAppPolicyV1_def structure_sizes client_sizes)
qed

section \<open>GuardianRouteAssignmentV1\<close>

record GuardianRouteAssignmentV1 =
  gra_version :: u32
  gra_app_id :: bytes
  gra_route_kind :: u32
  gra_profile_id :: u64
  gra_interface_luid :: u64
  gra_socks_port :: u16
  gra_reserved :: bytes

definition wf_client_route :: "GuardianRouteAssignmentV1 \<Rightarrow> bool" where
  "wf_client_route x \<longleftrightarrow>
     length (gra_app_id x) = 16 \<and> length (gra_reserved x) = 6"

definition client_route_as_bytes :: "GuardianRouteAssignmentV1 \<Rightarrow> bytes" where
  "client_route_as_bytes x =
     le_bytes 4 (gra_version x) @ gra_app_id x @ le_bytes 4 (gra_route_kind x) @
     le_bytes 8 (gra_profile_id x) @ le_bytes 8 (gra_interface_luid x) @
     le_bytes 2 (gra_socks_port x) @ gra_reserved x"

definition read_client_route :: "bytes \<Rightarrow> (GuardianRouteAssignmentV1 \<times> bytes) option" where
  "read_client_route b = do {
     (version, b) \<leftarrow> rd_u32 b;
     (app_id, b) \<leftarrow> rd_bytes 16 b;
     (route_kind, b) \<leftarrow> rd_u32 b;
     (profile_id, b) \<leftarrow> rd_u64 b;
     (interface_luid, b) \<leftarrow> rd_u64 b;
     (socks_port, b) \<leftarrow> rd_u16 b;
     (reserved, b) \<leftarrow> rd_bytes 6 b;
     Some (\<lparr>gra_version = version, gra_app_id = app_id, gra_route_kind = route_kind,
            gra_profile_id = profile_id, gra_interface_luid = interface_luid,
            gra_socks_port = socks_port, gra_reserved = reserved\<rparr>, b) }"

definition size_of_GuardianRouteAssignmentV1 :: nat where
  "size_of_GuardianRouteAssignmentV1 =
     4 + (16 + (4 + (8 + (8 + (2 + (6))))))"

definition c_client_route :: "GuardianRouteAssignmentV1 \<Rightarrow> GUARDIAN_ROUTE_ASSIGNMENT_V1" where
  "c_client_route x =
     \<lparr>ra_Version = gra_version x, ra_AppId = gra_app_id x,
      ra_RouteKind = gra_route_kind x, ra_ProfileId = gra_profile_id x,
      ra_InterfaceLuid = gra_interface_luid x, ra_SocksPort = gra_socks_port x,
      ra_Reserved = gra_reserved x\<rparr>"

interpretation client_route: mirrored enc_route rd_route wf_route
  sizeof_GUARDIAN_ROUTE_ASSIGNMENT_V1
  client_route_as_bytes read_client_route wf_client_route
  size_of_GuardianRouteAssignmentV1 c_client_route
proof
  fix bs r and x :: GuardianRouteAssignmentV1
  show "read_client_route bs = Some (x, r) \<longleftrightarrow> wf_client_route x \<and> bs = client_route_as_bytes x @ r"
    by (cases x) (auto simp: read_client_route_def wf_client_route_def client_route_as_bytes_def
        bind_eq_Some_conv reader_iff)
  show "wf_client_route x \<Longrightarrow> length (client_route_as_bytes x) = size_of_GuardianRouteAssignmentV1"
    by (simp add: client_route_as_bytes_def wf_client_route_def size_of_GuardianRouteAssignmentV1_def)
  show "read_client_route bs = None \<longleftrightarrow> length bs < size_of_GuardianRouteAssignmentV1"
    unfolding read_client_route_def size_of_GuardianRouteAssignmentV1_def
    by (intro struct_none) (simp_all add: reader_none)
  show "wf_route (c_client_route x) \<longleftrightarrow> wf_client_route x"
    by (simp add: c_client_route_def wf_route_def wf_client_route_def client_sizes)
  show "enc_route (c_client_route x) = client_route_as_bytes x"
    by (simp add: c_client_route_def enc_route_def client_route_as_bytes_def)
  show "size_of_GuardianRouteAssignmentV1 = sizeof_GUARDIAN_ROUTE_ASSIGNMENT_V1"
    by (simp add: size_of_GuardianRouteAssignmentV1_def structure_sizes client_sizes)
qed

section \<open>GuardianKillSwitchV1\<close>

record GuardianKillSwitchV1 =
  gks_version :: u32
  gks_mode :: u32
  gks_vpn_interface_luid :: u64

definition wf_client_kill_switch :: "GuardianKillSwitchV1 \<Rightarrow> bool" where
  "wf_client_kill_switch x \<longleftrightarrow>
     True"

definition client_kill_switch_as_bytes :: "GuardianKillSwitchV1 \<Rightarrow> bytes" where
  "client_kill_switch_as_bytes x =
     le_bytes 4 (gks_version x) @ le_bytes 4 (gks_mode x) @
     le_bytes 8 (gks_vpn_interface_luid x)"

definition read_client_kill_switch :: "bytes \<Rightarrow> (GuardianKillSwitchV1 \<times> bytes) option" where
  "read_client_kill_switch b = do {
     (version, b) \<leftarrow> rd_u32 b;
     (mode, b) \<leftarrow> rd_u32 b;
     (vpn_interface_luid, b) \<leftarrow> rd_u64 b;
     Some (\<lparr>gks_version = version, gks_mode = mode,
            gks_vpn_interface_luid = vpn_interface_luid\<rparr>, b) }"

definition size_of_GuardianKillSwitchV1 :: nat where
  "size_of_GuardianKillSwitchV1 =
     4 + (4 + (8))"

definition c_client_kill_switch :: "GuardianKillSwitchV1 \<Rightarrow> GUARDIAN_KILL_SWITCH_V1" where
  "c_client_kill_switch x =
     \<lparr>kc_Version = gks_version x, kc_Mode = gks_mode x,
      kc_VpnInterfaceLuid = gks_vpn_interface_luid x\<rparr>"

interpretation client_kill_switch: mirrored enc_kill_switch rd_kill_switch wf_kill_switch
  sizeof_GUARDIAN_KILL_SWITCH_V1
  client_kill_switch_as_bytes read_client_kill_switch wf_client_kill_switch
  size_of_GuardianKillSwitchV1 c_client_kill_switch
proof
  fix bs r and x :: GuardianKillSwitchV1
  show "read_client_kill_switch bs = Some (x, r) \<longleftrightarrow> wf_client_kill_switch x \<and> bs = client_kill_switch_as_bytes x @ r"
    by (cases x) (auto simp: read_client_kill_switch_def wf_client_kill_switch_def client_kill_switch_as_bytes_def
        bind_eq_Some_conv reader_iff)
  show "wf_client_kill_switch x \<Longrightarrow> length (client_kill_switch_as_bytes x) = size_of_GuardianKillSwitchV1"
    by (simp add: client_kill_switch_as_bytes_def wf_client_kill_switch_def size_of_GuardianKillSwitchV1_def)
  show "read_client_kill_switch bs = None \<longleftrightarrow> length bs < size_of_GuardianKillSwitchV1"
    unfolding read_client_kill_switch_def size_of_GuardianKillSwitchV1_def
    by (intro struct_none) (simp_all add: reader_none)
  show "wf_kill_switch (c_client_kill_switch x) \<longleftrightarrow> wf_client_kill_switch x"
    by (simp add: c_client_kill_switch_def wf_kill_switch_def wf_client_kill_switch_def client_sizes)
  show "enc_kill_switch (c_client_kill_switch x) = client_kill_switch_as_bytes x"
    by (simp add: c_client_kill_switch_def enc_kill_switch_def client_kill_switch_as_bytes_def)
  show "size_of_GuardianKillSwitchV1 = sizeof_GUARDIAN_KILL_SWITCH_V1"
    by (simp add: size_of_GuardianKillSwitchV1_def structure_sizes client_sizes)
qed

section \<open>GuardianTelemetryV1\<close>

record GuardianTelemetryV1 =
  gtm_version :: u32
  gtm_classify_count :: u64
  gtm_block_count :: u64
  gtm_route_count :: u64
  gtm_permit_count :: u64
  gtm_observe_count :: u64
  gtm_error_count :: u64
  gtm_dns_observe_count :: u64
  gtm_avg_classify_latency_100ns :: u64
  gtm_max_classify_latency_100ns :: u64

definition wf_client_telemetry :: "GuardianTelemetryV1 \<Rightarrow> bool" where
  "wf_client_telemetry x \<longleftrightarrow>
     True"

definition client_telemetry_as_bytes :: "GuardianTelemetryV1 \<Rightarrow> bytes" where
  "client_telemetry_as_bytes x =
     le_bytes 4 (gtm_version x) @ le_bytes 8 (gtm_classify_count x) @
     le_bytes 8 (gtm_block_count x) @ le_bytes 8 (gtm_route_count x) @
     le_bytes 8 (gtm_permit_count x) @ le_bytes 8 (gtm_observe_count x) @
     le_bytes 8 (gtm_error_count x) @ le_bytes 8 (gtm_dns_observe_count x) @
     le_bytes 8 (gtm_avg_classify_latency_100ns x) @
     le_bytes 8 (gtm_max_classify_latency_100ns x)"

definition read_client_telemetry :: "bytes \<Rightarrow> (GuardianTelemetryV1 \<times> bytes) option" where
  "read_client_telemetry b = do {
     (version, b) \<leftarrow> rd_u32 b;
     (classify_count, b) \<leftarrow> rd_u64 b;
     (block_count, b) \<leftarrow> rd_u64 b;
     (route_count, b) \<leftarrow> rd_u64 b;
     (permit_count, b) \<leftarrow> rd_u64 b;
     (observe_count, b) \<leftarrow> rd_u64 b;
     (error_count, b) \<leftarrow> rd_u64 b;
     (dns_observe_count, b) \<leftarrow> rd_u64 b;
     (avg_classify_latency_100ns, b) \<leftarrow> rd_u64 b;
     (max_classify_latency_100ns, b) \<leftarrow> rd_u64 b;
     Some (\<lparr>gtm_version = version, gtm_classify_count = classify_count,
            gtm_block_count = block_count, gtm_route_count = route_count,
            gtm_permit_count = permit_count, gtm_observe_count = observe_count,
            gtm_error_count = error_count, gtm_dns_observe_count = dns_observe_count,
            gtm_avg_classify_latency_100ns = avg_classify_latency_100ns,
            gtm_max_classify_latency_100ns = max_classify_latency_100ns\<rparr>, b) }"

definition size_of_GuardianTelemetryV1 :: nat where
  "size_of_GuardianTelemetryV1 =
     4 + (8 + (8 + (8 + (8 + (8 + (8 + (8 + (8 + (8)))))))))"

definition c_client_telemetry :: "GuardianTelemetryV1 \<Rightarrow> GUARDIAN_TELEMETRY_V1" where
  "c_client_telemetry x =
     \<lparr>tv_Version = gtm_version x, tv_ClassifyCount = gtm_classify_count x,
      tv_BlockCount = gtm_block_count x, tv_RouteCount = gtm_route_count x,
      tv_PermitCount = gtm_permit_count x, tv_ObserveCount = gtm_observe_count x,
      tv_ErrorCount = gtm_error_count x, tv_DnsObserveCount = gtm_dns_observe_count x,
      tv_AvgClassifyLatency100ns = gtm_avg_classify_latency_100ns x,
      tv_MaxClassifyLatency100ns = gtm_max_classify_latency_100ns x\<rparr>"

interpretation client_telemetry: mirrored enc_telemetry rd_telemetry wf_telemetry
  sizeof_GUARDIAN_TELEMETRY_V1
  client_telemetry_as_bytes read_client_telemetry wf_client_telemetry
  size_of_GuardianTelemetryV1 c_client_telemetry
proof
  fix bs r and x :: GuardianTelemetryV1
  show "read_client_telemetry bs = Some (x, r) \<longleftrightarrow> wf_client_telemetry x \<and> bs = client_telemetry_as_bytes x @ r"
    by (cases x) (auto simp: read_client_telemetry_def wf_client_telemetry_def client_telemetry_as_bytes_def
        bind_eq_Some_conv reader_iff)
  show "wf_client_telemetry x \<Longrightarrow> length (client_telemetry_as_bytes x) = size_of_GuardianTelemetryV1"
    by (simp add: client_telemetry_as_bytes_def wf_client_telemetry_def size_of_GuardianTelemetryV1_def)
  show "read_client_telemetry bs = None \<longleftrightarrow> length bs < size_of_GuardianTelemetryV1"
    unfolding read_client_telemetry_def size_of_GuardianTelemetryV1_def
    by (intro struct_none) (simp_all add: reader_none)
  show "wf_telemetry (c_client_telemetry x) \<longleftrightarrow> wf_client_telemetry x"
    by (simp add: c_client_telemetry_def wf_telemetry_def wf_client_telemetry_def client_sizes)
  show "enc_telemetry (c_client_telemetry x) = client_telemetry_as_bytes x"
    by (simp add: c_client_telemetry_def enc_telemetry_def client_telemetry_as_bytes_def)
  show "size_of_GuardianTelemetryV1 = sizeof_GUARDIAN_TELEMETRY_V1"
    by (simp add: size_of_GuardianTelemetryV1_def structure_sizes client_sizes)
qed

section \<open>GuardianPerfStatsV1\<close>

record GuardianPerfStatsV1 =
  gps_version :: u32
  gps_ipc_dispatch_count :: u64
  gps_ipc_reject_count :: u64
  gps_avg_ipc_latency_100ns :: u64
  gps_max_ipc_latency_100ns :: u64
  gps_deferred_work_count :: u64
  gps_active_policy_count :: u32
  gps_active_route_count :: u32

definition wf_client_perf_stats :: "GuardianPerfStatsV1 \<Rightarrow> bool" where
  "wf_client_perf_stats x \<longleftrightarrow>
     True"

definition client_perf_stats_as_bytes :: "GuardianPerfStatsV1 \<Rightarrow> bytes" where
  "client_perf_stats_as_bytes x =
     le_bytes 4 (gps_version x) @ le_bytes 8 (gps_ipc_dispatch_count x) @
     le_bytes 8 (gps_ipc_reject_count x) @ le_bytes 8 (gps_avg_ipc_latency_100ns x) @
     le_bytes 8 (gps_max_ipc_latency_100ns x) @ le_bytes 8 (gps_deferred_work_count x) @
     le_bytes 4 (gps_active_policy_count x) @ le_bytes 4 (gps_active_route_count x)"

definition read_client_perf_stats :: "bytes \<Rightarrow> (GuardianPerfStatsV1 \<times> bytes) option" where
  "read_client_perf_stats b = do {
     (version, b) \<leftarrow> rd_u32 b;
     (ipc_dispatch_count, b) \<leftarrow> rd_u64 b;
     (ipc_reject_count, b) \<leftarrow> rd_u64 b;
     (avg_ipc_latency_100ns, b) \<leftarrow> rd_u64 b;
     (max_ipc_latency_100ns, b) \<leftarrow> rd_u64 b;
     (deferred_work_count, b) \<leftarrow> rd_u64 b;
     (active_policy_count, b) \<leftarrow> rd_u32 b;
     (active_route_count, b) \<leftarrow> rd_u32 b;
     Some (\<lparr>gps_version = version, gps_ipc_dispatch_count = ipc_dispatch_count,
            gps_ipc_reject_count = ipc_reject_count,
            gps_avg_ipc_latency_100ns = avg_ipc_latency_100ns,
            gps_max_ipc_latency_100ns = max_ipc_latency_100ns,
            gps_deferred_work_count = deferred_work_count,
            gps_active_policy_count = active_policy_count,
            gps_active_route_count = active_route_count\<rparr>, b) }"

definition size_of_GuardianPerfStatsV1 :: nat where
  "size_of_GuardianPerfStatsV1 =
     4 + (8 + (8 + (8 + (8 + (8 + (4 + (4)))))))"

definition c_client_perf_stats :: "GuardianPerfStatsV1 \<Rightarrow> GUARDIAN_PERF_STATS_V1" where
  "c_client_perf_stats x =
     \<lparr>ps_Version = gps_version x, ps_IpcDispatchCount = gps_ipc_dispatch_count x,
      ps_IpcRejectCount = gps_ipc_reject_count x,
      ps_AvgIpcLatency100ns = gps_avg_ipc_latency_100ns x,
      ps_MaxIpcLatency100ns = gps_max_ipc_latency_100ns x,
      ps_DeferredWorkCount = gps_deferred_work_count x,
      ps_ActivePolicyCount = gps_active_policy_count x,
      ps_ActiveRouteCount = gps_active_route_count x\<rparr>"

interpretation client_perf_stats: mirrored enc_perf_stats rd_perf_stats wf_perf_stats
  sizeof_GUARDIAN_PERF_STATS_V1
  client_perf_stats_as_bytes read_client_perf_stats wf_client_perf_stats
  size_of_GuardianPerfStatsV1 c_client_perf_stats
proof
  fix bs r and x :: GuardianPerfStatsV1
  show "read_client_perf_stats bs = Some (x, r) \<longleftrightarrow> wf_client_perf_stats x \<and> bs = client_perf_stats_as_bytes x @ r"
    by (cases x) (auto simp: read_client_perf_stats_def wf_client_perf_stats_def client_perf_stats_as_bytes_def
        bind_eq_Some_conv reader_iff)
  show "wf_client_perf_stats x \<Longrightarrow> length (client_perf_stats_as_bytes x) = size_of_GuardianPerfStatsV1"
    by (simp add: client_perf_stats_as_bytes_def wf_client_perf_stats_def size_of_GuardianPerfStatsV1_def)
  show "read_client_perf_stats bs = None \<longleftrightarrow> length bs < size_of_GuardianPerfStatsV1"
    unfolding read_client_perf_stats_def size_of_GuardianPerfStatsV1_def
    by (intro struct_none) (simp_all add: reader_none)
  show "wf_perf_stats (c_client_perf_stats x) \<longleftrightarrow> wf_client_perf_stats x"
    by (simp add: c_client_perf_stats_def wf_perf_stats_def wf_client_perf_stats_def client_sizes)
  show "enc_perf_stats (c_client_perf_stats x) = client_perf_stats_as_bytes x"
    by (simp add: c_client_perf_stats_def enc_perf_stats_def client_perf_stats_as_bytes_def)
  show "size_of_GuardianPerfStatsV1 = sizeof_GUARDIAN_PERF_STATS_V1"
    by (simp add: size_of_GuardianPerfStatsV1_def structure_sizes client_sizes)
qed

section \<open>GuardianDnsConfigV1\<close>

record GuardianDnsConfigV1 =
  gdc_version :: u32
  gdc_capabilities :: u32
  gdc_enabled :: byte
  gdc_observe_only :: byte
  gdc_reserved :: bytes
  gdc_proxy_port :: u16
  gdc_excluded_pid_count :: u32
  gdc_excluded_pids :: "u32 list"

definition wf_client_dns_config :: "GuardianDnsConfigV1 \<Rightarrow> bool" where
  "wf_client_dns_config x \<longleftrightarrow>
     length (gdc_reserved x) = 2 \<and> length (gdc_excluded_pids x) = 16"

definition client_dns_config_as_bytes :: "GuardianDnsConfigV1 \<Rightarrow> bytes" where
  "client_dns_config_as_bytes x =
     le_bytes 4 (gdc_version x) @ le_bytes 4 (gdc_capabilities x) @ [gdc_enabled x] @
     [gdc_observe_only x] @ gdc_reserved x @ le_bytes 2 (gdc_proxy_port x) @
     le_bytes 4 (gdc_excluded_pid_count x) @ concat (map (le_bytes 4) (gdc_excluded_pids x))"

definition read_client_dns_config :: "bytes \<Rightarrow> (GuardianDnsConfigV1 \<times> bytes) option" where
  "read_client_dns_config b = do {
     (version, b) \<leftarrow> rd_u32 b;
     (capabilities, b) \<leftarrow> rd_u32 b;
     (enabled, b) \<leftarrow> rd_u8 b;
     (observe_only, b) \<leftarrow> rd_u8 b;
     (reserved, b) \<leftarrow> rd_bytes 2 b;
     (proxy_port, b) \<leftarrow> rd_u16 b;
     (excluded_pid_count, b) \<leftarrow> rd_u32 b;
     (excluded_pids, b) \<leftarrow> rd_list rd_u32 16 b;
     Some (\<lparr>gdc_version = version, gdc_capabilities = capabilities,
            gdc_enabled = enabled, gdc_observe_only = observe_only, gdc_reserved = reserved,
            gdc_proxy_port = proxy_port, gdc_excluded_pid_count = excluded_pid_count,
            gdc_excluded_pids = excluded_pids\<rparr>, b) }"

definition size_of_GuardianDnsConfigV1 :: nat where
  "size_of_GuardianDnsConfigV1 =
     4 + (4 + (1 + (1 + (2 + (2 + (4 + (4 * 16)))))))"

definition c_client_dns_config :: "GuardianDnsConfigV1 \<Rightarrow> GUARDIAN_DNS_CONFIG_V1" where
  "c_client_dns_config x =
     \<lparr>dc_Version = gdc_version x, dc_Capabilities = gdc_capabilities x,
      dc_Enabled = gdc_enabled x, dc_ObserveOnly = gdc_observe_only x,
      dc_Reserved = gdc_reserved x, dc_ProxyPort = gdc_proxy_port x,
      dc_ExcludedPidCount = gdc_excluded_pid_count x,
      dc_ExcludedPids = gdc_excluded_pids x\<rparr>"

interpretation client_dns_config: mirrored enc_dns_config rd_dns_config wf_dns_config
  sizeof_GUARDIAN_DNS_CONFIG_V1
  client_dns_config_as_bytes read_client_dns_config wf_client_dns_config
  size_of_GuardianDnsConfigV1 c_client_dns_config
proof
  fix bs r and x :: GuardianDnsConfigV1
  show "read_client_dns_config bs = Some (x, r) \<longleftrightarrow> wf_client_dns_config x \<and> bs = client_dns_config_as_bytes x @ r"
    by (cases x) (auto simp: read_client_dns_config_def wf_client_dns_config_def client_dns_config_as_bytes_def
        bind_eq_Some_conv reader_iff)
  show "wf_client_dns_config x \<Longrightarrow> length (client_dns_config_as_bytes x) = size_of_GuardianDnsConfigV1"
    by (simp add: client_dns_config_as_bytes_def wf_client_dns_config_def size_of_GuardianDnsConfigV1_def)
  show "read_client_dns_config bs = None \<longleftrightarrow> length bs < size_of_GuardianDnsConfigV1"
    unfolding read_client_dns_config_def size_of_GuardianDnsConfigV1_def
    by (intro struct_none) (simp_all add: reader_none)
  show "wf_dns_config (c_client_dns_config x) \<longleftrightarrow> wf_client_dns_config x"
    by (simp add: c_client_dns_config_def wf_dns_config_def wf_client_dns_config_def client_sizes)
  show "enc_dns_config (c_client_dns_config x) = client_dns_config_as_bytes x"
    by (simp add: c_client_dns_config_def enc_dns_config_def client_dns_config_as_bytes_def)
  show "size_of_GuardianDnsConfigV1 = sizeof_GUARDIAN_DNS_CONFIG_V1"
    by (simp add: size_of_GuardianDnsConfigV1_def structure_sizes client_sizes)
qed

section \<open>GuardianStateBlobHeaderV1\<close>

record GuardianStateBlobHeaderV1 =
  gsb_version :: u32
  gsb_policy_count :: u32
  gsb_route_count :: u32
  gsb_kill_switch_mode :: u32
  gsb_recovery_generation :: u32
  gsb_reserved :: u32

definition wf_client_state_blob :: "GuardianStateBlobHeaderV1 \<Rightarrow> bool" where
  "wf_client_state_blob x \<longleftrightarrow>
     True"

definition client_state_blob_as_bytes :: "GuardianStateBlobHeaderV1 \<Rightarrow> bytes" where
  "client_state_blob_as_bytes x =
     le_bytes 4 (gsb_version x) @ le_bytes 4 (gsb_policy_count x) @
     le_bytes 4 (gsb_route_count x) @ le_bytes 4 (gsb_kill_switch_mode x) @
     le_bytes 4 (gsb_recovery_generation x) @ le_bytes 4 (gsb_reserved x)"

definition read_client_state_blob :: "bytes \<Rightarrow> (GuardianStateBlobHeaderV1 \<times> bytes) option" where
  "read_client_state_blob b = do {
     (version, b) \<leftarrow> rd_u32 b;
     (policy_count, b) \<leftarrow> rd_u32 b;
     (route_count, b) \<leftarrow> rd_u32 b;
     (kill_switch_mode, b) \<leftarrow> rd_u32 b;
     (recovery_generation, b) \<leftarrow> rd_u32 b;
     (reserved, b) \<leftarrow> rd_u32 b;
     Some (\<lparr>gsb_version = version, gsb_policy_count = policy_count,
            gsb_route_count = route_count, gsb_kill_switch_mode = kill_switch_mode,
            gsb_recovery_generation = recovery_generation, gsb_reserved = reserved\<rparr>, b) }"

definition size_of_GuardianStateBlobHeaderV1 :: nat where
  "size_of_GuardianStateBlobHeaderV1 =
     4 + (4 + (4 + (4 + (4 + (4)))))"

definition c_client_state_blob :: "GuardianStateBlobHeaderV1 \<Rightarrow> GUARDIAN_STATE_BLOB_HEADER_V1" where
  "c_client_state_blob x =
     \<lparr>sb_Version = gsb_version x, sb_PolicyCount = gsb_policy_count x,
      sb_RouteCount = gsb_route_count x, sb_KillSwitchMode = gsb_kill_switch_mode x,
      sb_RecoveryGeneration = gsb_recovery_generation x,
      sb_Reserved = gsb_reserved x\<rparr>"

interpretation client_state_blob: mirrored enc_state_blob rd_state_blob wf_state_blob
  sizeof_GUARDIAN_STATE_BLOB_HEADER_V1
  client_state_blob_as_bytes read_client_state_blob wf_client_state_blob
  size_of_GuardianStateBlobHeaderV1 c_client_state_blob
proof
  fix bs r and x :: GuardianStateBlobHeaderV1
  show "read_client_state_blob bs = Some (x, r) \<longleftrightarrow> wf_client_state_blob x \<and> bs = client_state_blob_as_bytes x @ r"
    by (cases x) (auto simp: read_client_state_blob_def wf_client_state_blob_def client_state_blob_as_bytes_def
        bind_eq_Some_conv reader_iff)
  show "wf_client_state_blob x \<Longrightarrow> length (client_state_blob_as_bytes x) = size_of_GuardianStateBlobHeaderV1"
    by (simp add: client_state_blob_as_bytes_def wf_client_state_blob_def size_of_GuardianStateBlobHeaderV1_def)
  show "read_client_state_blob bs = None \<longleftrightarrow> length bs < size_of_GuardianStateBlobHeaderV1"
    unfolding read_client_state_blob_def size_of_GuardianStateBlobHeaderV1_def
    by (intro struct_none) (simp_all add: reader_none)
  show "wf_state_blob (c_client_state_blob x) \<longleftrightarrow> wf_client_state_blob x"
    by (simp add: c_client_state_blob_def wf_state_blob_def wf_client_state_blob_def client_sizes)
  show "enc_state_blob (c_client_state_blob x) = client_state_blob_as_bytes x"
    by (simp add: c_client_state_blob_def enc_state_blob_def client_state_blob_as_bytes_def)
  show "size_of_GuardianStateBlobHeaderV1 = sizeof_GUARDIAN_STATE_BLOB_HEADER_V1"
    by (simp add: size_of_GuardianStateBlobHeaderV1_def structure_sizes client_sizes)
qed

section \<open>GuardianReconcileResponseV1\<close>

record GuardianReconcileResponseV1 =
  grr_version :: u32
  grr_removed_orphans :: u32
  grr_recovery_generation :: u32
  grr_recovery_status :: u32

definition wf_client_reconcile :: "GuardianReconcileResponseV1 \<Rightarrow> bool" where
  "wf_client_reconcile x \<longleftrightarrow>
     True"

definition client_reconcile_as_bytes :: "GuardianReconcileResponseV1 \<Rightarrow> bytes" where
  "client_reconcile_as_bytes x =
     le_bytes 4 (grr_version x) @ le_bytes 4 (grr_removed_orphans x) @
     le_bytes 4 (grr_recovery_generation x) @ le_bytes 4 (grr_recovery_status x)"

definition read_client_reconcile :: "bytes \<Rightarrow> (GuardianReconcileResponseV1 \<times> bytes) option" where
  "read_client_reconcile b = do {
     (version, b) \<leftarrow> rd_u32 b;
     (removed_orphans, b) \<leftarrow> rd_u32 b;
     (recovery_generation, b) \<leftarrow> rd_u32 b;
     (recovery_status, b) \<leftarrow> rd_u32 b;
     Some (\<lparr>grr_version = version, grr_removed_orphans = removed_orphans,
            grr_recovery_generation = recovery_generation,
            grr_recovery_status = recovery_status\<rparr>, b) }"

definition size_of_GuardianReconcileResponseV1 :: nat where
  "size_of_GuardianReconcileResponseV1 =
     4 + (4 + (4 + (4)))"

definition c_client_reconcile :: "GuardianReconcileResponseV1 \<Rightarrow> GUARDIAN_RECONCILE_RESPONSE_V1" where
  "c_client_reconcile x =
     \<lparr>rr_Version = grr_version x, rr_RemovedOrphans = grr_removed_orphans x,
      rr_RecoveryGeneration = grr_recovery_generation x,
      rr_RecoveryStatus = grr_recovery_status x\<rparr>"

interpretation client_reconcile: mirrored enc_reconcile_response rd_reconcile_response wf_reconcile_response
  sizeof_GUARDIAN_RECONCILE_RESPONSE_V1
  client_reconcile_as_bytes read_client_reconcile wf_client_reconcile
  size_of_GuardianReconcileResponseV1 c_client_reconcile
proof
  fix bs r and x :: GuardianReconcileResponseV1
  show "read_client_reconcile bs = Some (x, r) \<longleftrightarrow> wf_client_reconcile x \<and> bs = client_reconcile_as_bytes x @ r"
    by (cases x) (auto simp: read_client_reconcile_def wf_client_reconcile_def client_reconcile_as_bytes_def
        bind_eq_Some_conv reader_iff)
  show "wf_client_reconcile x \<Longrightarrow> length (client_reconcile_as_bytes x) = size_of_GuardianReconcileResponseV1"
    by (simp add: client_reconcile_as_bytes_def wf_client_reconcile_def size_of_GuardianReconcileResponseV1_def)
  show "read_client_reconcile bs = None \<longleftrightarrow> length bs < size_of_GuardianReconcileResponseV1"
    unfolding read_client_reconcile_def size_of_GuardianReconcileResponseV1_def
    by (intro struct_none) (simp_all add: reader_none)
  show "wf_reconcile_response (c_client_reconcile x) \<longleftrightarrow> wf_client_reconcile x"
    by (simp add: c_client_reconcile_def wf_reconcile_response_def wf_client_reconcile_def client_sizes)
  show "enc_reconcile_response (c_client_reconcile x) = client_reconcile_as_bytes x"
    by (simp add: c_client_reconcile_def enc_reconcile_response_def client_reconcile_as_bytes_def)
  show "size_of_GuardianReconcileResponseV1 = sizeof_GUARDIAN_RECONCILE_RESPONSE_V1"
    by (simp add: size_of_GuardianReconcileResponseV1_def structure_sizes client_sizes)
qed

section \<open>GuardianRouteAssignmentV2\<close>

record GuardianRouteAssignmentV2 =
  gr2_version :: u32
  gr2_app_id :: bytes
  gr2_route_kind :: u32
  gr2_profile_id :: u64
  gr2_interface_luid :: u64
  gr2_socks_port :: u16
  gr2_reserved :: bytes
  gr2_mixnet_profile_id :: u64
  gr2_transform_profile :: u32
  gr2_reserved2 :: bytes

definition wf_client_route_v2 :: "GuardianRouteAssignmentV2 \<Rightarrow> bool" where
  "wf_client_route_v2 x \<longleftrightarrow>
     length (gr2_app_id x) = 16 \<and>
     length (gr2_reserved x) = 6 \<and>
     length (gr2_reserved2 x) = 4"

definition client_route_v2_as_bytes :: "GuardianRouteAssignmentV2 \<Rightarrow> bytes" where
  "client_route_v2_as_bytes x =
     le_bytes 4 (gr2_version x) @ gr2_app_id x @ le_bytes 4 (gr2_route_kind x) @
     le_bytes 8 (gr2_profile_id x) @ le_bytes 8 (gr2_interface_luid x) @
     le_bytes 2 (gr2_socks_port x) @ gr2_reserved x @ le_bytes 8 (gr2_mixnet_profile_id x) @
     le_bytes 4 (gr2_transform_profile x) @ gr2_reserved2 x"

definition read_client_route_v2 :: "bytes \<Rightarrow> (GuardianRouteAssignmentV2 \<times> bytes) option" where
  "read_client_route_v2 b = do {
     (version, b) \<leftarrow> rd_u32 b;
     (app_id, b) \<leftarrow> rd_bytes 16 b;
     (route_kind, b) \<leftarrow> rd_u32 b;
     (profile_id, b) \<leftarrow> rd_u64 b;
     (interface_luid, b) \<leftarrow> rd_u64 b;
     (socks_port, b) \<leftarrow> rd_u16 b;
     (reserved, b) \<leftarrow> rd_bytes 6 b;
     (mixnet_profile_id, b) \<leftarrow> rd_u64 b;
     (transform_profile, b) \<leftarrow> rd_u32 b;
     (reserved2, b) \<leftarrow> rd_bytes 4 b;
     Some (\<lparr>gr2_version = version, gr2_app_id = app_id, gr2_route_kind = route_kind,
            gr2_profile_id = profile_id, gr2_interface_luid = interface_luid,
            gr2_socks_port = socks_port, gr2_reserved = reserved,
            gr2_mixnet_profile_id = mixnet_profile_id,
            gr2_transform_profile = transform_profile, gr2_reserved2 = reserved2\<rparr>, b) }"

definition size_of_GuardianRouteAssignmentV2 :: nat where
  "size_of_GuardianRouteAssignmentV2 =
     4 + (16 + (4 + (8 + (8 + (2 + (6 + (8 + (4 + (4)))))))))"

definition c_client_route_v2 :: "GuardianRouteAssignmentV2 \<Rightarrow> GUARDIAN_ROUTE_ASSIGNMENT_V2" where
  "c_client_route_v2 x =
     \<lparr>ra2_Version = gr2_version x, ra2_AppId = gr2_app_id x,
      ra2_RouteKind = gr2_route_kind x, ra2_ProfileId = gr2_profile_id x,
      ra2_InterfaceLuid = gr2_interface_luid x, ra2_SocksPort = gr2_socks_port x,
      ra2_Reserved = gr2_reserved x, ra2_MixnetProfileId = gr2_mixnet_profile_id x,
      ra2_TransformProfile = gr2_transform_profile x,
      ra2_Reserved2 = gr2_reserved2 x\<rparr>"

interpretation client_route_v2: mirrored enc_route_v2 rd_route_v2 wf_route_v2
  sizeof_GUARDIAN_ROUTE_ASSIGNMENT_V2
  client_route_v2_as_bytes read_client_route_v2 wf_client_route_v2
  size_of_GuardianRouteAssignmentV2 c_client_route_v2
proof
  fix bs r and x :: GuardianRouteAssignmentV2
  show "read_client_route_v2 bs = Some (x, r) \<longleftrightarrow> wf_client_route_v2 x \<and> bs = client_route_v2_as_bytes x @ r"
    by (cases x) (auto simp: read_client_route_v2_def wf_client_route_v2_def client_route_v2_as_bytes_def
        bind_eq_Some_conv reader_iff)
  show "wf_client_route_v2 x \<Longrightarrow> length (client_route_v2_as_bytes x) = size_of_GuardianRouteAssignmentV2"
    by (simp add: client_route_v2_as_bytes_def wf_client_route_v2_def size_of_GuardianRouteAssignmentV2_def)
  show "read_client_route_v2 bs = None \<longleftrightarrow> length bs < size_of_GuardianRouteAssignmentV2"
    unfolding read_client_route_v2_def size_of_GuardianRouteAssignmentV2_def
    by (intro struct_none) (simp_all add: reader_none)
  show "wf_route_v2 (c_client_route_v2 x) \<longleftrightarrow> wf_client_route_v2 x"
    by (simp add: c_client_route_v2_def wf_route_v2_def wf_client_route_v2_def client_sizes)
  show "enc_route_v2 (c_client_route_v2 x) = client_route_v2_as_bytes x"
    by (simp add: c_client_route_v2_def enc_route_v2_def client_route_v2_as_bytes_def)
  show "size_of_GuardianRouteAssignmentV2 = sizeof_GUARDIAN_ROUTE_ASSIGNMENT_V2"
    by (simp add: size_of_GuardianRouteAssignmentV2_def structure_sizes client_sizes)
qed

section \<open>GuardianDnsStatsV1\<close>

record GuardianDnsStatsV1 =
  gns_version :: u32
  gns_observed_v4 :: u64
  gns_observed_v6 :: u64
  gns_skipped_loopback :: u64
  gns_skipped_excluded :: u64
  gns_skipped_disabled :: u64
  gns_errors :: u64

definition wf_client_dns_stats :: "GuardianDnsStatsV1 \<Rightarrow> bool" where
  "wf_client_dns_stats x \<longleftrightarrow>
     True"

definition client_dns_stats_as_bytes :: "GuardianDnsStatsV1 \<Rightarrow> bytes" where
  "client_dns_stats_as_bytes x =
     le_bytes 4 (gns_version x) @ le_bytes 8 (gns_observed_v4 x) @
     le_bytes 8 (gns_observed_v6 x) @ le_bytes 8 (gns_skipped_loopback x) @
     le_bytes 8 (gns_skipped_excluded x) @ le_bytes 8 (gns_skipped_disabled x) @
     le_bytes 8 (gns_errors x)"

definition read_client_dns_stats :: "bytes \<Rightarrow> (GuardianDnsStatsV1 \<times> bytes) option" where
  "read_client_dns_stats b = do {
     (version, b) \<leftarrow> rd_u32 b;
     (observed_v4, b) \<leftarrow> rd_u64 b;
     (observed_v6, b) \<leftarrow> rd_u64 b;
     (skipped_loopback, b) \<leftarrow> rd_u64 b;
     (skipped_excluded, b) \<leftarrow> rd_u64 b;
     (skipped_disabled, b) \<leftarrow> rd_u64 b;
     (errors, b) \<leftarrow> rd_u64 b;
     Some (\<lparr>gns_version = version, gns_observed_v4 = observed_v4,
            gns_observed_v6 = observed_v6, gns_skipped_loopback = skipped_loopback,
            gns_skipped_excluded = skipped_excluded, gns_skipped_disabled = skipped_disabled,
            gns_errors = errors\<rparr>, b) }"

definition size_of_GuardianDnsStatsV1 :: nat where
  "size_of_GuardianDnsStatsV1 =
     4 + (8 + (8 + (8 + (8 + (8 + (8))))))"

definition c_client_dns_stats :: "GuardianDnsStatsV1 \<Rightarrow> GUARDIAN_DNS_STATS_V1" where
  "c_client_dns_stats x =
     \<lparr>dn_Version = gns_version x, dn_ObservedV4 = gns_observed_v4 x,
      dn_ObservedV6 = gns_observed_v6 x, dn_SkippedLoopback = gns_skipped_loopback x,
      dn_SkippedExcluded = gns_skipped_excluded x,
      dn_SkippedDisabled = gns_skipped_disabled x, dn_Errors = gns_errors x\<rparr>"

interpretation client_dns_stats: mirrored enc_dns_stats rd_dns_stats wf_dns_stats
  sizeof_GUARDIAN_DNS_STATS_V1
  client_dns_stats_as_bytes read_client_dns_stats wf_client_dns_stats
  size_of_GuardianDnsStatsV1 c_client_dns_stats
proof
  fix bs r and x :: GuardianDnsStatsV1
  show "read_client_dns_stats bs = Some (x, r) \<longleftrightarrow> wf_client_dns_stats x \<and> bs = client_dns_stats_as_bytes x @ r"
    by (cases x) (auto simp: read_client_dns_stats_def wf_client_dns_stats_def client_dns_stats_as_bytes_def
        bind_eq_Some_conv reader_iff)
  show "wf_client_dns_stats x \<Longrightarrow> length (client_dns_stats_as_bytes x) = size_of_GuardianDnsStatsV1"
    by (simp add: client_dns_stats_as_bytes_def wf_client_dns_stats_def size_of_GuardianDnsStatsV1_def)
  show "read_client_dns_stats bs = None \<longleftrightarrow> length bs < size_of_GuardianDnsStatsV1"
    unfolding read_client_dns_stats_def size_of_GuardianDnsStatsV1_def
    by (intro struct_none) (simp_all add: reader_none)
  show "wf_dns_stats (c_client_dns_stats x) \<longleftrightarrow> wf_client_dns_stats x"
    by (simp add: c_client_dns_stats_def wf_dns_stats_def wf_client_dns_stats_def client_sizes)
  show "enc_dns_stats (c_client_dns_stats x) = client_dns_stats_as_bytes x"
    by (simp add: c_client_dns_stats_def enc_dns_stats_def client_dns_stats_as_bytes_def)
  show "size_of_GuardianDnsStatsV1 = sizeof_GUARDIAN_DNS_STATS_V1"
    by (simp add: size_of_GuardianDnsStatsV1_def structure_sizes client_sizes)
qed

section \<open>GuardianMessageHeader\<close>

record GuardianMessageHeader =
  gmh_version :: u32
  gmh_message_type :: u32
  gmh_payload_bytes :: u32
  gmh_sequence_id :: u32
  gmh_request_id :: u64

definition wf_client_message_header :: "GuardianMessageHeader \<Rightarrow> bool" where
  "wf_client_message_header x \<longleftrightarrow>
     True"

definition client_message_header_as_bytes :: "GuardianMessageHeader \<Rightarrow> bytes" where
  "client_message_header_as_bytes x =
     le_bytes 4 (gmh_version x) @ le_bytes 4 (gmh_message_type x) @
     le_bytes 4 (gmh_payload_bytes x) @ le_bytes 4 (gmh_sequence_id x) @
     le_bytes 8 (gmh_request_id x)"

definition read_client_message_header :: "bytes \<Rightarrow> (GuardianMessageHeader \<times> bytes) option" where
  "read_client_message_header b = do {
     (version, b) \<leftarrow> rd_u32 b;
     (message_type, b) \<leftarrow> rd_u32 b;
     (payload_bytes, b) \<leftarrow> rd_u32 b;
     (sequence_id, b) \<leftarrow> rd_u32 b;
     (request_id, b) \<leftarrow> rd_u64 b;
     Some (\<lparr>gmh_version = version, gmh_message_type = message_type,
            gmh_payload_bytes = payload_bytes, gmh_sequence_id = sequence_id,
            gmh_request_id = request_id\<rparr>, b) }"

definition size_of_GuardianMessageHeader :: nat where
  "size_of_GuardianMessageHeader =
     4 + (4 + (4 + (4 + (8))))"

definition c_client_message_header :: "GuardianMessageHeader \<Rightarrow> GUARDIAN_MESSAGE_HEADER" where
  "c_client_message_header x =
     \<lparr>mh_Version = gmh_version x, mh_MessageType = gmh_message_type x,
      mh_PayloadBytes = gmh_payload_bytes x, mh_SequenceId = gmh_sequence_id x,
      mh_RequestId = gmh_request_id x\<rparr>"

interpretation client_message_header: mirrored enc_message_header rd_message_header wf_message_header
  sizeof_GUARDIAN_MESSAGE_HEADER
  client_message_header_as_bytes read_client_message_header wf_client_message_header
  size_of_GuardianMessageHeader c_client_message_header
proof
  fix bs r and x :: GuardianMessageHeader
  show "read_client_message_header bs = Some (x, r) \<longleftrightarrow> wf_client_message_header x \<and> bs = client_message_header_as_bytes x @ r"
    by (cases x) (auto simp: read_client_message_header_def wf_client_message_header_def client_message_header_as_bytes_def
        bind_eq_Some_conv reader_iff)
  show "wf_client_message_header x \<Longrightarrow> length (client_message_header_as_bytes x) = size_of_GuardianMessageHeader"
    by (simp add: client_message_header_as_bytes_def wf_client_message_header_def size_of_GuardianMessageHeader_def)
  show "read_client_message_header bs = None \<longleftrightarrow> length bs < size_of_GuardianMessageHeader"
    unfolding read_client_message_header_def size_of_GuardianMessageHeader_def
    by (intro struct_none) (simp_all add: reader_none)
  show "wf_message_header (c_client_message_header x) \<longleftrightarrow> wf_client_message_header x"
    by (simp add: c_client_message_header_def wf_message_header_def wf_client_message_header_def client_sizes)
  show "enc_message_header (c_client_message_header x) = client_message_header_as_bytes x"
    by (simp add: c_client_message_header_def enc_message_header_def client_message_header_as_bytes_def)
  show "size_of_GuardianMessageHeader = sizeof_GUARDIAN_MESSAGE_HEADER"
    by (simp add: size_of_GuardianMessageHeader_def structure_sizes client_sizes)
qed

section \<open>Properties\<close>

text \<open>
  C38: The protocol of the user-space client is that of the driver: every control code has the
  same value, and every structure that they exchange has the same bytes on both sides, so that
  what the client sends is read by the driver as the corresponding structure, and what the
  driver writes is read by the client as the corresponding one, on every input, the short ones
  too.
\<close>

theorem client_structures_mirror_the_driver:
  "client_code x = ioctl_code x \<and>
   rd_app_policy b = map_option (\<lambda>(p, r). (c_client_policy p, r)) (read_client_policy b) \<and>
   enc_app_policy (c_client_policy p) = client_policy_as_bytes p \<and>
   rd_route b = map_option (\<lambda>(p, r). (c_client_route p, r)) (read_client_route b) \<and>
   enc_route (c_client_route a) = client_route_as_bytes a \<and>
   rd_kill_switch b = map_option (\<lambda>(p, r). (c_client_kill_switch p, r)) (read_client_kill_switch b) \<and>
   enc_kill_switch (c_client_kill_switch k) = client_kill_switch_as_bytes k \<and>
   rd_dns_config b = map_option (\<lambda>(p, r). (c_client_dns_config p, r)) (read_client_dns_config b) \<and>
   enc_dns_config (c_client_dns_config d) = client_dns_config_as_bytes d \<and>
   rd_driver_state b = map_option (\<lambda>(p, r). (c_client_driver_state p, r)) (read_client_driver_state b) \<and>
   rd_telemetry b = map_option (\<lambda>(p, r). (c_client_telemetry p, r)) (read_client_telemetry b) \<and>
   rd_perf_stats b = map_option (\<lambda>(p, r). (c_client_perf_stats p, r)) (read_client_perf_stats b) \<and>
   rd_state_blob b = map_option (\<lambda>(p, r). (c_client_state_blob p, r)) (read_client_state_blob b) \<and>
   rd_reconcile_response b =
     map_option (\<lambda>(p, r). (c_client_reconcile p, r)) (read_client_reconcile b) \<and>
   rd_route_v2 b = map_option (\<lambda>(p, r). (c_client_route_v2 p, r)) (read_client_route_v2 b) \<and>
   rd_dns_stats b = map_option (\<lambda>(p, r). (c_client_dns_stats p, r)) (read_client_dns_stats b) \<and>
   rd_message_header b =
     map_option (\<lambda>(p, r). (c_client_message_header p, r)) (read_client_message_header b)"
  by (simp add: client_code_mirrors client_policy.read_mirrors client_policy.enc_to_c
      client_route.read_mirrors client_route.enc_to_c client_kill_switch.read_mirrors
      client_kill_switch.enc_to_c client_dns_config.read_mirrors client_dns_config.enc_to_c
      client_driver_state.read_mirrors client_telemetry.read_mirrors client_perf_stats.read_mirrors
      client_state_blob.read_mirrors client_reconcile.read_mirrors client_route_v2.read_mirrors
      client_dns_stats.read_mirrors client_message_header.read_mirrors)

end
