(* ===== verification/Client_Values.thy ===== *)
theory Client_Values
  imports Client_Types
begin

text \<open>
  The rest of usermode/controller/src/types.rs: the enumerations with the numbers of their variants,
  the conversion of a path to UTF-16 in the fixed buffer of a policy, and the constructors of the
  structures that the client sends. An application id is the 16 bytes that Uuid::as\_bytes returns.
\<close>

section \<open>Enumerations\<close>

datatype GuardianMode = GuardianMode_Wfp | GuardianMode_Ndis | GuardianMode_Hybrid

fun mode_as_u32 :: "GuardianMode \<Rightarrow> u32" where
  "mode_as_u32 GuardianMode_Wfp = 0"
| "mode_as_u32 GuardianMode_Ndis = 1"
| "mode_as_u32 GuardianMode_Hybrid = 2"

definition GuardianMode_from_u32 :: "u32 \<Rightarrow> GuardianMode option" where
  "GuardianMode_from_u32 value =
     (if value = 0 then Some GuardianMode_Wfp
      else if value = 1 then Some GuardianMode_Ndis
      else if value = 2 then Some GuardianMode_Hybrid
      else None)"

definition GuardianDriverStateV1_mode :: "GuardianDriverStateV1 \<Rightarrow> GuardianMode option" where
  "GuardianDriverStateV1_mode d = GuardianMode_from_u32 (gds_guardian_mode d)"

datatype GuardianPolicyAction =
  PolicyAction_Allow | PolicyAction_Block | PolicyAction_Route | PolicyAction_Observe

fun policy_action_as_u32 :: "GuardianPolicyAction \<Rightarrow> u32" where
  "policy_action_as_u32 PolicyAction_Allow = 0"
| "policy_action_as_u32 PolicyAction_Block = 1"
| "policy_action_as_u32 PolicyAction_Route = 2"
| "policy_action_as_u32 PolicyAction_Observe = 3"

datatype GuardianPolicyMatchKind =
  MatchKind_None | MatchKind_ProcessPath | MatchKind_ExeHash | MatchKind_Sid
| MatchKind_PackageFamily

fun match_kind_as_u32 :: "GuardianPolicyMatchKind \<Rightarrow> u32" where
  "match_kind_as_u32 MatchKind_None = 0"
| "match_kind_as_u32 MatchKind_ProcessPath = 1"
| "match_kind_as_u32 MatchKind_ExeHash = 2"
| "match_kind_as_u32 MatchKind_Sid = 3"
| "match_kind_as_u32 MatchKind_PackageFamily = 4"

datatype GuardianRouteKind =
  RouteKind_Direct | RouteKind_Vpn | RouteKind_Tailnet | RouteKind_Tor | RouteKind_Anonymous
| RouteKind_Blocked | RouteKind_Proxy | RouteKind_Chain | RouteKind_Katzenpost | RouteKind_Loopix
| RouteKind_FederatedMixnet

fun route_kind_as_u32 :: "GuardianRouteKind \<Rightarrow> u32" where
  "route_kind_as_u32 RouteKind_Direct = 0"
| "route_kind_as_u32 RouteKind_Vpn = 1"
| "route_kind_as_u32 RouteKind_Tailnet = 2"
| "route_kind_as_u32 RouteKind_Tor = 3"
| "route_kind_as_u32 RouteKind_Anonymous = 4"
| "route_kind_as_u32 RouteKind_Blocked = 5"
| "route_kind_as_u32 RouteKind_Proxy = 6"
| "route_kind_as_u32 RouteKind_Chain = 7"
| "route_kind_as_u32 RouteKind_Katzenpost = 8"
| "route_kind_as_u32 RouteKind_Loopix = 9"
| "route_kind_as_u32 RouteKind_FederatedMixnet = 10"

datatype GuardianKillSwitchMode =
  KillSwitchMode_Off | KillSwitchMode_BlockAll | KillSwitchMode_AllowVpnOnly
| KillSwitchMode_Restore

fun kill_switch_mode_as_u32 :: "GuardianKillSwitchMode \<Rightarrow> u32" where
  "kill_switch_mode_as_u32 KillSwitchMode_Off = 0"
| "kill_switch_mode_as_u32 KillSwitchMode_BlockAll = 1"
| "kill_switch_mode_as_u32 KillSwitchMode_AllowVpnOnly = 2"
| "kill_switch_mode_as_u32 KillSwitchMode_Restore = 3"

datatype GuardianLifecycleState =
  LifecycleState_Stopped | LifecycleState_Starting | LifecycleState_Running
| LifecycleState_Recovering | LifecycleState_Failed

fun lifecycle_state_as_u32 :: "GuardianLifecycleState \<Rightarrow> u32" where
  "lifecycle_state_as_u32 LifecycleState_Stopped = 0"
| "lifecycle_state_as_u32 LifecycleState_Starting = 1"
| "lifecycle_state_as_u32 LifecycleState_Running = 2"
| "lifecycle_state_as_u32 LifecycleState_Recovering = 3"
| "lifecycle_state_as_u32 LifecycleState_Failed = 4"

text \<open>The type of a message (protocol.rs).\<close>

datatype GuardianMessageType =
  MessageType_GetDriverState | MessageType_SetAppPolicy | MessageType_SyncPolicies
| MessageType_SetRoute | MessageType_ClearRoute | MessageType_SyncRoutes
| MessageType_SetKillSwitch | MessageType_GetTelemetry | MessageType_ExportState
| MessageType_ImportState | MessageType_Reconcile | MessageType_DnsSetConfig
| MessageType_GetPerfStats | MessageType_GetDnsStats

fun message_type_as_u32 :: "GuardianMessageType \<Rightarrow> u32" where
  "message_type_as_u32 MessageType_GetDriverState = 1"
| "message_type_as_u32 MessageType_SetAppPolicy = 2"
| "message_type_as_u32 MessageType_SyncPolicies = 3"
| "message_type_as_u32 MessageType_SetRoute = 4"
| "message_type_as_u32 MessageType_ClearRoute = 5"
| "message_type_as_u32 MessageType_SyncRoutes = 6"
| "message_type_as_u32 MessageType_SetKillSwitch = 7"
| "message_type_as_u32 MessageType_GetTelemetry = 8"
| "message_type_as_u32 MessageType_ExportState = 9"
| "message_type_as_u32 MessageType_ImportState = 10"
| "message_type_as_u32 MessageType_Reconcile = 11"
| "message_type_as_u32 MessageType_DnsSetConfig = 12"
| "message_type_as_u32 MessageType_GetPerfStats = 13"
| "message_type_as_u32 MessageType_GetDnsStats = 14"

section \<open>Paths\<close>

text \<open>
  A path is the list of its Unicode scalar values. encode\_utf16 gives one unit for a scalar value of
  the basic plane and a surrogate pair for another; the buffer takes the first 520 units.
\<close>

definition encode_utf16 :: "u32 list \<Rightarrow> u16 list" where
  "encode_utf16 path = concat (map (\<lambda>c.
     if c < 0x10000 then [ucast c]
     else [0xD800 OR ucast (drop_bit 10 (c - 0x10000)),
           0xDC00 OR (ucast (c - 0x10000) AND 0x3FF)]) path)"

definition wide_path_bytes :: "u32 list \<Rightarrow> u16 list \<times> u32" where
  "wide_path_bytes path =
     (let buf = replicate CLIENT_MAX_EXE_PATH_CHARS 0;
          units = encode_utf16 path;
          len = min (length units) CLIENT_MAX_EXE_PATH_CHARS
      in (take len units @ drop len buf, of_nat len))"

section \<open>Constructors\<close>

definition new_block :: "bytes \<Rightarrow> u32 list \<Rightarrow> GuardianAppPolicyV1" where
  "new_block app_id exe_path =
     (let (exe_path_buf, len) = wide_path_bytes exe_path
      in \<lparr>gap_version = 1, gap_app_id = app_id, gap_action = policy_action_as_u32 PolicyAction_Block,
          gap_match_kind = match_kind_as_u32 MatchKind_ProcessPath,
          gap_exe_path_length_chars = len, gap_exe_path = exe_path_buf,
          gap_exe_hash_sha256 = replicate CLIENT_SHA256_BYTES 0, gap_sid_length_bytes = 0,
          gap_sid_bytes = replicate CLIENT_MAX_SID_BYTES 0,
          gap_package_family_name = replicate CLIENT_MAX_PACKAGE_FAMILY_CHARS 0,
          gap_profile_id = 0, gap_interface_luid = 0\<rparr>)"

definition new_vpn :: "bytes \<Rightarrow> u64 \<Rightarrow> u64 \<Rightarrow> GuardianRouteAssignmentV1" where
  "new_vpn app_id profile_id interface_luid =
     \<lparr>gra_version = 1, gra_app_id = app_id, gra_route_kind = route_kind_as_u32 RouteKind_Vpn,
      gra_profile_id = profile_id, gra_interface_luid = interface_luid, gra_socks_port = 0,
      gra_reserved = replicate 6 0\<rparr>"

definition new_proxy :: "bytes \<Rightarrow> u64 \<Rightarrow> u16 \<Rightarrow> GuardianRouteAssignmentV1" where
  "new_proxy app_id profile_id socks_port =
     \<lparr>gra_version = 1, gra_app_id = app_id, gra_route_kind = route_kind_as_u32 RouteKind_Proxy,
      gra_profile_id = profile_id, gra_interface_luid = 0, gra_socks_port = socks_port,
      gra_reserved = replicate 6 0\<rparr>"

definition new_proxy_chain :: "bytes \<Rightarrow> u64 \<Rightarrow> u16 \<Rightarrow> GuardianRouteAssignmentV1" where
  "new_proxy_chain app_id chain_id socks_port =
     \<lparr>gra_version = 1, gra_app_id = app_id, gra_route_kind = route_kind_as_u32 RouteKind_Chain,
      gra_profile_id = chain_id, gra_interface_luid = 0, gra_socks_port = socks_port,
      gra_reserved = replicate 6 0\<rparr>"

definition block_all_config :: GuardianKillSwitchV1 where
  "block_all_config =
     \<lparr>gks_version = 1, gks_mode = kill_switch_mode_as_u32 KillSwitchMode_BlockAll,
      gks_vpn_interface_luid = 0\<rparr>"

definition restore_config :: GuardianKillSwitchV1 where
  "restore_config =
     \<lparr>gks_version = 1, gks_mode = kill_switch_mode_as_u32 KillSwitchMode_Restore,
      gks_vpn_interface_luid = 0\<rparr>"

section \<open>Lemmas\<close>

lemma mode_roundtrip: "GuardianMode_from_u32 v = Some m \<longleftrightarrow> v = mode_as_u32 m"
  by (cases m) (auto simp: GuardianMode_from_u32_def)

lemma fst_wide_path:
  "fst (wide_path_bytes path) =
     take 520 (encode_utf16 path) @ replicate (520 - length (encode_utf16 path)) 0"
  by (auto simp: wide_path_bytes_def client_sizes Let_def min_def)

lemma wide_path_length:
  "snd (wide_path_bytes path) = of_nat (length (take 520 (encode_utf16 path)))"
  by (simp add: wide_path_bytes_def client_sizes Let_def min.commute)

lemma length_wide_path [simp]: "length (fst (wide_path_bytes path)) = 520"
  by (simp add: fst_wide_path)

lemma new_block_wf [simp]: "wf_client_policy (new_block app_id path) \<longleftrightarrow> length app_id = 16"
  by (simp add: wf_client_policy_def new_block_def client_sizes case_prod_unfold Let_def)

lemma new_route_wf [simp]:
  "wf_client_route (new_vpn app_id i l) \<longleftrightarrow> length app_id = 16"
  "wf_client_route (new_proxy app_id i p) \<longleftrightarrow> length app_id = 16"
  "wf_client_route (new_proxy_chain app_id i p) \<longleftrightarrow> length app_id = 16"
  by (simp_all add: wf_client_route_def new_vpn_def new_proxy_def new_proxy_chain_def)

lemma new_fields [simp]:
  "gap_version (new_block app_id path) = 1" "gap_app_id (new_block app_id path) = app_id"
  "gra_version (new_vpn app_id i l) = 1" "gra_app_id (new_vpn app_id i l) = app_id"
  by (simp_all add: new_block_def new_vpn_def case_prod_unfold Let_def)

lemma short_length: "n \<le> 520 \<Longrightarrow> unat (of_nat n :: u32) = n"
  by (simp add: unat_of_nat)

text \<open>The driver has no name for the last three kinds of route.\<close>

lemma route_kind_known:
  "enum_of route_kinds route_kind_code (route_kind_as_u32 k) = None \<longleftrightarrow>
     k \<in> {RouteKind_Katzenpost, RouteKind_Loopix, RouteKind_FederatedMixnet}"
  by (cases k) (simp_all add: enum_of_def route_kinds_def)

text \<open>
  The variants of an enumeration have, in this order, the numbers of the enumerators of the C
  enumeration; the last three kinds of route have no counterpart.
\<close>

lemma client_enumerations_mirror:
  "map mode_as_u32 [GuardianMode_Wfp, GuardianMode_Ndis, GuardianMode_Hybrid] =
     map guardian_mode_code guardian_modes"
  "map policy_action_as_u32 [PolicyAction_Allow, PolicyAction_Block, PolicyAction_Route,
     PolicyAction_Observe] =
     map policy_action_code policy_actions"
  "map match_kind_as_u32 [MatchKind_None, MatchKind_ProcessPath, MatchKind_ExeHash,
     MatchKind_Sid, MatchKind_PackageFamily] =
     map match_kind_code match_kinds"
  "map kill_switch_mode_as_u32 [KillSwitchMode_Off, KillSwitchMode_BlockAll,
     KillSwitchMode_AllowVpnOnly, KillSwitchMode_Restore] =
     map ks_mode_code ks_modes"
  "map lifecycle_state_as_u32 [LifecycleState_Stopped, LifecycleState_Starting,
     LifecycleState_Running, LifecycleState_Recovering, LifecycleState_Failed] =
     map lifecycle_code lifecycle_states"
  "map message_type_as_u32 [MessageType_GetDriverState, MessageType_SetAppPolicy,
     MessageType_SyncPolicies, MessageType_SetRoute, MessageType_ClearRoute,
     MessageType_SyncRoutes, MessageType_SetKillSwitch, MessageType_GetTelemetry,
     MessageType_ExportState, MessageType_ImportState, MessageType_Reconcile,
     MessageType_DnsSetConfig, MessageType_GetPerfStats, MessageType_GetDnsStats] =
     map message_type_code message_types"
  "map route_kind_as_u32 [RouteKind_Direct, RouteKind_Vpn, RouteKind_Tailnet, RouteKind_Tor,
     RouteKind_Anonymous, RouteKind_Blocked, RouteKind_Proxy, RouteKind_Chain] =
     map route_kind_code route_kinds"
  by (simp_all add: guardian_modes_def policy_actions_def match_kinds_def ks_modes_def
      lifecycle_states_def message_types_def route_kinds_def)

section \<open>Properties\<close>

text \<open>
  The path buffer of a policy holds the first 520 UTF-16 units of the path and their number, and the
  rest is lost: two paths give the same policy exactly when they agree on those.
\<close>

lemma long_paths_are_cut:
  "length (fst (wide_path_bytes path)) = 520 \<and> unat (snd (wide_path_bytes path)) \<le> 520 \<and>
   take (unat (snd (wide_path_bytes path))) (fst (wide_path_bytes path)) =
     take 520 (encode_utf16 path) \<and>
   (new_block app_id path = new_block app_id path' \<longleftrightarrow>
      take 520 (encode_utf16 path) = take 520 (encode_utf16 path'))"
proof -
  let ?u = "take 520 (encode_utf16 path)" and ?u' = "take 520 (encode_utf16 path')"
  have len: "unat (snd (wide_path_bytes p)) = length (take 520 (encode_utf16 p))" for p
    unfolding wide_path_length by (rule short_length) simp
  have first: "take (length xs) (xs @ ys) = xs" for xs ys :: "u16 list" by simp
  have front: "take (unat (snd (wide_path_bytes p))) (fst (wide_path_bytes p)) =
      take 520 (encode_utf16 p)" for p
    unfolding len fst_wide_path by (rule first)
  have cut: "wide_path_bytes p = wide_path_bytes p'" if "take 520 (encode_utf16 p) = take 520 (encode_utf16 p')"
    for p p'
  proof (rule prod_eqI)
    have pad: "520 - length (encode_utf16 q) = 520 - length (take 520 (encode_utf16 q))" for q by simp
    show "fst (wide_path_bytes p) = fst (wide_path_bytes p')"
      unfolding fst_wide_path pad that by (rule refl)
    show "snd (wide_path_bytes p) = snd (wide_path_bytes p')"
      unfolding wide_path_length that by (rule refl)
  qed
  have "new_block app_id path = new_block app_id path' \<longleftrightarrow> wide_path_bytes path = wide_path_bytes path'"
    by (auto simp: new_block_def case_prod_unfold prod_eq_iff Let_def)
  also have "\<dots> \<longleftrightarrow> ?u = ?u'" using cut front by metis
  finally show ?thesis using front [of path] len [of path] by simp
qed

end
