(* ===== verification/Client_Methods.thy ===== *)
theory Client_Methods
  imports Client_Values System
begin

text \<open>
  usermode/controller/src/device_impl.rs and client_impl.rs: the device handle and the methods of
  GuardianClient, each one control request. What Windows does between DeviceIoControl and the driver
  is a parameter, with the documented behaviour of METHOD\_BUFFERED as hypothesis.
\<close>

section \<open>The device (device\_impl.rs)\<close>

text \<open>
  A Windows error is its code. DeviceIoControl gets the code, the two buffers with their lengths (the
  input is None for a null pointer), and gives the byte count with the output buffer after the call or
  an error; \<open>env\<close> and the guardian are what the request meets in the kernel. A fault is the
  driver's: the machine stops.
\<close>

type_synonym windows_error = u32

type_synonym device_io_control =
  "ioctl_env \<Rightarrow> u32 \<Rightarrow> bytes option \<Rightarrow> u32 \<Rightarrow> bytes \<Rightarrow> u32 \<Rightarrow> guardian \<Rightarrow>
     fault + (windows_error + u32 \<times> bytes) \<times> guardian"

datatype GuardianError = DeviceOpenFailed | Windows windows_error | ShortRead u32 | InvalidVersion

type_synonym 'a client_result = "fault + (GuardianError + 'a) \<times> guardian"

text \<open>The operator \<open>?\<close>: an error is returned to the caller.\<close>

definition try_bind ::
  "'a client_result \<Rightarrow> ('a \<Rightarrow> guardian \<Rightarrow> 'b client_result) \<Rightarrow> 'b client_result" where
  "try_bind r k =
     bind_fault r (\<lambda>(v, s). case v of Inl e \<Rightarrow> Inr (Inl e, s) | Inr x \<Rightarrow> k x s)"

text \<open>CreateFileW gives an error or a handle; \<open>INVALID_HANDLE_VALUE\<close> is -1.\<close>

definition GuardianDevice_open :: "windows_error + u64 \<Rightarrow> GuardianError + u64" where
  "GuardianDevice_open create_file =
     (case create_file of
        Inl e \<Rightarrow> Inl (Windows e)
      | Inr handle \<Rightarrow> if handle = - 1 then Inl DeviceOpenFailed else Inr handle)"

definition GuardianDevice_ioctl ::
  "device_io_control \<Rightarrow> ioctl_env \<Rightarrow> u32 \<Rightarrow> bytes option \<Rightarrow> bytes \<Rightarrow> guardian \<Rightarrow>
     (u32 \<times> bytes) client_result" where
  "GuardianDevice_ioctl dio env code input output s =
     (let in_len = (case input of Some b \<Rightarrow> of_nat (length b) | None \<Rightarrow> 0)
      in bind_fault (dio env code input in_len output (of_nat (length output)) s)
           (\<lambda>(r, s'). Inr (case r of Inl e \<Rightarrow> Inl (Windows e) | Inr x \<Rightarrow> Inr x, s')))"

section \<open>The client's methods (client\_impl.rs)\<close>

text \<open>
  The part that the queries share: a zeroed buffer of the structure's size, the request, the test of
  the byte count, and the unaligned read of the structure from the buffer.
\<close>

definition read_struct ::
  "device_io_control \<Rightarrow> ioctl_env \<Rightarrow> u32 \<Rightarrow> nat \<Rightarrow> (bytes \<Rightarrow> ('a \<times> bytes) option) \<Rightarrow> guardian \<Rightarrow>
     'a client_result" where
  "read_struct dio env code sz rd s =
     try_bind (GuardianDevice_ioctl dio env code None (replicate sz 0) s) (\<lambda>(n, buf) s.
       if n < of_nat sz then Inr (Inl (ShortRead n), s)
       else bind_fault (read_mem (rd buf)) (\<lambda>x. Inr (Inr x, s)))"

definition GuardianClient_driver_state ::
  "device_io_control \<Rightarrow> ioctl_env \<Rightarrow> guardian \<Rightarrow> GuardianDriverStateV1 client_result" where
  "GuardianClient_driver_state dio env s =
     try_bind (read_struct dio env (client_code IOCTL_GUARDIAN_GET_DRIVER_STATE)
                 size_of_GuardianDriverStateV1 read_client_driver_state s)
       (\<lambda>state s. if gds_version state \<noteq> 1 then Inr (Inl InvalidVersion, s) else Inr (Inr state, s))"

definition GuardianClient_telemetry ::
  "device_io_control \<Rightarrow> ioctl_env \<Rightarrow> guardian \<Rightarrow> GuardianTelemetryV1 client_result" where
  "GuardianClient_telemetry dio env s =
     read_struct dio env (client_code IOCTL_GUARDIAN_GET_TELEMETRY)
       size_of_GuardianTelemetryV1 read_client_telemetry s"

definition GuardianClient_perf_stats ::
  "device_io_control \<Rightarrow> ioctl_env \<Rightarrow> guardian \<Rightarrow> GuardianPerfStatsV1 client_result" where
  "GuardianClient_perf_stats dio env s =
     read_struct dio env (client_code IOCTL_GUARDIAN_GET_PERF_STATS)
       size_of_GuardianPerfStatsV1 read_client_perf_stats s"

definition GuardianClient_reconcile ::
  "device_io_control \<Rightarrow> ioctl_env \<Rightarrow> guardian \<Rightarrow> GuardianReconcileResponseV1 client_result" where
  "GuardianClient_reconcile dio env s =
     read_struct dio env (client_code IOCTL_GUARDIAN_RECONCILE)
       size_of_GuardianReconcileResponseV1 read_client_reconcile s"

definition GuardianClient_export_state ::
  "device_io_control \<Rightarrow> ioctl_env \<Rightarrow> guardian \<Rightarrow> GuardianStateBlobHeaderV1 client_result" where
  "GuardianClient_export_state dio env s =
     read_struct dio env (client_code IOCTL_GUARDIAN_EXPORT_STATE)
       size_of_GuardianStateBlobHeaderV1 read_client_state_blob s"

text \<open>The part that the commands share: the bytes as input and an empty output buffer.\<close>

definition send_bytes ::
  "device_io_control \<Rightarrow> ioctl_env \<Rightarrow> u32 \<Rightarrow> bytes \<Rightarrow> guardian \<Rightarrow> unit client_result" where
  "send_bytes dio env code bytes s =
     try_bind (GuardianDevice_ioctl dio env code (Some bytes) [] s) (\<lambda>_ s. Inr (Inr (), s))"

definition GuardianClient_set_guardian_mode ::
  "device_io_control \<Rightarrow> ioctl_env \<Rightarrow> GuardianMode \<Rightarrow> guardian \<Rightarrow> unit client_result" where
  "GuardianClient_set_guardian_mode dio env mode s =
     send_bytes dio env (client_code IOCTL_GUARDIAN_SET_GUARDIAN_MODE) (le_bytes 4 (mode_as_u32 mode)) s"

definition GuardianClient_set_app_policy ::
  "device_io_control \<Rightarrow> ioctl_env \<Rightarrow> GuardianAppPolicyV1 \<Rightarrow> guardian \<Rightarrow> unit client_result" where
  "GuardianClient_set_app_policy dio env policy s =
     send_bytes dio env (client_code IOCTL_GUARDIAN_SET_APP_POLICY) (client_policy_as_bytes policy) s"

definition GuardianClient_set_route ::
  "device_io_control \<Rightarrow> ioctl_env \<Rightarrow> GuardianRouteAssignmentV1 \<Rightarrow> guardian \<Rightarrow> unit client_result" where
  "GuardianClient_set_route dio env route s =
     send_bytes dio env (client_code IOCTL_GUARDIAN_SET_ROUTE) (client_route_as_bytes route) s"

definition GuardianClient_clear_route ::
  "device_io_control \<Rightarrow> ioctl_env \<Rightarrow> bytes \<Rightarrow> guardian \<Rightarrow> unit client_result" where
  "GuardianClient_clear_route dio env app_id s =
     send_bytes dio env (client_code IOCTL_GUARDIAN_CLEAR_ROUTE) app_id s"

definition GuardianClient_set_kill_switch ::
  "device_io_control \<Rightarrow> ioctl_env \<Rightarrow> GuardianKillSwitchV1 \<Rightarrow> guardian \<Rightarrow> unit client_result" where
  "GuardianClient_set_kill_switch dio env config s =
     send_bytes dio env (client_code IOCTL_GUARDIAN_SET_KILL_SWITCH) (client_kill_switch_as_bytes config) s"

definition GuardianClient_dns_set_config ::
  "device_io_control \<Rightarrow> ioctl_env \<Rightarrow> GuardianDnsConfigV1 \<Rightarrow> guardian \<Rightarrow> unit client_result" where
  "GuardianClient_dns_set_config dio env config s =
     send_bytes dio env (client_code IOCTL_GUARDIAN_DNS_SET_CONFIG) (client_dns_config_as_bytes config) s"

section \<open>What Windows does in between\<close>

text \<open>
  METHOD\_BUFFERED: the driver's request has a system buffer as long as the longer of the two, with the
  input in front and unknown bytes behind it. On success the byte count that the driver reports is
  copied back from the front of the system buffer; another status becomes an error.
\<close>

definition buffered_request :: "u32 \<Rightarrow> bytes \<Rightarrow> bytes \<Rightarrow> nat \<Rightarrow> ioctl_request" where
  "buffered_request code input fill m =
     \<lparr>rq_IoControlCode = code, rq_InputBufferLength = length input, rq_OutputBufferLength = m,
      rq_SystemBuffer = input @ fill\<rparr>"

definition copied_back :: "windows_error \<Rightarrow> bytes \<Rightarrow> ioctl_completion \<Rightarrow> windows_error + u32 \<times> bytes" where
  "copied_back e output c =
     (if NT_SUCCESS (cp_Status c)
      then Inr (of_nat (cp_Information c),
                take (cp_Information c) (cp_SystemBuffer c) @ drop (cp_Information c) output)
      else Inl e)"

definition input_bytes :: "bytes option \<Rightarrow> bytes" where
  "input_bytes input = (case input of Some b \<Rightarrow> b | None \<Rightarrow> [])"

definition delivered ::
  "fault + (windows_error + u32 \<times> bytes) \<times> guardian \<Rightarrow> ioctl_env \<Rightarrow> u32 \<Rightarrow> bytes \<Rightarrow> bytes \<Rightarrow>
     guardian \<Rightarrow> bool" where
  "delivered r env code b output s \<longleftrightarrow>
     (\<exists>fill e. length fill = length output - length b \<and>
        r = bind_fault (GuardianEvtIoDeviceControl env (buffered_request code b fill (length output)) s)
              (\<lambda>(c, s'). Inr (copied_back e output c, s')))"

text \<open>A call that Windows itself refuses does not reach the driver.\<close>

definition buffered_device :: "device_io_control \<Rightarrow> bool" where
  "buffered_device dio \<longleftrightarrow>
     (\<forall>env code input n output m s.
        unat n = length (input_bytes input) \<and> unat m = length output \<longrightarrow>
        (\<exists>e. dio env code input n output m s = Inr (Inl e, s)) \<or>
        delivered (dio env code input n output m s) env code (input_bytes input) output s)"

definition accepting_device :: "device_io_control \<Rightarrow> bool" where
  "accepting_device dio \<longleftrightarrow>
     (\<forall>env code input n output m s.
        unat n = length (input_bytes input) \<and> unat m = length output \<longrightarrow>
        delivered (dio env code input n output m s) env code (input_bytes input) output s)"

text \<open>A device of this kind: zeros behind the input, every error with the code 1.\<close>

definition sample_device :: device_io_control where
  "sample_device env code input n output m s =
     (let b = input_bytes input
      in bind_fault (GuardianEvtIoDeviceControl env
             (buffered_request code b (replicate (length output - length b) 0) (length output)) s)
           (\<lambda>(c, s'). Inr (copied_back 1 output c, s')))"

lemma sample_device_accepts [simp]: "accepting_device sample_device"
proof -
  have "delivered (sample_device env code inp n out m s) env code (input_bytes inp) out s"
    for env code inp n out m s
    unfolding delivered_def sample_device_def Let_def
    by (intro exI [of _ "replicate (length out - length (input_bytes inp)) 0"] exI [of _ 1]) simp
  then show ?thesis by (simp add: accepting_device_def)
qed

lemma accepting_is_buffered: "accepting_device dio \<Longrightarrow> buffered_device dio"
  by (simp add: accepting_device_def buffered_device_def)

end
