(* ===== verification/Client_Requests.thy ===== *)
theory Client_Requests
  imports Client_Methods
begin

text \<open>
  What a method of the client does to the driver. Two contracts: a query asks for one structure and
  gets the driver's answer, a command sends one structure and has the driver run one operation on it.
  Every method of the client is an interpretation of one of them.
\<close>

section \<open>The outcome of a call\<close>

text \<open>
  The call is answered: it returns a value with the property P and the state that follows, or, when it
  need not succeed, a Windows error; the driver is running afterwards.
\<close>

definition answers :: "bool \<Rightarrow> 'a client_result \<Rightarrow> ('a \<Rightarrow> guardian \<Rightarrow> bool) \<Rightarrow> bool" where
  "answers ok r P \<longleftrightarrow>
     (\<exists>s'. running s' \<and>
        ((\<exists>x. r = Inr (Inr x, s') \<and> P x s') \<or> \<not> ok \<and> (\<exists>e. r = Inr (Inl (Windows e), s'))))"

lemma answersI: "r = Inr (Inr x, s') \<Longrightarrow> running s' \<Longrightarrow> P x s' \<Longrightarrow> answers ok r P"
  by (auto simp: answers_def)

lemma answers_error: "r = Inr (Inl (Windows e), s') \<Longrightarrow> running s' \<Longrightarrow> \<not> ok \<Longrightarrow> answers ok r P"
  by (auto simp: answers_def)

lemma answers_mono: "answers ok r P \<Longrightarrow> (\<And>x s'. P x s' \<Longrightarrow> Q x s') \<Longrightarrow> (ok' \<Longrightarrow> ok) \<Longrightarrow> answers ok' r Q"
  by (auto simp: answers_def)

text \<open>The kernel lets the caller in and finds its buffers.\<close>

definition caller_ok :: "ioctl_env \<Rightarrow> guardian \<Rightarrow> bool" where
  "caller_ok env s \<longleftrightarrow>
     NT_SUCCESS (fst (GuardianSecurityPolicyVerifyCaller (Some (en_Origin env)) (en_Sessions env)
                        (gs_AllowedServicePid s))) \<and>
     NT_SUCCESS (en_InputStatus env) \<and> NT_SUCCESS (en_OutputStatus env)"

lemma caller_ok_admitted: "caller_ok env s \<Longrightarrow> admitted env q s"
  by (simp add: caller_ok_def admitted_def)

text \<open>The state after a request that succeeded: counted, with the recorded latency.\<close>

definition counted :: "ioctl_env \<Rightarrow> guardian \<Rightarrow> guardian" where
  "counted env s = set_telemetry (GuardianPerfRecordIpc False (en_End env - en_Start env)) s"

section \<open>From the call to the handler\<close>

lemma buffered_request_simps [simp]:
  "rq_IoControlCode (buffered_request code b fill m) = code"
  "rq_InputBufferLength (buffered_request code b fill m) = length b"
  "rq_OutputBufferLength (buffered_request code b fill m) = m"
  "rq_SystemBuffer (buffered_request code b fill m) = b @ fill"
  "length fill = m - length b \<Longrightarrow> wf_request (buffered_request code b fill m)"
  by (simp_all add: buffered_request_def wf_request_def)

text \<open>
  A call reaches the handler with a well-formed request, unless Windows refuses it. The lengths that
  the client passes are small.
\<close>

lemma ioctl_cases:
  assumes "buffered_device dio" and "length (input_bytes input) < 65536" and "length out < 65536"
  obtains (refused) e where "\<not> accepting_device dio"
      and "GuardianDevice_ioctl dio env code input out s = Inr (Inl (Windows e), s)"
  | (request) fill e where "length fill = length out - length (input_bytes input)"
      and "GuardianDevice_ioctl dio env code input out s =
        bind_fault (GuardianEvtIoDeviceControl env
            (buffered_request code (input_bytes input) fill (length out)) s)
          (\<lambda>(c, s'). Inr (case copied_back e out c of Inl e \<Rightarrow> Inl (Windows e) | Inr x \<Rightarrow> Inr x, s'))"
proof -
  define n :: u32 where "n = (case input of Some b \<Rightarrow> of_nat (length b) | None \<Rightarrow> 0)"
  let ?r = "dio env code input n out (of_nat (length out)) s"
  have n: "unat n = length (input_bytes input)" and m: "unat (of_nat (length out) :: u32) = length out"
    using assms(2,3) by (simp_all add: n_def input_bytes_def unat_of_nat split: option.splits)
  have call: "GuardianDevice_ioctl dio env code input out s =
      bind_fault ?r (\<lambda>(r, s'). Inr (case r of Inl e \<Rightarrow> Inl (Windows e) | Inr x \<Rightarrow> Inr x, s'))"
    by (simp add: GuardianDevice_ioctl_def n_def)
  have "delivered ?r env code (input_bytes input) out s \<or>
      \<not> accepting_device dio \<and> (\<exists>e. ?r = Inr (Inl e, s))"
    using assms(1) n m unfolding buffered_device_def accepting_device_def by meson
  then show thesis
  proof
    assume "delivered ?r env code (input_bytes input) out s"
    then obtain fill e where "length fill = length out - length (input_bytes input)"
      and "?r = bind_fault (GuardianEvtIoDeviceControl env
              (buffered_request code (input_bytes input) fill (length out)) s)
            (\<lambda>(c, s'). Inr (copied_back e out c, s'))" by (auto simp: delivered_def)
    then show thesis using request [of fill e] unfolding call
      by (cases "GuardianEvtIoDeviceControl env
          (buffered_request code (input_bytes input) fill (length out)) s") (auto split: prod.splits)
  next
    assume "\<not> accepting_device dio \<and> (\<exists>e. ?r = Inr (Inl e, s))"
    then show thesis using refused unfolding call by auto
  qed
qed

text \<open>Whether a request is admitted or not, the driver runs on.\<close>

lemma evt_running:
  assumes "running s" and "wf_request q" and "GuardianEvtIoDeviceControl env q s = Inr (c, s')"
  shows "running s'"
  using running.step [OF assms(1) driver_step.ioctl [OF assms(2,3)]] .

lemma evt_refused:
  assumes "running s" and "wf_request q" and "\<not> admitted env q s"
  obtains c s' where "GuardianEvtIoDeviceControl env q s = Inr (c, s')" and "\<not> NT_SUCCESS (cp_Status c)"
    and "running s'"
proof -
  obtain st where "\<not> NT_SUCCESS st" and e: "GuardianEvtIoDeviceControl env q s =
      Inr (complete_request env st 0 (rq_SystemBuffer q) (checked_caller env s))"
    using evt_not_admitted [OF assms(3)] by blast
  then show thesis using that evt_running [OF assms(1,2)] by (simp add: complete_request_def)
qed

section \<open>The contract of a query\<close>

locale driver_query =
  mirrored enc rd wf sz as_bytes read wf' sz' to_c
  for enc :: "'c \<Rightarrow> bytes" and rd wf sz and as_bytes :: "'r \<Rightarrow> bytes" and read wf' sz' to_c +
  fixes x :: GUARDIAN_IOCTL and answer :: "guardian \<Rightarrow> 'c"
  assumes size: "sz = output_size x" and small: "0 < sz" "sz < 100"
    and no_input: "input_size x = 0" and no_count: "count_ok x b"
    and answer_wf: "wf_driver_state (gs_Driver s) \<Longrightarrow> wf (answer s)"
    and answer_pin: "answer (s\<lparr>gs_AllowedServicePid := p\<rparr>) = answer s"
    and answered: "\<lbrakk>wf_driver_state (gs_Driver s); rq_IoControlCode q = ioctl_code x;
        rq_OutputBufferLength q = sz; length (rq_SystemBuffer q) = sz\<rbrakk> \<Longrightarrow>
      dispatch_ioctl env q None (Some (rq_SystemBuffer q)) s =
        Inr (STATUS_SUCCESS, sz, enc (answer s), s)"
begin

lemma evt_answer:
  assumes "wf_driver_state (gs_Driver s)" and "length fill = sz"
    and "admitted env (buffered_request (ioctl_code x) [] fill sz) s"
  shows "GuardianEvtIoDeviceControl env (buffered_request (ioctl_code x) [] fill sz) s =
    Inr (complete_request env STATUS_SUCCESS sz (enc (answer s)) (checked_caller env s))"
proof -
  let ?q = "buffered_request (ioctl_code x) [] fill sz"
  have wf: "wf_request ?q" using assms(2) by simp
  have code: "rq_IoControlCode ?q = ioctl_code x" by simp
  have "sz \<le> GUARDIAN_MAX_IOCTL_BUFFER"
    using small by (simp add: GUARDIAN_MAX_IOCTL_BUFFER_def GUARDIAN_MAX_EXPORT_BYTES_def)
  then have valid: "valid_request ?q sz"
    unfolding valid_request_code [OF wf code] using size no_input no_count by simp
  have ptrs: "in_ptr ?q = None" "out_ptr ?q = Some (rq_SystemBuffer ?q)"
    using small by (simp_all add: in_ptr_def out_ptr_def)
  have "dispatch_ioctl env ?q None (Some (rq_SystemBuffer ?q)) (checked_caller env s) =
      Inr (STATUS_SUCCESS, sz, enc (answer (checked_caller env s)), checked_caller env s)"
    by (rule answered) (simp_all add: checked_caller_def assms)
  then show ?thesis unfolding evt_valid [OF assms(3) wf code valid] ptrs
    by (simp add: checked_caller_def answer_pin)
qed

lemma ask:
  assumes "buffered_device dio" and "running s"
  shows "answers (accepting_device dio \<and> caller_ok env s) (read_struct dio env (client_code x) sz' read s)
    (\<lambda>y s'. to_c y = answer s \<and> s' = counted env (checked_caller env s))"
proof -
  let ?out = "replicate sz' 0 :: bytes" and ?read = "read_struct dio env (client_code x) sz' read s"
  have wf: "wf_driver_state (gs_Driver s)" using running_inv [OF assms(2)] by (simp add: guardian_inv_def)
  have sz': "unat (of_nat sz :: u32) = sz" using small by (simp add: unat_of_nat)
  show ?thesis
    using assms(1)
  proof (rule ioctl_cases [of dio None ?out env "client_code x" s])
    show "length (input_bytes None) < 65536" "length ?out < 65536"
      using small same_size by (simp_all add: input_bytes_def)
  next
    fix e
    assume "\<not> accepting_device dio"
      and "GuardianDevice_ioctl dio env (client_code x) None ?out s = Inr (Inl (Windows e), s)"
    then show ?thesis using answers_error [of ?read e s] assms(2) by (simp add: read_struct_def try_bind_def)
  next
    fix fill e
    let ?q = "buffered_request (ioctl_code x) [] fill sz"
    assume fill: "length fill = length ?out - length (input_bytes None)"
      and call: "GuardianDevice_ioctl dio env (client_code x) None ?out s =
        bind_fault (GuardianEvtIoDeviceControl env
            (buffered_request (client_code x) (input_bytes None) fill (length ?out)) s)
          (\<lambda>(c, s'). Inr (case copied_back e ?out c of Inl e \<Rightarrow> Inl (Windows e) | Inr y \<Rightarrow> Inr y, s'))"
    note call = call [unfolded client_code_mirrors input_bytes_def length_replicate same_size option.case]
    have len: "length fill = sz" using fill by (simp add: input_bytes_def same_size)
    then have wfq: "wf_request ?q" by simp
    show ?thesis
    proof (cases "admitted env ?q s")
      case True
      note evt = evt_answer [OF wf len True]
      obtain y where y: "read (enc (answer s)) = Some (y, [])" and "to_c y = answer s"
        using received [OF answer_wf [OF wf], of "[]"] by auto
      moreover have "take sz (enc (answer s)) = enc (answer s)"
        using driver.enc_length [OF answer_wf [OF wf]] by simp
      ultimately have "?read = Inr (Inr y, counted env (checked_caller env s))"
        using call evt by (simp add: read_struct_def try_bind_def complete_request_def copied_back_def
            client_code_mirrors same_size counted_def)
      moreover have "running (counted env (checked_caller env s))"
        using evt_running [OF assms(2) wfq] evt by (simp add: complete_request_def counted_def)
      ultimately show ?thesis using \<open>to_c y = answer s\<close> by (auto simp: answers_def)
    next
      case False
      then obtain c s' where "GuardianEvtIoDeviceControl env ?q s = Inr (c, s')"
        and "\<not> NT_SUCCESS (cp_Status c)" and run: "running s'"
        using evt_refused [OF assms(2) wfq] by metis
      then have "?read = Inr (Inl (Windows e), s')"
        using call by (simp add: read_struct_def try_bind_def copied_back_def client_code_mirrors same_size)
      then show ?thesis using run False caller_ok_admitted by (blast intro: answers_error)
    qed
  qed
qed

end

section \<open>The contract of a command\<close>

locale driver_command =
  fixes x :: GUARDIAN_IOCTL and ok :: "'r \<Rightarrow> bool" and as_bytes :: "'r \<Rightarrow> bytes"
    and run :: "ioctl_env \<Rightarrow> 'r \<Rightarrow> guardian \<Rightarrow> ntstatus \<times> guardian"
  assumes sent_size: "ok a \<Longrightarrow> length (as_bytes a) = input_size x"
    and some_input: "0 < input_size x" "input_size x < 2000" and no_output: "output_size x = 0"
    and no_count: "count_ok x b"
    and runs: "ok a \<Longrightarrow> rq_IoControlCode q = ioctl_code x \<Longrightarrow> rq_SystemBuffer q = as_bytes a \<Longrightarrow>
      dispatch_ioctl env q (Some (as_bytes a)) None s =
        (case run env a s of (st, s') \<Rightarrow> Inr (st, 0, as_bytes a, s'))"
begin

lemma evt_command:
  assumes "ok a" and "admitted env (buffered_request (ioctl_code x) (as_bytes a) [] 0) s"
  shows "GuardianEvtIoDeviceControl env (buffered_request (ioctl_code x) (as_bytes a) [] 0) s =
    (case run env a (checked_caller env s) of (st, s') \<Rightarrow> Inr (complete_request env st 0 (as_bytes a) s'))"
proof -
  let ?q = "buffered_request (ioctl_code x) (as_bytes a) [] 0"
  have wf: "wf_request ?q" and code: "rq_IoControlCode ?q = ioctl_code x" by simp_all
  have "input_size x \<le> GUARDIAN_MAX_IOCTL_BUFFER"
    using some_input by (simp add: GUARDIAN_MAX_IOCTL_BUFFER_def GUARDIAN_MAX_EXPORT_BYTES_def)
  then have valid: "valid_request ?q 0"
    unfolding valid_request_code [OF wf code] using sent_size [OF assms(1)] no_output no_count by simp
  have ptrs: "in_ptr ?q = Some (as_bytes a)" "out_ptr ?q = None"
    using some_input sent_size [OF assms(1)] by (simp_all add: in_ptr_def out_ptr_def)
  have "dispatch_ioctl env ?q (Some (as_bytes a)) None (checked_caller env s) =
      (case run env a (checked_caller env s) of (st, s') \<Rightarrow> Inr (st, 0, as_bytes a, s'))"
    by (rule runs [OF assms(1)]) simp_all
  then show ?thesis unfolding evt_valid [OF assms(2) wf code valid] ptrs by (simp split: prod.splits)
qed

lemma send:
  assumes "buffered_device dio" and "running s" and "ok a"
  shows "answers (accepting_device dio \<and> caller_ok env s \<and> NT_SUCCESS (fst (run env a (checked_caller env s))))
    (send_bytes dio env (client_code x) (as_bytes a) s)
    (\<lambda>_ s'. NT_SUCCESS (fst (run env a (checked_caller env s))) \<and>
       s' = counted env (snd (run env a (checked_caller env s))))"
proof -
  let ?send = "send_bytes dio env (client_code x) (as_bytes a) s"
  note len = sent_size [OF assms(3)]
  show ?thesis
    using assms(1)
  proof (rule ioctl_cases [of dio "Some (as_bytes a)" "[]" env "client_code x" s])
    show "length (input_bytes (Some (as_bytes a))) < 65536" "length ([] :: bytes) < 65536"
      using some_input len by (simp_all add: input_bytes_def)
  next
    fix e
    assume "\<not> accepting_device dio"
      and "GuardianDevice_ioctl dio env (client_code x) (Some (as_bytes a)) [] s = Inr (Inl (Windows e), s)"
    then show ?thesis using answers_error [of ?send e s] assms(2) by (simp add: send_bytes_def try_bind_def)
  next
    fix fill e
    let ?q = "buffered_request (ioctl_code x) (as_bytes a) [] 0"
    assume fill: "length fill = length ([] :: bytes) - length (input_bytes (Some (as_bytes a)))"
      and call: "GuardianDevice_ioctl dio env (client_code x) (Some (as_bytes a)) [] s =
        bind_fault (GuardianEvtIoDeviceControl env
            (buffered_request (client_code x) (input_bytes (Some (as_bytes a))) fill (length ([] :: bytes))) s)
          (\<lambda>(c, s'). Inr (case copied_back e [] c of Inl e \<Rightarrow> Inl (Windows e) | Inr y \<Rightarrow> Inr y, s'))"
    from fill have "fill = []" by simp
    note call = call [unfolded client_code_mirrors input_bytes_def option.case this list.size]
    have wfq: "wf_request ?q" by simp
    show ?thesis
    proof (cases "admitted env ?q s")
      case True
      obtain st s2 where r: "run env a (checked_caller env s) = (st, s2)" by fastforce
      note evt = evt_command [OF assms(3) True, unfolded r prod.case]
      have "running (snd (complete_request env st 0 (as_bytes a) s2))"
        using evt_running [OF assms(2) wfq] evt by (simp add: complete_request_def)
      then show ?thesis using call evt r
        by (cases "NT_SUCCESS st") (auto simp: answers_def send_bytes_def try_bind_def complete_request_def
            copied_back_def client_code_mirrors counted_def)
    next
      case False
      then obtain c s' where "GuardianEvtIoDeviceControl env ?q s = Inr (c, s')"
        and "\<not> NT_SUCCESS (cp_Status c)" and run: "running s'"
        using evt_refused [OF assms(2) wfq] by metis
      then have "?send = Inr (Inl (Windows e), s')"
        using call by (simp add: send_bytes_def try_bind_def copied_back_def client_code_mirrors)
      then show ?thesis using run False caller_ok_admitted by (blast intro: answers_error)
    qed
  qed
qed

end

section \<open>The methods are queries and commands\<close>

definition reconcile_answer :: "guardian \<Rightarrow> GUARDIAN_RECONCILE_RESPONSE_V1" where
  "reconcile_answer s =
     \<lparr>rr_Version = 1, rr_RemovedOrphans = 0,
      rr_RecoveryGeneration = GuardianStateManagerRecoveryGeneration s,
      rr_RecoveryStatus = gs_RecoveryStatus s\<rparr>"

lemmas query_defs = reply_Inr count_ok_def dispatch_export_def dispatch_reconcile_def
  GuardianStateManagerExport_def GuardianRecoveryReconcile_def write_out_def write_mem_def
  output_lengths export_header_def reconcile_answer_def GuardianStateManagerRecoveryGeneration_def
  wf_telemetry_def wf_perf_stats_def wf_reconcile_response_def wf_state_blob_def

interpretation state_query: driver_query enc_driver_state rd_driver_state wf_driver_state sizeof_GUARDIAN_DRIVER_STATE_V1
  client_driver_state_as_bytes read_client_driver_state wf_client_driver_state size_of_GuardianDriverStateV1 c_client_driver_state
  IOCTL_GUARDIAN_GET_DRIVER_STATE gs_Driver
proof (unfold_locales, goal_cases)
  case (8 s q env)
  then show ?case unfolding dispatch_ioctl_def Let_def 8(2) guardian_ioctl.enum_of_code
    using output_lengths(1) [THEN iffD2, OF 8(1)] 8(3,4)
    by (simp add: reply_def write_out_def write_mem_def)
qed (simp_all add: structure_sizes query_defs)

interpretation telemetry_query: driver_query enc_telemetry rd_telemetry wf_telemetry sizeof_GUARDIAN_TELEMETRY_V1
  client_telemetry_as_bytes read_client_telemetry wf_client_telemetry size_of_GuardianTelemetryV1 c_client_telemetry
  IOCTL_GUARDIAN_GET_TELEMETRY "\<lambda>s. GuardianTelemetryGet (gs_Telemetry s)"
proof (unfold_locales, goal_cases)
  case (8 s q env)
  then show ?case unfolding dispatch_ioctl_def Let_def 8(2) guardian_ioctl.enum_of_code
    by (simp add: query_defs)
qed (simp_all add: structure_sizes query_defs)

interpretation perf_query: driver_query enc_perf_stats rd_perf_stats wf_perf_stats sizeof_GUARDIAN_PERF_STATS_V1
  client_perf_stats_as_bytes read_client_perf_stats wf_client_perf_stats size_of_GuardianPerfStatsV1 c_client_perf_stats
  IOCTL_GUARDIAN_GET_PERF_STATS "\<lambda>s. GuardianPerfStatsGet (gs_Policies s) (gs_Routes s) (gs_Telemetry s)"
proof (unfold_locales, goal_cases)
  case (8 s q env)
  then show ?case unfolding dispatch_ioctl_def Let_def 8(2) guardian_ioctl.enum_of_code
    by (simp add: query_defs)
qed (simp_all add: structure_sizes query_defs)

interpretation reconcile_query: driver_query enc_reconcile_response rd_reconcile_response wf_reconcile_response sizeof_GUARDIAN_RECONCILE_RESPONSE_V1
  client_reconcile_as_bytes read_client_reconcile wf_client_reconcile size_of_GuardianReconcileResponseV1 c_client_reconcile
  IOCTL_GUARDIAN_RECONCILE reconcile_answer
proof (unfold_locales, goal_cases)
  case (8 s q env)
  then show ?case unfolding dispatch_ioctl_def Let_def 8(2) guardian_ioctl.enum_of_code
    by (simp add: query_defs)
qed (simp_all add: structure_sizes query_defs)

interpretation export_query: driver_query enc_state_blob rd_state_blob wf_state_blob sizeof_GUARDIAN_STATE_BLOB_HEADER_V1
  client_state_blob_as_bytes read_client_state_blob wf_client_state_blob size_of_GuardianStateBlobHeaderV1 c_client_state_blob
  IOCTL_GUARDIAN_EXPORT_STATE export_header
proof (unfold_locales, goal_cases)
  case (8 s q env)
  have "unat (of_nat sizeof_GUARDIAN_STATE_BLOB_HEADER_V1 :: u32) = sizeof_GUARDIAN_STATE_BLOB_HEADER_V1"
    by (simp add: structure_sizes)
  with 8 show ?case unfolding dispatch_ioctl_def Let_def 8(2) guardian_ioctl.enum_of_code
    by (simp add: query_defs)
qed (simp_all add: structure_sizes query_defs)

text \<open>The operation of the driver that each command has run.\<close>

definition run_set_policy :: "ioctl_env \<Rightarrow> GuardianAppPolicyV1 \<Rightarrow> guardian \<Rightarrow> ntstatus \<times> guardian" where
  "run_set_policy env p s =
     (case GuardianAppPolicySet (en_Alloc env 0) (Some (c_client_policy p)) (gs_Policies s) of
        (st, t) \<Rightarrow> (st, s\<lparr>gs_Policies := t\<rparr>))"

definition run_set_route ::
  "ioctl_env \<Rightarrow> GuardianRouteAssignmentV1 \<Rightarrow> guardian \<Rightarrow> ntstatus \<times> guardian" where
  "run_set_route env r s =
     (case GuardianRouteSet (en_Alloc env 0) (Some (c_client_route r)) (gs_Routes s) of
        (st, t) \<Rightarrow> (st, s\<lparr>gs_Routes := t\<rparr>))"

definition run_clear_route :: "ioctl_env \<Rightarrow> bytes \<Rightarrow> guardian \<Rightarrow> ntstatus \<times> guardian" where
  "run_clear_route env k s =
     (case GuardianRouteClear k (gs_Routes s) of (st, t) \<Rightarrow> (st, s\<lparr>gs_Routes := t\<rparr>))"

definition run_set_kill_switch ::
  "ioctl_env \<Rightarrow> GuardianKillSwitchV1 \<Rightarrow> guardian \<Rightarrow> ntstatus \<times> guardian" where
  "run_set_kill_switch env k s =
     (case GuardianKillSwitchSet (Some (c_client_kill_switch k)) (gs_KillSwitch s) of
        (st, t) \<Rightarrow> (st, if NT_SUCCESS st
                       then set_driver (\<lambda>d. d\<lparr>dv_KillSwitchMode := ks_Mode t\<rparr>) (s\<lparr>gs_KillSwitch := t\<rparr>)
                       else s))"

definition run_dns_config ::
  "ioctl_env \<Rightarrow> GuardianDnsConfigV1 \<Rightarrow> guardian \<Rightarrow> ntstatus \<times> guardian" where
  "run_dns_config env d s =
     (case GuardianDnsLayerSetConfig (Some (c_client_dns_config d)) (gs_Dns s) of
        (st, t) \<Rightarrow> (st, s\<lparr>gs_Dns := t\<rparr>))"

definition run_set_mode :: "ioctl_env \<Rightarrow> GuardianMode \<Rightarrow> guardian \<Rightarrow> ntstatus \<times> guardian" where
  "run_set_mode env m s = GuardianHybridSetMode (en_Ndis env) (mode_as_u32 m) s"

lemmas command_defs = run_set_policy_def run_set_route_def run_clear_route_def
  run_set_kill_switch_def run_dns_config_def run_set_mode_def dispatch_set_kill_switch_def

interpretation set_policy_command: driver_command IOCTL_GUARDIAN_SET_APP_POLICY wf_client_policy client_policy_as_bytes run_set_policy
proof (unfold_locales, goal_cases)
  case (6 a q env s)
  have "read_in rd_app_policy (Some (client_policy_as_bytes a)) = Inr (c_client_policy a)"
    using client_policy.sent [OF 6(1), of "[]"] by (simp add: read_in_def)
  then show ?case unfolding dispatch_ioctl_def Let_def 6(2) guardian_ioctl.enum_of_code
    using 6(3) by (auto simp: command_defs GuardianKillSwitchGetMode_def dest: ks_set_failure split: prod.splits)
qed (simp_all add: structure_sizes count_ok_def client_policy.sent_length)

interpretation set_route_command: driver_command IOCTL_GUARDIAN_SET_ROUTE wf_client_route client_route_as_bytes run_set_route
proof (unfold_locales, goal_cases)
  case (6 a q env s)
  have "read_in rd_route (Some (client_route_as_bytes a)) = Inr (c_client_route a)"
    using client_route.sent [OF 6(1), of "[]"] by (simp add: read_in_def)
  then show ?case unfolding dispatch_ioctl_def Let_def 6(2) guardian_ioctl.enum_of_code
    using 6(3) by (auto simp: command_defs GuardianKillSwitchGetMode_def dest: ks_set_failure split: prod.splits)
qed (simp_all add: structure_sizes count_ok_def client_route.sent_length)

interpretation clear_route_command: driver_command IOCTL_GUARDIAN_CLEAR_ROUTE "\<lambda>k. length k = 16" "\<lambda>k. k" run_clear_route
proof (unfold_locales, goal_cases)
  case (6 a q env s)
  have "read_in (rd_bytes 16) (Some (a)) = Inr (a)"
    using 6(1) by (simp add: read_in_def read_mem_Inr reader_iff)
  then show ?case unfolding dispatch_ioctl_def Let_def 6(2) guardian_ioctl.enum_of_code
    using 6(3) by (auto simp: command_defs GuardianKillSwitchGetMode_def dest: ks_set_failure split: prod.splits)
qed (simp_all add: structure_sizes count_ok_def)

interpretation kill_switch_command: driver_command IOCTL_GUARDIAN_SET_KILL_SWITCH wf_client_kill_switch client_kill_switch_as_bytes run_set_kill_switch
proof (unfold_locales, goal_cases)
  case (6 a q env s)
  have "read_in rd_kill_switch (Some (client_kill_switch_as_bytes a)) = Inr (c_client_kill_switch a)"
    using client_kill_switch.sent [OF 6(1), of "[]"] by (simp add: read_in_def)
  then show ?case unfolding dispatch_ioctl_def Let_def 6(2) guardian_ioctl.enum_of_code
    using 6(3) by (auto simp: command_defs GuardianKillSwitchGetMode_def dest: ks_set_failure split: prod.splits)
qed (simp_all add: structure_sizes count_ok_def client_kill_switch.sent_length)

interpretation dns_command: driver_command IOCTL_GUARDIAN_DNS_SET_CONFIG wf_client_dns_config client_dns_config_as_bytes run_dns_config
proof (unfold_locales, goal_cases)
  case (6 a q env s)
  have "read_in rd_dns_config (Some (client_dns_config_as_bytes a)) = Inr (c_client_dns_config a)"
    using client_dns_config.sent [OF 6(1), of "[]"] by (simp add: read_in_def)
  then show ?case unfolding dispatch_ioctl_def Let_def 6(2) guardian_ioctl.enum_of_code
    using 6(3) by (auto simp: command_defs GuardianKillSwitchGetMode_def dest: ks_set_failure split: prod.splits)
qed (simp_all add: structure_sizes count_ok_def client_dns_config.sent_length)

interpretation mode_command: driver_command IOCTL_GUARDIAN_SET_GUARDIAN_MODE "\<lambda>_. True" "\<lambda>m. le_bytes 4 (mode_as_u32 m)" run_set_mode
proof (unfold_locales, goal_cases)
  case (6 a q env s)
  have "read_in (rd_u32) (Some (le_bytes 4 (mode_as_u32 a))) = Inr (mode_as_u32 a)"
    using 6(1) by (simp add: read_in_def read_mem_Inr reader_iff)
  then show ?case unfolding dispatch_ioctl_def Let_def 6(2) guardian_ioctl.enum_of_code
    using 6(3) by (auto simp: command_defs GuardianKillSwitchGetMode_def dest: ks_set_failure split: prod.splits)
qed (simp_all add: structure_sizes count_ok_def)

end
