(* ===== verification/Client_Session.thy ===== *)
theory Client_Session
  imports Client_Requests
begin

text \<open>
  The client and the driver together: what the client's methods return and leave behind, sequences of
  calls, and what a policy made by the client means for connections.
\<close>

section \<open>Queries and commands\<close>

lemma answers_checked:
  assumes "answers ok r P" and "\<And>x s'. P x s' \<Longrightarrow> k x s' = Inr (Inr x, s')"
  shows "answers ok (try_bind r k) P"
  using assms by (fastforce simp: answers_def try_bind_def)

lemma state_query_version:
  assumes "running s" and "c_client_driver_state x = gs_Driver s"
  shows "gds_version x = 1" and "GuardianDriverStateV1_mode x \<noteq> None"
proof -
  have inv: "guardian_inv s" using running_inv [OF assms(1)] .
  have "gds_version x = dv_Version (gs_Driver s)" "gds_guardian_mode x = dv_GuardianMode (gs_Driver s)"
    unfolding assms(2) [symmetric] by (simp_all add: c_client_driver_state_def)
  then show "gds_version x = 1"
    using inv by (simp add: guardian_inv_def GUARDIAN_DRIVER_STATE_VERSION_def)
  have "dv_GuardianMode (gs_Driver s) \<le> 2"
    using inv by (simp add: guardian_inv_def hybrid_inv_def GuardianHybridIsValidMode_def)
  moreover from this have "dv_GuardianMode (gs_Driver s) \<le> 3" by (rule order_trans) simp
  ultimately have "dv_GuardianMode (gs_Driver s) \<in> {0, 1, 2}" using word_le_3 by fastforce
  then show "GuardianDriverStateV1_mode x \<noteq> None"
    using \<open>gds_guardian_mode x = _\<close>
    by (auto simp: GuardianDriverStateV1_mode_def GuardianMode_from_u32_def)
qed

lemma driver_state_answers:
  assumes "buffered_device dio" and "running s"
  shows "answers (accepting_device dio \<and> caller_ok env s) (GuardianClient_driver_state dio env s)
    (\<lambda>x s'. c_client_driver_state x = gs_Driver s \<and> s' = counted env (checked_caller env s))"
  unfolding GuardianClient_driver_state_def
  by (rule answers_checked [OF state_query.ask [OF assms]])
    (use state_query_version(1) [OF assms(2)] in auto)

section \<open>Sequences of calls\<close>

datatype client_call =
  Call_driver_state | Call_telemetry | Call_perf_stats | Call_reconcile | Call_export_state
| Call_set_guardian_mode GuardianMode | Call_set_app_policy GuardianAppPolicyV1
| Call_set_route GuardianRouteAssignmentV1 | Call_clear_route bytes
| Call_set_kill_switch GuardianKillSwitchV1 | Call_dns_set_config GuardianDnsConfigV1

text \<open>What the Rust types say of the arguments: their arrays have the declared lengths.\<close>

fun typed_call :: "client_call \<Rightarrow> bool" where
  "typed_call (Call_set_app_policy p) \<longleftrightarrow> wf_client_policy p"
| "typed_call (Call_set_route r) \<longleftrightarrow> wf_client_route r"
| "typed_call (Call_clear_route k) \<longleftrightarrow> length k = 16"
| "typed_call (Call_set_kill_switch k) \<longleftrightarrow> wf_client_kill_switch k"
| "typed_call (Call_dns_set_config d) \<longleftrightarrow> wf_client_dns_config d"
| "typed_call _ \<longleftrightarrow> True"

definition discard :: "'a client_result \<Rightarrow> unit client_result" where
  "discard r = try_bind r (\<lambda>_ s. Inr (Inr (), s))"

fun perform :: "device_io_control \<Rightarrow> ioctl_env \<Rightarrow> client_call \<Rightarrow> guardian \<Rightarrow> unit client_result" where
  "perform dio env Call_driver_state s = discard (GuardianClient_driver_state dio env s)"
| "perform dio env Call_telemetry s = discard (GuardianClient_telemetry dio env s)"
| "perform dio env Call_perf_stats s = discard (GuardianClient_perf_stats dio env s)"
| "perform dio env Call_reconcile s = discard (GuardianClient_reconcile dio env s)"
| "perform dio env Call_export_state s = discard (GuardianClient_export_state dio env s)"
| "perform dio env (Call_set_guardian_mode m) s = GuardianClient_set_guardian_mode dio env m s"
| "perform dio env (Call_set_app_policy p) s = GuardianClient_set_app_policy dio env p s"
| "perform dio env (Call_set_route r) s = GuardianClient_set_route dio env r s"
| "perform dio env (Call_clear_route k) s = GuardianClient_clear_route dio env k s"
| "perform dio env (Call_set_kill_switch k) s = GuardianClient_set_kill_switch dio env k s"
| "perform dio env (Call_dns_set_config d) s = GuardianClient_dns_set_config dio env d s"

fun client_session ::
  "device_io_control \<Rightarrow> (ioctl_env \<times> client_call) list \<Rightarrow> guardian \<Rightarrow>
     fault + (GuardianError + unit) list \<times> guardian" where
  "client_session dio [] s = Inr ([], s)"
| "client_session dio ((env, call) # calls) s =
     bind_fault (perform dio env call s) (\<lambda>(r, s).
       bind_fault (client_session dio calls s) (\<lambda>(rs, s). Inr (r # rs, s)))"

lemma answers_discard: "answers ok r P \<Longrightarrow> answers ok (discard r) (\<lambda>_ s'. \<exists>x. P x s')"
  by (fastforce simp: answers_def discard_def try_bind_def)

text \<open>The operation a command has run, and whether it succeeds; a query succeeds and changes nothing.\<close>

fun effect_of :: "ioctl_env \<Rightarrow> client_call \<Rightarrow> guardian \<Rightarrow> ntstatus \<times> guardian" where
  "effect_of env (Call_set_guardian_mode m) s = run_set_mode env m s"
| "effect_of env (Call_set_app_policy p) s = run_set_policy env p s"
| "effect_of env (Call_set_route r) s = run_set_route env r s"
| "effect_of env (Call_clear_route k) s = run_clear_route env k s"
| "effect_of env (Call_set_kill_switch k) s = run_set_kill_switch env k s"
| "effect_of env (Call_dns_set_config d) s = run_dns_config env d s"
| "effect_of env _ s = (STATUS_SUCCESS, s)"

lemma query_effect:
  assumes "answers (accepting_device dio \<and> caller_ok env s) r
    (\<lambda>y s'. Q y \<and> s' = counted env (checked_caller env s))"
  shows "answers (accepting_device dio \<and> caller_ok env s \<and> NT_SUCCESS STATUS_SUCCESS) (discard r)
    (\<lambda>_ s'. NT_SUCCESS STATUS_SUCCESS \<and> s' = counted env (checked_caller env s))"
  using answers_discard [OF assms] by (rule answers_mono) auto

lemma perform_answers:
  assumes "buffered_device dio" and "running s" and "typed_call call"
  shows "answers (accepting_device dio \<and> caller_ok env s \<and>
      NT_SUCCESS (fst (effect_of env call (checked_caller env s)))) (perform dio env call s)
    (\<lambda>_ s'. NT_SUCCESS (fst (effect_of env call (checked_caller env s))) \<and>
       s' = counted env (snd (effect_of env call (checked_caller env s))))"
proof (cases call)
  case Call_driver_state
  then show ?thesis using query_effect [OF driver_state_answers [OF assms(1,2)]] by simp
next
  case Call_telemetry
  then show ?thesis using query_effect [OF telemetry_query.ask [OF assms(1,2)]]
    by (simp add: GuardianClient_telemetry_def)
next
  case Call_perf_stats
  then show ?thesis using query_effect [OF perf_query.ask [OF assms(1,2)]]
    by (simp add: GuardianClient_perf_stats_def)
next
  case Call_reconcile
  then show ?thesis using query_effect [OF reconcile_query.ask [OF assms(1,2)]]
    by (simp add: GuardianClient_reconcile_def)
next
  case Call_export_state
  then show ?thesis using query_effect [OF export_query.ask [OF assms(1,2)]]
    by (simp add: GuardianClient_export_state_def)
next
  case (Call_set_guardian_mode m)
  then show ?thesis using mode_command.send [OF assms(1,2) TrueI, of env m]
    by (simp add: GuardianClient_set_guardian_mode_def)
next
  case (Call_set_app_policy p)
  then show ?thesis using set_policy_command.send [OF assms(1,2), of p env] assms(3)
    by (simp add: GuardianClient_set_app_policy_def)
next
  case (Call_set_route r)
  then show ?thesis using set_route_command.send [OF assms(1,2), of r env] assms(3)
    by (simp add: GuardianClient_set_route_def)
next
  case (Call_clear_route k)
  then show ?thesis using clear_route_command.send [OF assms(1,2), of k env] assms(3)
    by (simp add: GuardianClient_clear_route_def)
next
  case (Call_set_kill_switch k)
  then show ?thesis using kill_switch_command.send [OF assms(1,2), of k env] assms(3)
    by (simp add: GuardianClient_set_kill_switch_def)
next
  case (Call_dns_set_config d)
  then show ?thesis using dns_command.send [OF assms(1,2), of d env] assms(3)
    by (simp add: GuardianClient_dns_set_config_def)
qed

section \<open>Calls that succeed\<close>

text \<open>The state that a call leaves when it succeeds.\<close>

definition after_call :: "ioctl_env \<Rightarrow> client_call \<Rightarrow> guardian \<Rightarrow> guardian" where
  "after_call env call s = counted env (snd (effect_of env call (checked_caller env s)))"

lemma perform_succeeds:
  assumes "accepting_device dio" and "running s" and "typed_call call" and "caller_ok env s"
    and "NT_SUCCESS (fst (effect_of env call (checked_caller env s)))"
  shows "perform dio env call s = Inr (Inr (), after_call env call s) \<and> running (after_call env call s)"
  using perform_answers [OF accepting_is_buffered [OF assms(1)] assms(2,3), of env] assms(1,4,5)
  by (auto simp: answers_def after_call_def)

text \<open>A caller that was let in once is let in again; no command changes the pinned process.\<close>

definition from_service :: "request_origin \<Rightarrow> process_table \<Rightarrow> ioctl_env \<Rightarrow> bool" where
  "from_service origin sessions env \<longleftrightarrow>
     en_Origin env = origin \<and> en_Sessions env = sessions \<and> en_Alloc env 0 \<and>
     NT_SUCCESS (en_InputStatus env) \<and> NT_SUCCESS (en_OutputStatus env)"

lemma verify_again:
  assumes "NT_SUCCESS (fst (GuardianSecurityPolicyVerifyCaller (Some r) sessions p))"
  shows "NT_SUCCESS (fst (GuardianSecurityPolicyVerifyCaller (Some r) sessions
    (snd (GuardianSecurityPolicyVerifyCaller (Some r) sessions p))))"
  using assms verify_pin [of "Some r" sessions p] by (auto simp: verify_accepts_iff)

lemma effect_of_pin: "gs_AllowedServicePid (snd (effect_of env call s)) = gs_AllowedServicePid s"
proof (cases call)
  case (Call_set_guardian_mode m)
  then show ?thesis using outside_hybridD(12) [OF outside_set_mode, of "en_Ndis env" "mode_as_u32 m" s]
    by (simp add: run_set_mode_def)
qed (simp_all add: command_defs split: prod.split)

lemma caller_ok_again:
  assumes "from_service r sessions env" and "from_service r sessions env'" and "caller_ok env s"
  shows "caller_ok env' (after_call env call s)"
  using assms verify_again [of r sessions "gs_AllowedServicePid s"]
  by (simp add: caller_ok_def from_service_def after_call_def counted_def effect_of_pin checked_caller_def)

lemma caller_ok_first:
  assumes "from_service r sessions env"
    and "NT_SUCCESS (fst (GuardianSecurityPolicyVerifyCaller (Some r) sessions (gs_AllowedServicePid s)))"
  shows "caller_ok env s"
  using assms by (simp add: caller_ok_def from_service_def)

text \<open>What each command of the test leaves alone.\<close>

lemma after_call_frame:
  "gs_Routes (after_call env (Call_set_app_policy p) s) = gs_Routes s"
  "gs_KillSwitch (after_call env (Call_set_app_policy p) s) = gs_KillSwitch s"
  "gs_Policies (after_call env (Call_set_route r) s) = gs_Policies s"
  "gs_Policies (after_call env (Call_clear_route i) s) = gs_Policies s"
  "gs_KillSwitch (after_call env (Call_clear_route i) s) = gs_KillSwitch s"
  "gs_Policies (after_call env (Call_set_kill_switch k) s) = gs_Policies s"
  "gs_Routes (after_call env (Call_set_kill_switch k) s) = gs_Routes s"
  "gs_Policies (after_call env Call_telemetry s) = gs_Policies s"
  "gs_Routes (after_call env Call_telemetry s) = gs_Routes s"
  by (simp_all add: after_call_def counted_def checked_caller_def command_defs split: prod.splits)

lemma after_call_target:
  "gs_Policies (after_call env (Call_set_app_policy p) s) =
     snd (GuardianAppPolicySet (en_Alloc env 0) (Some (c_client_policy p)) (gs_Policies s))"
  "gs_Routes (after_call env (Call_set_route r) s) =
     snd (GuardianRouteSet (en_Alloc env 0) (Some (c_client_route r)) (gs_Routes s))"
  "gs_Routes (after_call env (Call_clear_route i) s) = snd (GuardianRouteClear i (gs_Routes s))"
  by (simp_all add: after_call_def counted_def checked_caller_def command_defs split: prod.splits)

section \<open>Properties\<close>

text \<open>
  C37: What the queries of the user-space client return, when they return a value, is what the
  driver holds: the driver state field by field, with a guardian mode the client knows, the
  telemetry and performance counters with their averages, the recovery generation and status
  with no removed orphans, and the header of the exported state. No query fails with a short
  read or an invalid version, and each returns a value when Windows passes the request on and
  the caller is accepted.
\<close>

theorem client_queries_report_the_driver:
  assumes "buffered_device dio" and "running s"
  shows "answers (accepting_device dio \<and> caller_ok env s) (GuardianClient_driver_state dio env s)
      (\<lambda>x s'. c_client_driver_state x = gs_Driver s \<and> GuardianDriverStateV1_mode x \<noteq> None) \<and>
    answers (accepting_device dio \<and> caller_ok env s) (GuardianClient_telemetry dio env s)
      (\<lambda>x s'. c_client_telemetry x = GuardianTelemetryGet (gs_Telemetry s)) \<and>
    answers (accepting_device dio \<and> caller_ok env s) (GuardianClient_perf_stats dio env s)
      (\<lambda>x s'. c_client_perf_stats x =
         GuardianPerfStatsGet (gs_Policies s) (gs_Routes s) (gs_Telemetry s)) \<and>
    answers (accepting_device dio \<and> caller_ok env s) (GuardianClient_reconcile dio env s)
      (\<lambda>x s'. grr_version x = 1 \<and> grr_removed_orphans x = 0 \<and>
         grr_recovery_generation x = gs_RecoveryGeneration s \<and>
         grr_recovery_status x = gs_RecoveryStatus s) \<and>
    answers (accepting_device dio \<and> caller_ok env s) (GuardianClient_export_state dio env s)
      (\<lambda>x s'. c_client_state_blob x = export_header s)"
proof (intro conjI)
  show "answers (accepting_device dio \<and> caller_ok env s) (GuardianClient_driver_state dio env s)
      (\<lambda>x s'. c_client_driver_state x = gs_Driver s \<and> GuardianDriverStateV1_mode x \<noteq> None)"
    by (rule answers_mono [OF driver_state_answers [OF assms]]) (use state_query_version(2) [OF assms(2)] in auto)
  show "answers (accepting_device dio \<and> caller_ok env s) (GuardianClient_telemetry dio env s)
      (\<lambda>x s'. c_client_telemetry x = GuardianTelemetryGet (gs_Telemetry s))"
    unfolding GuardianClient_telemetry_def by (rule answers_mono [OF telemetry_query.ask [OF assms]]) simp_all
  show "answers (accepting_device dio \<and> caller_ok env s) (GuardianClient_perf_stats dio env s)
      (\<lambda>x s'. c_client_perf_stats x =
         GuardianPerfStatsGet (gs_Policies s) (gs_Routes s) (gs_Telemetry s))"
    unfolding GuardianClient_perf_stats_def by (rule answers_mono [OF perf_query.ask [OF assms]]) simp_all
  show "answers (accepting_device dio \<and> caller_ok env s) (GuardianClient_reconcile dio env s)
      (\<lambda>x s'. grr_version x = 1 \<and> grr_removed_orphans x = 0 \<and>
         grr_recovery_generation x = gs_RecoveryGeneration s \<and>
         grr_recovery_status x = gs_RecoveryStatus s)"
    unfolding GuardianClient_reconcile_def
    by (rule answers_mono [OF reconcile_query.ask [OF assms]])
      (auto simp: c_client_reconcile_def reconcile_answer_def GuardianStateManagerRecoveryGeneration_def)
  show "answers (accepting_device dio \<and> caller_ok env s) (GuardianClient_export_state dio env s)
      (\<lambda>x s'. c_client_state_blob x = export_header s)"
    unfolding GuardianClient_export_state_def by (rule answers_mono [OF export_query.ask [OF assms]]) simp_all
qed

theorem client_queries_report_the_driver_witness:
  "\<exists>x s'. GuardianClient_telemetry sample_device sample_env (entry_running sample_system None) =
     Inr (Inr x, s') \<and> gtm_version x = 1"
proof -
  let ?s = "entry_running sample_system None"
  have ok: "caller_ok sample_env ?s"
    by (simp add: caller_ok_def sample_env_def verify_accepts_iff entry_running_fields)
  from client_queries_report_the_driver [OF accepting_is_buffered [OF sample_device_accepts] sample_running,
      of sample_env]
  obtain x s' where "GuardianClient_telemetry sample_device sample_env ?s = Inr (Inr x, s')"
    and x: "c_client_telemetry x = GuardianTelemetryGet (gs_Telemetry ?s)"
    using ok by (auto simp: answers_def)
  moreover have "gtm_version x = 1"
    using arg_cong [OF x, of tv_Version]
    by (simp add: c_client_telemetry_def GuardianTelemetryGet_def GUARDIAN_TELEMETRY_VERSION_def Let_def)
  ultimately show ?thesis by blast
qed

text \<open>
  C36: Each method of the user-space client refines one operation of the running driver.
  Whatever documented answers Windows gives between DeviceIoControl and the driver, a command
  with arguments of its Rust types either returns Ok, and then the named component operation has
  succeeded on exactly the structure that the arguments stand for, with the caller pinned if it
  is the first one, the request counted and nothing else changed, or it returns a Windows error
  and the driver runs on; it returns Ok whenever Windows passes the request on, the caller is
  accepted and the operation succeeds.
\<close>

theorem client_calls_run_the_operations:
  assumes "buffered_device dio" and "running s" and "typed_call call"
  shows "answers (accepting_device dio \<and> caller_ok env s \<and>
      NT_SUCCESS (fst (effect_of env call (checked_caller env s)))) (perform dio env call s)
    (\<lambda>_ s'. NT_SUCCESS (fst (effect_of env call (checked_caller env s))) \<and>
       s' = counted env (snd (effect_of env call (checked_caller env s))))"
  using assms by (rule perform_answers)

theorem client_calls_run_the_operations_witness:
  "\<exists>s'. perform sample_device sample_env (Call_set_kill_switch block_all_config)
      (entry_running sample_system None) = Inr (Inr (), s') \<and>
    ks_Mode (gs_KillSwitch s') = ks_mode_code GuardianKsBlockAll"
proof -
  let ?s = "entry_running sample_system None"
  have "caller_ok sample_env ?s"
    by (simp add: caller_ok_def sample_env_def verify_accepts_iff entry_running_fields)
  with client_calls_run_the_operations [OF accepting_is_buffered [OF sample_device_accepts] sample_running,
      of "Call_set_kill_switch block_all_config" sample_env]
  show ?thesis
    by (auto simp: answers_def wf_client_kill_switch_def run_set_kill_switch_def block_all_config_def
        c_client_kill_switch_def GuardianKillSwitchSet_def GUARDIAN_KILL_SWITCH_VERSION_def counted_def
        simp del: perform.simps)
qed

text \<open>
  C39: Every sequence of calls of the user-space client, with arguments of their Rust types and
  whatever the callers, the allocations and Windows do, runs to its end without the driver
  leaving a buffer: each call returns Ok or a Windows error, and the driver satisfies its
  invariant afterwards.
\<close>

theorem client_sessions_never_fault:
  assumes "buffered_device dio" and "running s"
    and "\<forall>(env, call) \<in> set calls. typed_call call"
  shows "\<exists>rs s'. client_session dio calls s = Inr (rs, s') \<and> length rs = length calls \<and> running s' \<and>
    (\<forall>r \<in> set rs. r = Inr () \<or> (\<exists>e. r = Inl (Windows e)))"
  using assms(2,3)
proof (induction calls arbitrary: s)
  case Nil
  then show ?case by simp
next
  case (Cons p calls)
  obtain env call where p: "p = (env, call)" by fastforce
  then have "typed_call call" using Cons.prems(2) by simp
  from perform_answers [OF assms(1) Cons.prems(1) this, of env] obtain r s1
    where run: "perform dio env call s = Inr (r, s1)" "running s1"
      and r: "r = Inr () \<or> (\<exists>e. r = Inl (Windows e))"
    by (auto simp: answers_def)
  from Cons.IH [OF run(2)] Cons.prems(2) obtain rs s'
    where "client_session dio calls s1 = Inr (rs, s')" "length rs = length calls" "running s'"
      "\<forall>r \<in> set rs. r = Inr () \<or> (\<exists>e. r = Inl (Windows e))" by auto
  then show ?case using run r by (intro exI [of _ "r # rs"] exI [of _ s']) (auto simp: p)
qed

theorem client_sessions_never_fault_witness:
  "\<exists>rs s'. client_session sample_device
     [(sample_env, Call_set_kill_switch block_all_config), (sample_env, Call_reconcile)]
     (entry_running sample_system None) = Inr (rs, s') \<and> length rs = 2 \<and> running s'"
  using client_sessions_never_fault [OF accepting_is_buffered [OF sample_device_accepts] sample_running,
      of "[(sample_env, Call_set_kill_switch block_all_config), (sample_env, Call_reconcile)]"]
  by (auto simp: wf_client_kill_switch_def simp del: client_session.simps)

text \<open>What the lookup finds after a set, when no policy matched before.\<close>

lemma find_replace_new:
  assumes "\<forall>x \<in> set xs. \<not> m x" and "m p" and "\<exists>x \<in> set xs. P x"
  shows "List.find m (replace_first P p xs) = Some p"
  using assms by (induction xs) auto

lemma set_policy_matched:
  assumes "GuardianAppPolicySet a (Some p) t = (st, t')" and "NT_SUCCESS st"
    and "\<forall>x \<in> set (pt_list t). \<not> policy_matches blob x" and "policy_matches blob p"
  shows "policy_lookup_loop blob (pt_list t') = Some p"
  using assms(1)
proof (cases rule: GuardianAppPolicySet_cases)
  case (update q)
  then have "\<exists>x \<in> set (pt_list t). same_app_id (ap_AppId x) (ap_AppId q)"
    by (auto simp: GuardianPolicyFindLocked_def key_find_def find_Some_iff)
  then show ?thesis using update assms(3,4) find_replace_new
    by (simp add: policy_lookup_loop_find)
next
  case (insert q)
  then show ?thesis using assms(3,4)
    by (simp add: policy_lookup_loop_find find_append_match filter_empty_conv)
qed (use assms(2) in simp_all)

text \<open>A policy that new\_block made matches every connection with an application id and blocks it.\<close>

lemma new_block_found:
  assumes "NT_SUCCESS (fst (effect_of env (Call_set_app_policy (new_block app_id path)) (checked_caller env s)))"
    and "b \<noteq> []" and "\<forall>p \<in> set (pt_list (gs_Policies s)). \<not> policy_matches (Some b) p"
  shows "policy_lookup_loop (Some b)
      (pt_list (gs_Policies (after_call env (Call_set_app_policy (new_block app_id path)) s))) =
    Some (c_client_policy (new_block app_id path))"
proof -
  let ?p = "c_client_policy (new_block app_id path)"
  have "policy_matches (Some b) ?p"
    using assms(2) by (simp add: policy_matches_def c_client_policy_def new_block_def case_prod_unfold Let_def)
  moreover have "NT_SUCCESS (fst (GuardianAppPolicySet (en_Alloc env 0) (Some ?p) (gs_Policies s)))"
    using assms(1) by (simp add: run_set_policy_def checked_caller_def case_prod_unfold)
  ultimately show ?thesis
    using set_policy_matched [OF prod.collapse [symmetric]] assms(3) by (simp add: after_call_target)
qed

lemma block_policy_blocks:
  assumes "policy_lookup_loop (app_id_blob v) (pt_list (gs_Policies s)) =
      Some (c_client_policy (new_block app_id path))"
    and "length app_id = 16" and "GuardianRouteFindLocked app_id (gs_Routes s) = None"
    and "GuardianKillSwitchEvaluate 0 (gs_KillSwitch s) = None"
  shows "\<exists>result s'. GuardianClassifyConnection (Some v) start stop s = (STATUS_SUCCESS, result, s') \<and>
    cr_Action result = GuardianActionBlock"
proof -
  let ?p = "c_client_policy (new_block app_id path)"
  have "ap_Action ?p = 1" and "ap_AppId ?p = app_id"
    by (simp_all add: c_client_policy_def new_block_def case_prod_unfold Let_def)
  moreover from this have "matching_policy v s = Some ?p" "matching_route (Some ?p) s = None"
    using assms(1-3) by (simp_all add: matching_policy_def matching_route_def)
  ultimately show ?thesis using assms(4)
    by (simp add: classify_connection_decide decide_def policy_verdict_def Let_def)
qed

text \<open>
  A block policy that the client sends for one application blocks every connection that carries any
  application id, when no policy matched it before: the lookup does not compare the ids.
\<close>

lemma client_block_policy_blocks_every_application:
  assumes "buffered_device dio" and "running s" and "length app_id = 16"
    and "GuardianClient_set_app_policy dio env (new_block app_id path) s = Inr (Inr (), s')"
    and "GuardianKillSwitchEvaluate 0 (gs_KillSwitch s) = None"
    and "app_id_blob v = Some b" and "b \<noteq> []"
    and "\<forall>p \<in> set (pt_list (gs_Policies s)). \<not> policy_matches (Some b) p"
    and "GuardianRouteFindLocked app_id (gs_Routes s) = None"
  shows "\<exists>result s''. GuardianClassifyConnection (Some v) start stop s' = (STATUS_SUCCESS, result, s'') \<and>
    cr_Action result = GuardianActionBlock"
proof -
  let ?call = "Call_set_app_policy (new_block app_id path)"
  have "perform dio env ?call s = Inr (Inr (), s')" and typed: "typed_call ?call"
    using assms(3,4) by simp_all
  then have ok: "NT_SUCCESS (fst (effect_of env ?call (checked_caller env s)))"
    and s': "s' = after_call env ?call s"
    using perform_answers [OF assms(1,2) typed, of env] by (auto simp: answers_def after_call_def)
  show ?thesis
    by (rule block_policy_blocks [OF _ assms(3)])
      (use new_block_found [OF ok assms(7,8)] assms(5,6,9) in \<open>simp_all add: s' after_call_frame\<close>)
qed

lemma sample_service:
  "from_service \<lparr>ro_Irp = True, ro_RequestorProcessId = 4\<rparr> [4 \<mapsto> 0] sample_env"
  "NT_SUCCESS (fst (GuardianSecurityPolicyVerifyCaller (Some \<lparr>ro_Irp = True, ro_RequestorProcessId = 4\<rparr>)
     [4 \<mapsto> 0] (gs_AllowedServicePid (entry_running sample_system None))))"
  by (simp_all add: from_service_def sample_env_def verify_accepts_iff entry_running_fields)

lemma set_policy_ok:
  assumes "policy_inv (gs_Policies s)" and "gap_version p = 1" and "en_Alloc env 0"
    and "length (pt_list (gs_Policies s)) < 4096"
  shows "NT_SUCCESS (fst (effect_of env (Call_set_app_policy p) (checked_caller env s)))"
proof -
  have "pt_count (gs_Policies s) < GUARDIAN_MAX_POLICIES"
    using assms(1,4) by (simp add: policy_inv_def table_inv_def GUARDIAN_MAX_POLICIES_def word_less_nat_alt)
  then show ?thesis
    using policy_set_success_iff [of "en_Alloc env 0" "c_client_policy p" "gs_Policies s"] assms(2,3)
    by (simp add: run_set_policy_def checked_caller_def c_client_policy_def GUARDIAN_APP_POLICY_VERSION_def
        case_prod_unfold)
qed

lemma set_route_ok:
  assumes "route_inv (gs_Routes s)" and "gra_version r = 1" and "en_Alloc env 0"
    and "length (rt_list (gs_Routes s)) < 4096"
  shows "NT_SUCCESS (fst (effect_of env (Call_set_route r) (checked_caller env s)))"
proof -
  have "rt_count (gs_Routes s) < GUARDIAN_MAX_ROUTES"
    using assms(1,4) by (simp add: route_inv_def table_inv_def GUARDIAN_MAX_ROUTES_def word_less_nat_alt)
  then show ?thesis
    using route_set_success_iff [of "en_Alloc env 0" "c_client_route r" "gs_Routes s"] assms(2,3)
    by (simp add: run_set_route_def checked_caller_def c_client_route_def GUARDIAN_ROUTE_ASSIGNMENT_VERSION_def
        case_prod_unfold)
qed

lemma kill_switch_ok:
  "NT_SUCCESS (fst (effect_of env (Call_set_kill_switch block_all_config) s))"
  "NT_SUCCESS (fst (effect_of env (Call_set_kill_switch restore_config) s))"
  "ks_Mode (gs_KillSwitch (after_call env (Call_set_kill_switch restore_config) s)) = ks_mode_code GuardianKsOff"
  by (simp_all add: run_set_kill_switch_def block_all_config_def restore_config_def
      c_client_kill_switch_def GuardianKillSwitchSet_def GUARDIAN_KILL_SWITCH_VERSION_def
      after_call_def counted_def)

lemma client_block_policy_blocks_every_application_witness:
  "\<exists>s' result s''. GuardianClient_set_app_policy sample_device sample_env (new_block (replicate 16 7) [65])
      (entry_running sample_system None) = Inr (Inr (), s') \<and>
    GuardianClassifyConnection (Some (connect_v4 (Some [9]))) 0 0 s' = (STATUS_SUCCESS, result, s'') \<and>
    cr_Action result = GuardianActionBlock"
proof -
  let ?s = "entry_running sample_system None" and ?p = "new_block (replicate 16 7) [65]"
  have "NT_SUCCESS (fst (effect_of sample_env (Call_set_app_policy ?p) (checked_caller sample_env ?s)))"
    by (rule set_policy_ok) (simp_all add: entry_running_fields policy_tab.inv_empty sample_env_def)
  from perform_succeeds [OF sample_device_accepts sample_running _ caller_ok_first [OF sample_service] this]
  obtain s' where call: "GuardianClient_set_app_policy sample_device sample_env ?p ?s = Inr (Inr (), s')"
    by auto
  have "\<exists>result s''. GuardianClassifyConnection (Some (connect_v4 (Some [9]))) 0 0 s' =
      (STATUS_SUCCESS, result, s'') \<and> cr_Action result = GuardianActionBlock"
    by (rule client_block_policy_blocks_every_application
        [OF accepting_is_buffered [OF sample_device_accepts] sample_running _ call, where b = "[9]"])
      (simp_all add: entry_running_fields GuardianKillSwitchInitialize_def ks_evaluate_simps
        route_tab.lookup_empty)
  then show ?thesis using call by blast
qed

end
