(* ===== verification/Client_Tests.thy ===== *)
theory Client_Tests
  imports Client_Session
begin

text \<open>
  The tests of usermode/tests/src/lib.rs that need the loaded driver, and the one that compares the
  control codes. Each makes calls of the client and expects them to succeed; they pass when the caller
  is accepted and Windows passes its requests on.
\<close>

section \<open>The tests of single calls\<close>

definition driver_load_state_expects :: "GuardianDriverStateV1 \<Rightarrow> bool" where
  "driver_load_state_expects state \<longleftrightarrow>
     gds_version state = 1 \<and>
     (gds_lifecycle_state state = lifecycle_state_as_u32 LifecycleState_Running \<or>
      gds_lifecycle_state state = lifecycle_state_as_u32 LifecycleState_Recovering)"

definition dns_observe_config :: GuardianDnsConfigV1 where
  "dns_observe_config =
     \<lparr>gdc_version = 1, gdc_capabilities = 1, gdc_enabled = 1, gdc_observe_only = 1,
      gdc_reserved = replicate 2 0, gdc_proxy_port = 5353, gdc_excluded_pid_count = 0,
      gdc_excluded_pids = replicate 16 0\<rparr>"

lemma driver_load_state_passes:
  assumes "accepting_device dio" and "running s" and "caller_ok env s"
  shows "\<exists>x s'. GuardianClient_driver_state dio env s = Inr (Inr x, s') \<and> driver_load_state_expects x"
proof -
  obtain x s' where call: "GuardianClient_driver_state dio env s = Inr (Inr x, s')"
    and x: "c_client_driver_state x = gs_Driver s"
    using driver_state_answers [OF accepting_is_buffered [OF assms(1)] assms(2), of env] assms(1,3)
    by (auto simp: answers_def)
  have "gds_lifecycle_state x = dv_LifecycleState (gs_Driver s)"
    unfolding x [symmetric] by (simp add: c_client_driver_state_def)
  then have "driver_load_state_expects x"
    using state_query_version(1) [OF assms(2) x] running_inv [OF assms(2)]
    by (simp add: driver_load_state_expects_def guardian_inv_def)
  then show ?thesis using call by blast
qed

lemma dns_observe_config_passes:
  assumes "accepting_device dio" and "running s" and "caller_ok env s"
  shows "\<exists>s'. GuardianClient_dns_set_config dio env dns_observe_config s = Inr (Inr (), s') \<and>
    dc_Enabled (dns_Config (gs_Dns s')) = 1"
proof -
  let ?call = "Call_dns_set_config dns_observe_config"
  have "typed_call ?call" by (simp add: wf_client_dns_config_def dns_observe_config_def)
  moreover have "NT_SUCCESS (fst (effect_of env ?call (checked_caller env s)))"
    by (simp add: run_dns_config_def GuardianDnsLayerSetConfig_def c_client_dns_config_def
        dns_observe_config_def GUARDIAN_DNS_CONFIG_VERSION_def)
  ultimately have "perform dio env ?call s = Inr (Inr (), after_call env ?call s)"
    using perform_succeeds [OF assms(1,2) _ assms(3)] by blast
  moreover have "dc_Enabled (dns_Config (gs_Dns (after_call env ?call s))) = 1"
    by (simp add: after_call_def counted_def run_dns_config_def GuardianDnsLayerSetConfig_def
        c_client_dns_config_def dns_observe_config_def GUARDIAN_DNS_CONFIG_VERSION_def)
  ultimately show ?thesis by simp
qed

lemma recovery_reconcile_passes:
  assumes "accepting_device dio" and "running s" and "caller_ok env s"
  shows "\<exists>x s'. GuardianClient_reconcile dio env s = Inr (Inr x, s') \<and> grr_version x = 1"
proof -
  obtain x s' where "GuardianClient_reconcile dio env s = Inr (Inr x, s')"
    and "c_client_reconcile x = reconcile_answer s"
    using reconcile_query.ask [OF accepting_is_buffered [OF assms(1)] assms(2), of env] assms(1,3)
    by (auto simp: answers_def GuardianClient_reconcile_def)
  then show ?thesis by (auto simp: c_client_reconcile_def reconcile_answer_def)
qed

lemma ioctl_codes_unique: "client_code x = client_code y \<longleftrightarrow> x = y"
  using guardian_ioctl.code_inj [of x y]
  by (auto simp: client_code_mirrors simp del: ioctl_code.simps client_code.simps)

section \<open>The round trip of a policy, a route and the kill switch\<close>




definition after_calls :: "(ioctl_env \<times> client_call) list \<Rightarrow> guardian \<Rightarrow> guardian" where
  "after_calls calls s = fold (\<lambda>(env, call). after_call env call) calls s"

lemma after_calls_Cons [simp]:
  "after_calls [] s = s" "after_calls ((env, call) # calls) s = after_calls calls (after_call env call s)"
  by (simp_all add: after_calls_def)







end
