(* ===== verification/Spec2Isabelle.thy ===== *)
theory Spec2Isabelle
  imports Ioctl_Replies Lock_Progress Locked_Readers Pool_Refinement Concurrent_Classify Concurrent_Caller Concurrent_Telemetry Concurrent_Mode
    Locked_Tables Locked_Kill_Switch Concurrent_Control Client_Tests
begin

text \<open>
  WireSentinel kernel driver (src/driver, src/shared) and its client (src/usermode). A WFP callout driver that permits, blocks or
  routes outbound connections per application. A service in user space sends control requests
  (IOCTLs) that fill an application policy table, a route table, a kill switch, a DNS observation
  configuration and the driver's mode; the filter engine calls the driver's classify functions for
  each connection, which consult that state and answer permit or block; counters record both.

  \<^bold>\<open>Theories and sources\<close>

  \<^item> Prelude: C integers as words, NTSTATUS values and NT\_SUCCESS, the fault OutOfBounds for an access
    outside a buffer, the contract c\_enum of a C enumeration, memory primitives, list lemmas.
  \<^item> Byte\_Codec: little-endian integers, readers over byte strings, the contract codec of a packed
    structure and the arrays of such structures.
  \<^item> Structures: shared/structures/*.h and shared/protocol/guardian\_message.h. One record, encoder,
    reader and sizeof per packed struct, one datatype with codes per enum; each an interpretation
    of its contract.
  \<^item> App\_Table: the list operations behind the two application tables, and the contracts app\_table
    (find, set, remove, capacity, counter) and app\_table\_sync (refilling from an array).
  \<^item> App\_Policy, Route\_Assignment: policy/app\_policy.c and route/route\_assignment.c. State: the
    entries in insertion order and the counter g\_PolicyCount or g\_RouteCount. Both interpret
    app\_table\_sync.
  \<^item> Kill\_Switch, Telemetry, Dns\_Observe: killswitch/killswitch.c, telemetry/telemetry.c,
    callouts/dns\_observe.c. State: the static variables of each file.
  \<^item> Guardian\_State: all globals of the driver in the record guardian; guardian/guids.c.
  \<^item> Classify, Callout\_Manager: classify/classify.c and callouts/manager.c, the decision, the
    classify functions of the filter engine, the registration of the callouts.
  \<^item> Hybrid\_Coordinator, State\_Manager: filters/filters.c; state/guardian\_state\_mgr.c and
    recovery/recovery.c.
  \<^item> Caller\_Check, Ioctl\_Codes, Ioctl\_Dispatch: ipc/security.c, shared/protocol/guardian\_ioctl.h,
    ipc/ioctl\_dispatch.c, the whole request handler at the level of bytes.
  \<^item> Ioctl\_Effects, Ioctl\_Properties: what each control may do to the state, as a relation, and the
    proof that the handler implements it.
  \<^item> Driver: guardian/driver.c and guardian/device.c, start and unload.
  \<^item> System, Typed\_Tables, Ioctl\_Replies: the loaded driver as a transition system of calls that
    are handled one at a time, the invariant they keep, the types of what the tables hold, and what
    the requests return.
  \<^item> Linked\_List, Pool\_Tables, Pool\_Refinement: the two tables again, over memory: the links of the
    list entries, the pool blocks, the traversals, allocations and releases of app\_policy.c and
    route\_assignment.c. The list macros are the contract list\_routines; memory that represents a
    table goes on representing it (pool\_refinement), which justifies the lists of App\_Policy and
    Route\_Assignment.
  \<^item> Interleaving: threads over a shared state, one atomic access per step, and the contracts
    thread\_ledger, thread\_invariant and thread\_bound of their step functions.
  \<^item> Concurrent\_Tables, Concurrent\_Classify, Concurrent\_Caller, Concurrent\_Telemetry,
    Concurrent\_Mode: the operations that the parallel request queue and the classify calls
    interleave, as threads: the syncs of both tables, the classify with table calls in between, the
    caller check, the recording functions, the setting of the mode. A thread that runs
    alone is proved to be the function of the component's own theory.
  \<^item> Concurrent\_Driver, Concurrent\_System, Concurrent\_Control: whole requests as threads, from the
    caller check through the operation to the recording, next to classified connections. A request
    alone is proved to be GuardianEvtIoDeviceControl; then what all interleavings keep.
  \<^item> Spin\_Lock, Locked\_Tables, Locked\_Kill\_Switch: the critical sections of app\_policy.c,
    route\_assignment.c and killswitch.c access by access, the lock a variable of its own, and the
    contract spin\_section under which they are the single steps of the other theories.
  \<^item> Locked\_Readers, Lock\_Progress: what the lookups see of a sync, access by access, and the
    contract lock\_progress under which the calls that wait for a lock return.
  \<^item> Client\_Types, Client\_Values, Client\_Methods: usermode/controller/src (ioctl.rs, types.rs,
    protocol.rs, device\_impl.rs, client\_impl.rs), the Rust client of the service. Each of its
    structures is an interpretation of the contract mirrored: the layout of the driver's structure.
  \<^item> Client\_Requests, Client\_Session: each method of the client run against the driver, as an
    interpretation of driver\_query or driver\_command; sequences of calls.
  \<^item> Client\_Tests: the tests of usermode/tests/src/lib.rs that need the loaded driver.

  Definitions have the names of the C functions, record fields those of the C members behind a
  prefix, datatype constructors those of the enum constants. Names in small letters are parts of a
  function (a loop, a branch of a switch) or belong to the specification.

  \<^bold>\<open>What the lemmas show\<close>

  \<^item> Layout: every structure's reader inverts its encoder, reads exactly its sizeof, and fails
    exactly on a shorter buffer; so an input buffer holds the structure the dispatch reads from it.
  \<^item> Tables: distinct 16-byte keys, capacity 4096, exact counters; set, remove and lookup as updates
    of a map; a sync replaces the table, and stops at the first element it refuses; the lookup
    returns the first entry in insertion order that matches.
  \<^item> Memory: every sequence of table operations from the initialisation on is free of accesses to
    released blocks and of bad releases, returns, agrees with the operations on lists, and leaves no
    block allocated after the shutdown; a set that meets the unlocked initialisation in a sync does.
  \<^item> Decision: classify.c computes the table decide; each of its error paths permits.
  \<^item> Controls: the handler is the composition of caller check, buffer checks, validation and one
    component operation (dispatch\_effect); which requests can leave the system buffer
    (dispatch\_fault) and that none but the two syncs can; how much output is completed.
  \<^item> Start: the outcome of DriverEntry for each answer of the system, and what unload releases.
  \<^item> System: an invariant that the calls keep when they are made in turn, from one preservation lemma
    per component; calls that overlap break parts of it, as the Concurrent theories show. A
    successful reply is the structure that its control promises, with the contents of the state.
  \<^item> Concurrency, with each critical section as one step: every request and connection returns; in
    every interleaving of requests and connections the tables keep typed entries with distinct ids,
    no request but a sync can leave its buffer, a pinned service stays pinned and other callers are
    refused, BlockAll blocks, and every request and recorded event is counted exactly. And where the
    missing synchronisation shows: two first callers both accepted, a table whose counter is wrong
    after a sync, the window in which a sync permits every connection, a guardian mode and a kill
    switch mode that differ from the reported ones, a lost maximum.
  \<^item> Locks: while no lock is initialised under its holder, at most one thread is in a critical
    section and each section is one atomic operation, so the other theories miss no interleaving, and
    the readers of a sync see a prefix of it; a sync that initialises the lock while a set or a lookup
    holds it lets two sets insert the same application, and a lookup find what no prefix gives. With
    that initialisation too, no call waits for ever: a held lock has a thread that will release it.
  \<^item> Client: its codes and structures are the driver's; a query returns what the driver holds, a
    command runs the one operation it is named for, and no sequence of calls makes the driver fault.

  Several properties state what the code does where it departs from its documents: the sync that
  reads past its buffer, the lookup that does not tell applications apart, the VPN interface that is
  never compared, the latency that is sampled once, the registry values that are never read, the
  callouts left behind by a failed registration.

  \<^bold>\<open>Parameters of the model\<close>

  Code outside the repository answers through parameters: the registry (registry), the process
  table (process\_table), the NDIS driver (ndis\_device), the framework and filter engine calls of the
  start (device\_env, driver\_env), pool allocation (a Boolean per call, in Pool\_Tables the address
  that an allocation returns), the list macros (list\_api, with list\_routines as their documented
  contract and wdm\_list\_api as an instance), the performance counter (start and stop readings). The engine answers
  the unregistration of each callout with a status (unregister). No property assumes more of them
  than its statement says. What Windows does
  between DeviceIoControl and the driver is a parameter of the client (device\_io\_control), with the
  documented handling of METHOD\_BUFFERED as its hypothesis: buffered\_device when Windows may also
  refuse the call, accepting\_device when it does not, sample\_device an instance of both. The bytes of
  unknown memory that a call may leave unwritten (the stack slot of a registry value) are given explicitly and properties hold for
  all of them.

  \<^bold>\<open>Bounds\<close>

  All loops of the driver run over a list or up to a counter, so the definitions are total
  functions by structural recursion; no fuel is used. The two loops that follow links in memory
  (scan\_loop, shutdown\_loop) are partial functions, proved to return on a well-formed list. The
  bounds are the program's: 4096 entries per table, 256 policies and 512 routes per sync, 16 excluded
  process ids, 65536 bytes of input.

  \<^bold>\<open>Not modelled\<close>

  The invariant of System is that of requests handled one at a time; the Concurrent theories have
  the interleavings. There the accesses to aligned variables are sequentially consistent; a query, a
  DNS configuration and an unknown code are one step of a request (a query may read its fields at
  different times), and the lists are abstract. That a sync initialises a lock while another
  thread holds it is in Locked\_Tables, Locked\_Readers and Lock\_Progress only.
  Memory is explicit for the two tables only, one operation at a time apart from that set; elsewhere
  the tables are lists. The framework objects have only the status and the handle
  of the calls that create them. Of the client, the
  release of the handle and stub.rs, which returns NotWindows on other systems, are not modelled; of
  its tests, those that compare constants or measure time. The client's requests run one at a time.
  The project files and the scripts are outside the model.
\<close>

end
